(* ===== verification/Prelude.thy ===== *)
theory Prelude
  imports Main "HOL-Library.Word"
begin

text \<open>
  Shared vocabulary of the development: the Rust integer types as machine words with their
  saturating operations, Rust strings as byte strings with the \<open>str\<close> methods the source
  calls (\<open>trim\<close>, \<open>split\<close>, \<open>starts_with\<close>, \<open>strip_prefix\<close>, \<open>parse\<close>, ASCII case
  folding), decimal formatting, and results as sums.

  A Rust \<open>String\<close>, \<open>&str\<close>, \<open>Vec<u8>\<close> and \<open>&[u8]\<close> are all a \<^typ>\<open>string\<close> here: a HOL
  character is one byte, so a string is the UTF-8 byte sequence that \<open>as_bytes\<close> yields and
  \<open>length\<close> is Rust's \<open>len\<close>.
\<close>

named_theorems word_nat "comparisons and saturating operations on words, read through unat"
named_theorems handler_defs "definitions a handler unfolds to when it is run on a request"

section \<open>Machine integers\<close>

type_synonym u64 = "64 word"
type_synonym u32 = "32 word"
type_synonym u16 = "16 word"
type_synonym bytes = string

definition sat_sub :: "'a::len word \<Rightarrow> 'a word \<Rightarrow> 'a word" where
  "sat_sub a b = (if a < b then 0 else a - b)"

definition sat_add :: "'a::len word \<Rightarrow> 'a word \<Rightarrow> 'a word" where
  "sat_add a b = (if unat a + unat b < 2 ^ LENGTH('a) then a + b else - 1)"

definition sat_mul :: "'a::len word \<Rightarrow> 'a word \<Rightarrow> 'a word" where
  "sat_mul a b = (if unat a * unat b < 2 ^ LENGTH('a) then a * b else - 1)"

declare word_less_nat_alt [word_nat] word_le_nat_alt [word_nat] word_unat_eq_iff [word_nat]

lemma unat_sat_sub [word_nat, simp]: "unat (sat_sub a b) = unat a - unat b"
  by (auto simp: sat_sub_def word_less_nat_alt unat_sub_if')

lemma unat_minus_one_word_eq: "unat (- 1 :: 'a::len word) = 2 ^ LENGTH('a) - 1"
  by (simp add: unsigned_minus_1_eq_mask mask_eq_exp_minus_1)

lemma unat_sat_add [word_nat]:
  "unat (sat_add a (b :: 'a::len word)) = min (unat a + unat b) (2 ^ LENGTH('a) - 1)"
  by (auto simp: sat_add_def unat_word_ariths unat_minus_one_word_eq)

lemma unat_sat_mul [word_nat]:
  "unat (sat_mul a (b :: 'a::len word)) = min (unat a * unat b) (2 ^ LENGTH('a) - 1)"
  by (auto simp: sat_mul_def unat_word_ariths unat_minus_one_word_eq)

lemma unat_pred: "(c :: 'a::len word) \<noteq> 0 \<Longrightarrow> unat (c - 1) = unat c - 1"
  by (simp add: unat_minus_one)

lemma unat_succ_below:
  assumes "(c :: u64) < m"
  shows "unat (c + 1) = Suc (unat c) \<and> Suc (unat c) \<le> unat m"
proof -
  have "unat c < unat m" "unat m < 2 ^ 64" using assms unsigned_less[of m] by (simp_all add: word_less_nat_alt)
  then show ?thesis by (simp add: unat_word_ariths)
qed

lemma sat_sub_self [simp]: "sat_sub a a = 0"
  by (simp add: sat_sub_def)

section \<open>Results\<close>

text \<open>\<open>Result<T, E>\<close> is \<^typ>\<open>'e + 'a\<close>, the error on the left. \<open>and_then\<close> is the \<open>?\<close> operator.\<close>

fun and_then :: "'e + 'a \<Rightarrow> ('a \<Rightarrow> 'e + 'b) \<Rightarrow> 'e + 'b" where
  "and_then (Inl e) f = Inl e"
| "and_then (Inr a) f = f a"

fun r_ok :: "'e + 'a \<Rightarrow> 'a option" where
  "r_ok (Inl e) = None"
| "r_ok (Inr a) = Some a"

fun ok_or :: "'e \<Rightarrow> 'a option \<Rightarrow> 'e + 'a" where
  "ok_or e None = Inl e"
| "ok_or e (Some a) = Inr a"

fun is_ok :: "'e + 'a \<Rightarrow> bool" where
  "is_ok (Inl e) = False"
| "is_ok (Inr a) = True"

lemma and_then_Inr_iff [simp]:
  "and_then r f = Inr b \<longleftrightarrow> (\<exists>a. r = Inr a \<and> f a = Inr b)"
  by (cases r) auto

lemma and_then_is_ok [simp]: "is_ok (and_then r f) \<longleftrightarrow> (\<exists>a. r = Inr a \<and> is_ok (f a))"
  by (cases r) auto

lemma is_ok_iff: "is_ok r \<longleftrightarrow> (\<exists>a. r = Inr a)"
  by (cases r) auto

lemma ok_or_Inr_iff [simp]: "ok_or e x = Inr a \<longleftrightarrow> x = Some a"
  by (cases x) auto

lemma ok_or_Inl_iff [simp]: "ok_or e x = Inl e' \<longleftrightarrow> x = None \<and> e' = e"
  by (cases x) auto

lemma r_ok_Some_iff [simp]: "r_ok r = Some a \<longleftrightarrow> r = Inr a"
  by (cases r) auto

text \<open>A loop of checks \<open>for x in xs { check(x)?; }\<close>.\<close>

fun for_each_ok :: "('a \<Rightarrow> 'e + unit) \<Rightarrow> 'a list \<Rightarrow> 'e + unit" where
  "for_each_ok f [] = Inr ()"
| "for_each_ok f (x # xs) = and_then (f x) (\<lambda>_. for_each_ok f xs)"

lemma for_each_ok_iff [simp]: "for_each_ok f xs = Inr () \<longleftrightarrow> (\<forall>x \<in> set xs. f x = Inr ())"
  by (induction xs) auto

section \<open>Histories\<close>

text \<open>The replies a stateful operation gives along a list of requests, and the state it ends in.\<close>

fun replies :: "('s \<Rightarrow> 'e \<Rightarrow> 'r \<times> 's) \<Rightarrow> 's \<Rightarrow> 'e list \<Rightarrow> 'r list" where
  "replies f s [] = []"
| "replies f s (e # es) = fst (f s e) # replies f (snd (f s e)) es"

fun run_state :: "('s \<Rightarrow> 'e \<Rightarrow> 'r \<times> 's) \<Rightarrow> 's \<Rightarrow> 'e list \<Rightarrow> 's" where
  "run_state f s [] = s"
| "run_state f s (e # es) = run_state f (snd (f s e)) es"

lemma length_replies [simp]: "length (replies f s es) = length es"
  by (induction es arbitrary: s) auto

lemma replies_append [simp]: "replies f s (es @ fs) = replies f s es @ replies f (run_state f s es) fs"
  by (induction es arbitrary: s) auto

lemma run_state_append [simp]: "run_state f s (es @ fs) = run_state f (run_state f s es) fs"
  by (induction es arbitrary: s) auto

section \<open>Keyed components\<close>

text \<open>
  A component that keeps one piece of state per key and whose operations touch only the key
  they name. Keys are then independent: the state of a key after any history is the state
  after the events of that key alone.
\<close>

locale keyed_component =
  fixes view :: "'s \<Rightarrow> 'k \<Rightarrow> 'w"
    and step :: "'s \<Rightarrow> 'e \<Rightarrow> 's"
    and key :: "'e \<Rightarrow> 'k"
    and local_step :: "'w \<Rightarrow> 'e \<Rightarrow> 'w"
  assumes own: "view (step s e) (key e) = local_step (view s (key e)) e"
    and frame: "k \<noteq> key e \<Longrightarrow> view (step s e) k = view s k"
begin

lemma view_run:
  "view (foldl step s es) k = foldl local_step (view s k) (filter (\<lambda>e. key e = k) es)"
proof (induction es arbitrary: s)
  case Nil
  then show ?case by simp
next
  case (Cons e es)
  then show ?case by (cases "key e = k") (auto simp: own frame)
qed

lemma isolation:
  "filter (\<lambda>e. key e = k) es = filter (\<lambda>e. key e = k) es' \<Longrightarrow>
   view (foldl step s es) k = view (foldl step s es') k"
  by (simp add: view_run)

lemma run_frame: "\<forall>e \<in> set es. key e \<noteq> k \<Longrightarrow> view (foldl step s es) k = view s k"
proof -
  assume "\<forall>e \<in> set es. key e \<noteq> k"
  then have "filter (\<lambda>e. key e = k) es = []" by (auto simp: filter_empty_conv)
  then show ?thesis by (simp add: view_run)
qed

end

text \<open>
  A keyed component that answers: the answer to an event depends only on the state of its
  key. The answers a key receives in any history are those of its own events alone.
\<close>

locale keyed_service =
  fixes view :: "'s \<Rightarrow> 'k \<Rightarrow> 'w"
    and serve :: "'s \<Rightarrow> 'e \<Rightarrow> 'r \<times> 's"
    and key :: "'e \<Rightarrow> 'k"
    and local_serve :: "'w \<Rightarrow> 'e \<Rightarrow> 'r \<times> 'w"
  assumes own_reply: "fst (serve s e) = fst (local_serve (view s (key e)) e)"
    and own_view: "view (snd (serve s e)) (key e) = snd (local_serve (view s (key e)) e)"
    and other_view: "k \<noteq> key e \<Longrightarrow> view (snd (serve s e)) k = view s k"
begin

lemma replies_of_key:
  "filter (\<lambda>(e, r). key e = k) (zip es (replies serve s es)) =
   (let own = filter (\<lambda>e. key e = k) es in zip own (replies local_serve (view s k) own))"
proof (induction es arbitrary: s)
  case (Cons e es)
  show ?case
  proof (cases "key e = k")
    case True
    with Cons show ?thesis by (auto simp: Let_def own_reply own_view)
  next
    case False
    with Cons show ?thesis by (simp add: Let_def other_view)
  qed
qed simp

end

sublocale keyed_service \<subseteq> comp: keyed_component view "\<lambda>s e. snd (serve s e)" key
    "\<lambda>w e. snd (local_serve w e)"
  by unfold_locales (simp_all add: own_view other_view)

section \<open>Strings\<close>

subsection \<open>Splitting\<close>

text \<open>\<open>str::split(char)\<close>: one more field than there are separators.\<close>

fun split_on :: "char \<Rightarrow> string \<Rightarrow> string list" where
  "split_on d [] = [[]]"
| "split_on d (c # cs) =
     (if c = d then [] # split_on d cs
      else (case split_on d cs of [] \<Rightarrow> [[c]] | f # fs \<Rightarrow> (c # f) # fs))"

lemma split_on_nonempty [simp]: "split_on d s \<noteq> []"
  by (induction s) (auto split: list.splits)

lemma split_on_no_sep [simp]: "d \<notin> set s \<Longrightarrow> split_on d s = [s]"
  by (induction s) auto

lemma split_on_append [simp]: "d \<notin> set s \<Longrightarrow> split_on d (s @ d # t) = s # split_on d t"
  by (induction s) auto

text \<open>Joining the fields back gives the string: splitting loses nothing.\<close>

fun join_on :: "char \<Rightarrow> string list \<Rightarrow> string" where
  "join_on d [] = []"
| "join_on d [f] = f"
| "join_on d (f # g # fs) = f @ d # join_on d (g # fs)"

lemma join_on_Cons [simp]: "fs \<noteq> [] \<Longrightarrow> join_on d (f # fs) = f @ d # join_on d fs"
  by (cases fs) auto

lemma join_split_on [simp]: "join_on d (split_on d s) = s"
proof (induction s)
  case Nil
  then show ?case by simp
next
  case (Cons c cs)
  obtain f fs where fs: "split_on d cs = f # fs" by (cases "split_on d cs") auto
  with Cons show ?case by (cases fs) auto
qed

lemma split_on_fields_no_sep: "f \<in> set (split_on d s) \<Longrightarrow> d \<notin> set f"
  by (induction s arbitrary: f) (auto split: list.splits if_splits)

subsection \<open>Prefixes\<close>

definition starts_with :: "string \<Rightarrow> string \<Rightarrow> bool" where
  "starts_with s p \<longleftrightarrow> take (length p) s = p"

definition strip_prefix :: "string \<Rightarrow> string \<Rightarrow> string option" where
  "strip_prefix s p = (if starts_with s p then Some (drop (length p) s) else None)"

lemma starts_with_iff: "starts_with s p \<longleftrightarrow> (\<exists>r. s = p @ r)"
  unfolding starts_with_def by (metis append_eq_conv_conj append_take_drop_id)

lemma starts_with_append [simp]: "starts_with (p @ r) p"
  by (simp add: starts_with_def)

lemma strip_prefix_Some_iff: "strip_prefix s p = Some r \<longleftrightarrow> s = p @ r"
  by (auto simp: strip_prefix_def starts_with_def) (metis append_take_drop_id)

lemma starts_with_same_length:
  "starts_with s p \<Longrightarrow> starts_with s q \<Longrightarrow> length p = length q \<Longrightarrow> p = q"
  by (simp add: starts_with_def)

subsection \<open>Trimming\<close>

text \<open>
  \<open>str::trim\<close> removes leading and trailing characters with the Unicode property
  \<open>White_Space\<close>. These are their UTF-8 encodings.
\<close>

definition utf8_ws :: "string list" where
  "utf8_ws =
     [[CHR 0x09], [CHR 0x0A], [CHR 0x0B], [CHR 0x0C], [CHR 0x0D], [CHR 0x20],
      [CHR 0xC2, CHR 0x85], [CHR 0xC2, CHR 0xA0], [CHR 0xE1, CHR 0x9A, CHR 0x80],
      [CHR 0xE2, CHR 0x80, CHR 0x80], [CHR 0xE2, CHR 0x80, CHR 0x81],
      [CHR 0xE2, CHR 0x80, CHR 0x82], [CHR 0xE2, CHR 0x80, CHR 0x83],
      [CHR 0xE2, CHR 0x80, CHR 0x84], [CHR 0xE2, CHR 0x80, CHR 0x85],
      [CHR 0xE2, CHR 0x80, CHR 0x86], [CHR 0xE2, CHR 0x80, CHR 0x87],
      [CHR 0xE2, CHR 0x80, CHR 0x88], [CHR 0xE2, CHR 0x80, CHR 0x89],
      [CHR 0xE2, CHR 0x80, CHR 0x8A], [CHR 0xE2, CHR 0x80, CHR 0xA8],
      [CHR 0xE2, CHR 0x80, CHR 0xA9], [CHR 0xE2, CHR 0x80, CHR 0xAF],
      [CHR 0xE2, CHR 0x81, CHR 0x9F], [CHR 0xE3, CHR 0x80, CHR 0x80]]"

definition strip_any :: "string list \<Rightarrow> string \<Rightarrow> string option" where
  "strip_any ws s = map_option (\<lambda>w. drop (length w) s) (find (\<lambda>w. w \<noteq> [] \<and> starts_with s w) ws)"

lemma strip_any_shorter: "strip_any ws s = Some r \<Longrightarrow> length r < length s"
  by (auto simp: strip_any_def find_Some_iff starts_with_iff)

function trim_by :: "string list \<Rightarrow> string \<Rightarrow> string" where
  "trim_by ws s = (case strip_any ws s of None \<Rightarrow> s | Some r \<Rightarrow> trim_by ws r)"
  by pat_completeness auto
termination
  by (relation "measure (\<lambda>(ws, s). length s)") (auto dest: strip_any_shorter)

declare trim_by.simps [simp del]

definition trim_start :: "string \<Rightarrow> string" where
  "trim_start s = trim_by utf8_ws s"

definition trim_end :: "string \<Rightarrow> string" where
  "trim_end s = rev (trim_by (map rev utf8_ws) (rev s))"

definition trim :: "string \<Rightarrow> string" where
  "trim s = trim_end (trim_start s)"

text \<open>Graphic ASCII (\<open>!\<close> to \<open>~\<close>): the characters of every field the service formats itself.\<close>

definition graphic :: "char \<Rightarrow> bool" where
  "graphic c \<longleftrightarrow> (33 :: nat) \<le> of_char c \<and> of_char c \<le> (126 :: nat)"

lemma of_char_less_256: "(of_char c :: nat) < 256"
  by (metis of_char_mod_256 mod_less_divisor zero_less_numeral)

lemma strip_any_None:
  assumes "\<And>w. w \<in> set ws \<Longrightarrow> w \<noteq> [] \<Longrightarrow> \<not> graphic (hd w)"
    and "\<forall>c \<in> set s. graphic c"
  shows "strip_any ws s = None"
proof -
  have "\<not> starts_with s w" if "w \<in> set ws" "w \<noteq> []" for w
    using assms(1)[OF that] assms(2) that by (cases w) (auto simp: starts_with_iff)
  then show ?thesis by (auto simp: strip_any_def find_None_iff)
qed

lemma trim_by_graphic:
  assumes "\<And>w. w \<in> set ws \<Longrightarrow> w \<noteq> [] \<Longrightarrow> \<not> graphic (hd w)" and "\<forall>c \<in> set s. graphic c"
  shows "trim_by ws s = s"
  using strip_any_None[OF assms] by (subst trim_by.simps) simp

lemma utf8_ws_not_graphic:
  "w \<in> set utf8_ws \<Longrightarrow> \<not> graphic (hd w)" "w \<in> set (map rev utf8_ws) \<Longrightarrow> \<not> graphic (hd w)"
  by (auto simp: utf8_ws_def graphic_def)

lemma trim_graphic [simp]:
  assumes "\<forall>c \<in> set s. graphic c"
  shows "trim s = s"
proof -
  have "trim_start s = s"
    unfolding trim_start_def using utf8_ws_not_graphic(1) assms by (rule trim_by_graphic)
  moreover have "trim_by (map rev utf8_ws) (rev s) = rev s"
    using utf8_ws_not_graphic(2) assms by (intro trim_by_graphic) simp_all
  ultimately show ?thesis by (simp add: trim_def trim_end_def)
qed

lemma trim_Nil [simp]: "trim [] = []"
  by simp

subsection \<open>ASCII case\<close>

definition to_ascii_lower :: "char \<Rightarrow> char" where
  "to_ascii_lower c = (let n = of_char c :: nat in
     if 65 \<le> n \<and> n \<le> 90 then char_of (n + 32) else c)"

definition to_ascii_upper :: "char \<Rightarrow> char" where
  "to_ascii_upper c = (let n = of_char c :: nat in
     if 97 \<le> n \<and> n \<le> 122 then char_of (n - 32) else c)"

definition to_ascii_lowercase :: "string \<Rightarrow> string" where
  "to_ascii_lowercase s = map to_ascii_lower s"

definition to_ascii_uppercase :: "string \<Rightarrow> string" where
  "to_ascii_uppercase s = map to_ascii_upper s"

definition eq_ignore_ascii_case :: "string \<Rightarrow> string \<Rightarrow> bool" where
  "eq_ignore_ascii_case s t \<longleftrightarrow> to_ascii_lowercase s = to_ascii_lowercase t"

definition is_ascii :: "string \<Rightarrow> bool" where
  "is_ascii s \<longleftrightarrow> (\<forall>c \<in> set s. of_char c < (128 :: nat))"

subsection \<open>Decimal formatting and parsing\<close>

definition digit_char :: "nat \<Rightarrow> char" where
  "digit_char d = char_of (48 + d)"

fun show_nat :: "nat \<Rightarrow> string" where
  "show_nat n = (if n < 10 then [digit_char n] else show_nat (n div 10) @ [digit_char (n mod 10)])"

declare show_nat.simps [simp del]

abbreviation show_u64 :: "u64 \<Rightarrow> string" where
  "show_u64 n \<equiv> show_nat (unat n)"

definition show_int :: "int \<Rightarrow> string" where
  "show_int i = (if i < 0 then CHR ''-'' # show_nat (nat (- i)) else show_nat (nat i))"

definition is_digit :: "char \<Rightarrow> bool" where
  "is_digit c \<longleftrightarrow> (48 :: nat) \<le> of_char c \<and> of_char c \<le> (57 :: nat)"

definition digits_value :: "string \<Rightarrow> nat" where
  "digits_value s = foldl (\<lambda>v c. 10 * v + (of_char c - 48)) 0 s"

definition parse_digits :: "string \<Rightarrow> nat option" where
  "parse_digits s = (if s \<noteq> [] \<and> list_all is_digit s then Some (digits_value s) else None)"

text \<open>
  \<open>str::parse\<close> for an unsigned type: an optional leading \<open>+\<close>, at least one digit, nothing
  else, and an error on overflow. For a signed type a leading \<open>-\<close> is accepted too.
\<close>

definition parse_unsigned :: "nat \<Rightarrow> string \<Rightarrow> nat option" where
  "parse_unsigned bits s =
     (case parse_digits (case s of c # cs \<Rightarrow> if c = CHR ''+'' then cs else s | [] \<Rightarrow> []) of
        None \<Rightarrow> None
      | Some v \<Rightarrow> if v < 2 ^ bits then Some v else None)"

definition parse_signed :: "nat \<Rightarrow> string \<Rightarrow> int option" where
  "parse_signed bits s =
     (case s of
        CHR ''-'' # cs \<Rightarrow>
          (case parse_digits cs of
             None \<Rightarrow> None
           | Some v \<Rightarrow> if v \<le> 2 ^ (bits - 1) then Some (- int v) else None)
      | _ \<Rightarrow> map_option int (parse_unsigned (bits - 1) s))"

definition parse_u64 :: "string \<Rightarrow> u64 option" where
  "parse_u64 s = map_option word_of_nat (parse_unsigned 64 s)"

lemma of_char_digit_char [simp]: "d < 10 \<Longrightarrow> of_char (digit_char d) = 48 + d"
  by (simp add: digit_char_def)

lemma is_digit_digit_char [simp]: "d < 10 \<Longrightarrow> is_digit (digit_char d)"
  by (simp add: is_digit_def)

lemma digits_value_snoc [simp]:
  "digits_value (s @ [c]) = 10 * digits_value s + (of_char c - 48)"
  by (simp add: digits_value_def)

lemma show_nat_nonempty [simp]: "show_nat n \<noteq> []"
  by (subst show_nat.simps) simp

lemma show_nat_digits: "list_all is_digit (show_nat n)"
proof (induction n rule: show_nat.induct)
  case (1 n)
  then show ?case by (cases "n < 10") (simp_all add: show_nat.simps[of n])
qed

lemma digits_value_show_nat [simp]: "digits_value (show_nat n) = n"
proof (induction n rule: show_nat.induct)
  case (1 n)
  then show ?case
    by (cases "n < 10") (simp_all add: show_nat.simps[of n] digits_value_def)
qed

lemma is_digit_graphic: "is_digit c \<Longrightarrow> graphic c"
  by (simp add: is_digit_def graphic_def)

lemma show_nat_is_digit: "c \<in> set (show_nat n) \<Longrightarrow> is_digit c"
  using show_nat_digits by (auto simp: list_all_iff)

lemma show_nat_graphic [simp]: "c \<in> set (show_nat n) \<Longrightarrow> graphic c"
  by (blast dest: show_nat_is_digit is_digit_graphic)

lemma not_in_show_nat: "\<not> is_digit c \<Longrightarrow> c \<notin> set (show_nat n)"
  by (blast dest: show_nat_is_digit)

lemma parse_digits_show_nat [simp]: "parse_digits (show_nat n) = Some n"
  by (simp add: parse_digits_def show_nat_digits)

lemma parse_unsigned_show_nat: "n < 2 ^ b \<Longrightarrow> parse_unsigned b (show_nat n) = Some n"
proof -
  assume n: "n < 2 ^ b"
  obtain c cs where s: "show_nat n = c # cs" by (cases "show_nat n") auto
  then have "is_digit c" using show_nat_digits[of n] by simp
  then have "c \<noteq> CHR ''+''" by (auto simp: is_digit_def)
  with s n show ?thesis using parse_digits_show_nat[of n] by (simp add: parse_unsigned_def)
qed

lemma parse_u64_show_u64 [simp]: "parse_u64 (show_u64 n) = Some n"
proof -
  have "unat n < 2 ^ 64" using unsigned_less[of n] by simp
  then show ?thesis by (simp add: parse_u64_def parse_unsigned_show_nat)
qed

lemma show_nat_inj [simp]: "show_nat m = show_nat n \<longleftrightarrow> m = n"
  by (metis digits_value_show_nat)

lemma parse_signed_plain:
  assumes "s = [] \<or> hd s \<noteq> CHR ''-''"
  shows "parse_signed b s = map_option int (parse_unsigned (b - 1) s)"
proof (cases s)
  case (Cons c cs)
  then have "c \<noteq> CHR ''-''" using assms by simp
  then show ?thesis unfolding Cons parse_signed_def by (simp split: char.split bool.split)
qed (simp add: parse_signed_def)

lemma parse_unsigned_widen:
  assumes "parse_unsigned a s = Some v" "a \<le> b"
  shows "parse_unsigned b s = Some v"
proof -
  from assms(1) have v: "v < 2 ^ a"
    and p: "parse_digits (case s of c # cs \<Rightarrow> if c = CHR ''+'' then cs else s | [] \<Rightarrow> []) = Some v"
    by (simp_all add: parse_unsigned_def split: option.splits if_split_asm)
  have "(2 :: nat) ^ a \<le> 2 ^ b" using assms(2) by (simp add: power_increasing)
  with v have "v < 2 ^ b" by (rule less_le_trans)
  with p show ?thesis by (simp add: parse_unsigned_def)
qed

lemma parse_u64_signed:
  assumes "parse_u64 s = Some n"
  shows "parse_signed 128 s = Some (int (unat n))"
proof -
  obtain v where v: "parse_unsigned 64 s = Some v" "n = word_of_nat v" using assms by (auto simp: parse_u64_def)
  from v(1) have "v < 2 ^ 64" by (simp add: parse_unsigned_def split: option.splits if_split_asm)
  then have n: "unat n = v" by (simp add: v(2) unsigned_of_nat take_bit_nat_eq_self)
  have "s = [] \<or> hd s \<noteq> CHR ''-''"
  proof (cases s)
    case (Cons c cs)
    have "c \<noteq> CHR ''-''"
    proof
      assume "c = CHR ''-''"
      with v(1) Cons show False by (simp add: parse_unsigned_def parse_digits_def is_digit_def split: if_splits)
    qed
    with Cons show ?thesis by simp
  qed simp
  with parse_unsigned_widen[OF v(1), of 127] n show ?thesis by (simp add: parse_signed_plain)
qed

section \<open>Iterators\<close>

text \<open>\<open>Iterator::max_by_key\<close>: the last of the elements with the greatest key.\<close>

fun max_by_key :: "('a \<Rightarrow> 'k::linorder) \<Rightarrow> 'a list \<Rightarrow> 'a option" where
  "max_by_key f [] = None"
| "max_by_key f (x # xs) =
     (case max_by_key f xs of None \<Rightarrow> Some x | Some y \<Rightarrow> Some (if f x \<le> f y then y else x))"

lemma max_by_key_None_iff [simp]: "max_by_key f xs = None \<longleftrightarrow> xs = []"
  by (cases xs) (auto split: option.splits)

lemma max_by_key_Some:
  "max_by_key f xs = Some m \<Longrightarrow> m \<in> set xs \<and> (\<forall>x \<in> set xs. f x \<le> f m)"
proof (induction xs arbitrary: m)
  case (Cons x xs)
  show ?case
  proof (cases "max_by_key f xs")
    case None
    with Cons.prems show ?thesis by simp
  next
    case (Some y)
    with Cons.IH[of y] have y: "y \<in> set xs" "\<forall>x \<in> set xs. f x \<le> f y" by simp_all
    have m: "m = (if f x \<le> f y then y else x)" using Some Cons.prems by simp
    show ?thesis
    proof (cases "f x \<le> f y")
      case True
      with y m show ?thesis by simp
    next
      case False
      then have "f y \<le> f x" by simp
      with y m False show ?thesis by (auto intro: order_trans)
    qed
  qed
qed simp

lemma max_by_key_unique:
  assumes "m \<in> set xs" "\<And>x. x \<in> set xs \<Longrightarrow> f x \<le> f m" "\<And>x. x \<in> set xs \<Longrightarrow> f x = f m \<Longrightarrow> x = m"
  shows "max_by_key f xs = Some m"
proof (cases "max_by_key f xs")
  case None
  with assms(1) show ?thesis by simp
next
  case (Some y)
  with max_by_key_Some[OF Some] assms have "f m \<le> f y" "f y \<le> f m" "y \<in> set xs" by blast+
  with assms(3)[of y] Some show ?thesis by simp
qed

section \<open>Effects\<close>

text \<open>
  An asynchronous call with an effect on an outside state (a fullnode, a Redis server): it
  returns a result and leaves that state changed, whether it succeeded or not. \<open>eff_bind\<close> is
  \<open>.await?\<close>.
\<close>

type_synonym ('s, 'e, 'a) eff = "'s \<Rightarrow> ('e + 'a) \<times> 's"

definition eff_return :: "'a \<Rightarrow> ('s, 'e, 'a) eff" where
  "eff_return a s = (Inr a, s)"

definition eff_fail :: "'e \<Rightarrow> ('s, 'e, 'a) eff" where
  "eff_fail e s = (Inl e, s)"

definition eff_lift :: "'e + 'a \<Rightarrow> ('s, 'e, 'a) eff" where
  "eff_lift r s = (r, s)"

definition eff_bind :: "('s, 'e, 'a) eff \<Rightarrow> ('a \<Rightarrow> ('s, 'e, 'b) eff) \<Rightarrow> ('s, 'e, 'b) eff" where
  "eff_bind m f s = (case m s of (Inl e, s1) \<Rightarrow> (Inl e, s1) | (Inr a, s1) \<Rightarrow> f a s1)"

text \<open>\<open>map_err\<close>.\<close>

definition eff_map_err :: "('e \<Rightarrow> 'd) \<Rightarrow> ('s, 'e, 'a) eff \<Rightarrow> ('s, 'd, 'a) eff" where
  "eff_map_err h m s = (case m s of (Inl e, s1) \<Rightarrow> (Inl (h e), s1) | (Inr a, s1) \<Rightarrow> (Inr a, s1))"

fun eff_for_each :: "('a \<Rightarrow> ('s, 'e, unit) eff) \<Rightarrow> 'a list \<Rightarrow> ('s, 'e, unit) eff" where
  "eff_for_each f [] = eff_return ()"
| "eff_for_each f (x # xs) = eff_bind (f x) (\<lambda>_. eff_for_each f xs)"

lemma eff_return_iff [simp]: "eff_return a s = (r, s') \<longleftrightarrow> r = Inr a \<and> s' = s"
  by (auto simp: eff_return_def)

lemma eff_fail_iff [simp]: "eff_fail e s = (r, s') \<longleftrightarrow> r = Inl e \<and> s' = s"
  by (auto simp: eff_fail_def)

lemma eff_lift_iff [simp]: "eff_lift x s = (r, s') \<longleftrightarrow> x = r \<and> s' = s"
  by (auto simp: eff_lift_def)

text \<open>Early returns on the way to a successful result.\<close>

lemma eff_guard_Inr_iff [simp]:
  "(if b then eff_fail e else m) s = (Inr a, s') \<longleftrightarrow> \<not> b \<and> m s = (Inr a, s')"
  "(case x of None \<Rightarrow> m | Some d \<Rightarrow> eff_fail (h d)) s = (Inr a, s') \<longleftrightarrow> x = None \<and> m s = (Inr a, s')"
  "(case y of Inl c \<Rightarrow> Inl (g c) | Inr v \<Rightarrow> Inr v) = Inr w \<longleftrightarrow> y = Inr w"
  by (auto split: option.splits sum.splits)

lemma eff_bind_Inr_iff [simp]:
  "eff_bind m f s = (Inr b, s') \<longleftrightarrow> (\<exists>a s1. m s = (Inr a, s1) \<and> f a s1 = (Inr b, s'))"
  by (auto simp: eff_bind_def split: prod.splits sum.splits)

lemma eff_bind_Inl_iff:
  "eff_bind m f s = (Inl e, s') \<longleftrightarrow>
   m s = (Inl e, s') \<or> (\<exists>a s1. m s = (Inr a, s1) \<and> f a s1 = (Inl e, s'))"
  by (auto simp: eff_bind_def split: prod.splits sum.splits)

lemma eff_map_err_Inr_iff [simp]: "eff_map_err h m s = (Inr a, s') \<longleftrightarrow> m s = (Inr a, s')"
  by (auto simp: eff_map_err_def split: prod.splits sum.splits)

lemma eff_map_err_Inl_iff:
  "eff_map_err h m s = (Inl d, s') \<longleftrightarrow> (\<exists>e. m s = (Inl e, s') \<and> d = h e)"
  by (auto simp: eff_map_err_def split: prod.splits sum.splits)

end
