(* ===== verification/Quota.thy ===== *)
theory Quota
  imports Prelude
begin

text \<open>
  Spending a session's quota (\<open>spend_one\<close> in src/session.rs): an atomic counter decremented by
  a compare-exchange loop.

  \<open>spend_one\<close> is what the call does when nobody interferes. \<open>cas_step\<close> is the loop itself, one
  atomic access per step, run by any number of threads in any interleaving, with the spurious
  failures \<open>compare_exchange_weak\<close> allows. The lemmas show that every interleaving spends like
  the atomic operation would: each success takes exactly one unit, no success is handed out
  twice, the counter never wraps, and \<open>None\<close> is returned only when the counter is empty.
\<close>

section \<open>The operation, run alone\<close>

definition spend_one :: "u64 \<Rightarrow> u64 option \<times> u64" where
  "spend_one c = (if c = 0 then (None, c) else (Some (c - 1), c - 1))"

lemma spend_one_exact:
  "spend_one c = (None, c) \<and> c = 0 \<or>
   (\<exists>r. spend_one c = (Some r, r) \<and> unat c = Suc (unat r))"
  by (cases "c = 0") (auto simp: spend_one_def unat_pred unat_gt_0)

section \<open>The compare-exchange loop\<close>

text \<open>
  A thread is outside the call, or holds the value it last observed. \<open>cas_returned\<close> lists the
  results of finished calls, the latest first. A compare-exchange that fails is \<open>Lost\<close> when another
  thread changed the counter and \<open>Spurious\<close> when it fails although nobody did; both leave the
  thread with the value it found.
\<close>

datatype cas_pc = Outside | Observed u64

datatype cas_act = Load | Exhausted | Exchanged | Lost | Spurious

record 't cas_sys =
  cas_counter :: u64
  cas_pcs :: "'t \<Rightarrow> cas_pc"
  cas_returned :: "('t \<times> u64 option) list"

definition cas_init :: "u64 \<Rightarrow> 't cas_sys" where
  "cas_init q = \<lparr>cas_counter = q, cas_pcs = (\<lambda>_. Outside), cas_returned = []\<rparr>"

inductive cas_step :: "'t \<Rightarrow> cas_act \<Rightarrow> 't cas_sys \<Rightarrow> 't cas_sys \<Rightarrow> bool" for t where
  load: "cas_pcs s t = Outside \<Longrightarrow>
    cas_step t Load s (s\<lparr>cas_pcs := (cas_pcs s)(t := Observed (cas_counter s))\<rparr>)"
| exhausted: "cas_pcs s t = Observed c \<Longrightarrow> c = 0 \<Longrightarrow>
    cas_step t Exhausted s (s\<lparr>cas_pcs := (cas_pcs s)(t := Outside), cas_returned := (t, None) # cas_returned s\<rparr>)"
| exchanged: "cas_pcs s t = Observed c \<Longrightarrow> c \<noteq> 0 \<Longrightarrow> cas_counter s = c \<Longrightarrow>
    cas_step t Exchanged s (s\<lparr>cas_counter := c - 1, cas_pcs := (cas_pcs s)(t := Outside),
      cas_returned := (t, Some (c - 1)) # cas_returned s\<rparr>)"
| lost: "cas_pcs s t = Observed c \<Longrightarrow> c \<noteq> 0 \<Longrightarrow> cas_counter s \<noteq> c \<Longrightarrow>
    cas_step t Lost s (s\<lparr>cas_pcs := (cas_pcs s)(t := Observed (cas_counter s))\<rparr>)"
| spurious: "cas_pcs s t = Observed c \<Longrightarrow> c \<noteq> 0 \<Longrightarrow> cas_counter s = c \<Longrightarrow>
    cas_step t Spurious s (s\<lparr>cas_pcs := (cas_pcs s)(t := Observed (cas_counter s))\<rparr>)"

inductive_cases cas_stepE: "cas_step t a s s'"

text \<open>A run: the threads' steps in any interleaving, with what each step was.\<close>

inductive cas_run :: "'t cas_sys \<Rightarrow> ('t \<times> cas_act) list \<Rightarrow> 't cas_sys \<Rightarrow> bool" for s where
  idle: "cas_run s [] s"
| run: "cas_run s tr s1 \<Longrightarrow> cas_step t a s1 s2 \<Longrightarrow> cas_run s (tr @ [(t, a)]) s2"

definition cas_reachable :: "u64 \<Rightarrow> 't cas_sys \<Rightarrow> bool" where
  "cas_reachable q s \<longleftrightarrow> (\<exists>tr. cas_run (cas_init q) tr s)"

definition successes :: "('t \<times> u64 option) list \<Rightarrow> u64 list" where
  "successes rs = List.map_filter snd rs"

lemma successes_simps [simp]:
  "successes [] = []"
  "successes ((t, None) # rs) = successes rs"
  "successes ((t, Some r) # rs) = r # successes rs"
  by (simp_all add: successes_def map_filter_simps)

text \<open>
  The successful results, latest first, count up from the current value of the counter to
  the quota: \<open>counter, counter + 1, \<dots>, q - 1\<close>. Once anyone was told the quota is exhausted, or
  has seen it so, it is.
\<close>

definition cas_inv :: "u64 \<Rightarrow> 't cas_sys \<Rightarrow> bool" where
  "cas_inv q s \<longleftrightarrow>
     map unat (successes (cas_returned s)) = [unat (cas_counter s)..<unat q] \<and>
     cas_counter s \<le> q \<and>
     (\<forall>t. (t, None) \<in> set (cas_returned s) \<longrightarrow> cas_counter s = 0) \<and>
     (\<forall>t. cas_pcs s t = Observed 0 \<longrightarrow> cas_counter s = 0)"

lemma cas_inv_init: "cas_inv q (cas_init q)"
  by (simp add: cas_inv_def cas_init_def)

lemma upt_from_pred:
  assumes "c \<noteq> 0" "c \<le> q"
  shows "[unat (c - 1)..<unat q] = unat (c - 1) # [unat (c :: u64)..<unat q]"
proof -
  have "0 < unat c" "unat c \<le> unat q" using assms by (auto simp: unat_gt_0 word_le_nat_alt)
  then show ?thesis using assms by (subst upt_conv_Cons) (auto simp: unat_pred)
qed

lemma cas_step_inv: "cas_step t a s s' \<Longrightarrow> cas_inv q s \<Longrightarrow> cas_inv q s'"
proof (induction rule: cas_step.induct)
  case (exchanged s c)
  then have "cas_counter s = c" "c \<noteq> 0" "c \<le> q" "\<forall>t. (t, None) \<notin> set (cas_returned s)"
    "\<forall>t. cas_pcs s t \<noteq> Observed 0" "map unat (successes (cas_returned s)) = [unat c..<unat q]"
    by (auto simp: cas_inv_def)
  moreover from this have "c - 1 \<le> q" by (simp add: word_le_nat_alt unat_pred)
  ultimately show ?case by (auto simp: cas_inv_def upt_from_pred)
qed (auto simp: cas_inv_def split: if_splits)

lemma cas_run_inv: "cas_run s tr s' \<Longrightarrow> cas_inv q s \<Longrightarrow> cas_inv q s'"
  by (induction rule: cas_run.induct) (auto intro: cas_step_inv)

lemma cas_reachable_inv: "cas_reachable q s \<Longrightarrow> cas_inv q s"
  by (auto simp: cas_reachable_def intro: cas_run_inv cas_inv_init)

lemma successes_upt: "cas_inv q s \<Longrightarrow> map unat (successes (cas_returned s)) = [unat (cas_counter s)..<unat q]"
  by (simp add: cas_inv_def)

section \<open>Properties\<close>

text \<open>C10: under every interleaving of any number of threads running the compare-exchange loop on
  a counter that starts at the quota, the successful results handed out are pairwise
  distinct, their number plus what the counter still holds is exactly the quota (so no more
  than the quota is ever granted and the counter never wraps below zero), and a thread is
  told that the quota is exhausted only when the counter really is zero.\<close>

theorem concurrent_spending_never_exceeds_quota:
  assumes "cas_reachable q s"
  shows "distinct (successes (cas_returned s)) \<and>
    length (successes (cas_returned s)) + unat (cas_counter s) = unat q \<and>
    (\<forall>t. (t, None) \<in> set (cas_returned s) \<longrightarrow> length (successes (cas_returned s)) = unat q)"
proof -
  from assms have inv: "cas_inv q s" by (rule cas_reachable_inv)
  let ?g = "successes (cas_returned s)"
  from inv have le: "unat (cas_counter s) \<le> unat q" by (simp add: cas_inv_def word_le_nat_alt)
  have len: "length ?g = unat q - unat (cas_counter s)"
    using successes_upt[OF inv] by (metis length_map length_upt)
  have "distinct (map unat ?g)" using successes_upt[OF inv] by simp
  then have "distinct ?g" by (simp add: distinct_map)
  moreover have "(t, None) \<in> set (cas_returned s) \<Longrightarrow> length ?g = unat q" for t
    using inv len by (auto simp: cas_inv_def)
  ultimately show ?thesis using len le by auto
qed

text \<open>Two threads and one unit: the second takes it, the first loses its exchange and finds none left.\<close>

lemma two_threads_race:
  "cas_run (cas_init 1) [(True, Load), (False, Load), (False, Exchanged), (True, Lost)]
     \<lparr>cas_counter = 0, cas_pcs = (\<lambda>_. Outside)(True := Observed 0), cas_returned = [(False, Some 0)]\<rparr>"
proof -
  let ?i = "cas_init 1 :: bool cas_sys"
  let ?a = "?i\<lparr>cas_pcs := (cas_pcs ?i)(True := Observed (cas_counter ?i))\<rparr>"
  let ?b = "?a\<lparr>cas_pcs := (cas_pcs ?a)(False := Observed (cas_counter ?a))\<rparr>"
  let ?c = "?b\<lparr>cas_counter := 1 - 1, cas_pcs := (cas_pcs ?b)(False := Outside),
      cas_returned := (False, Some (1 - 1)) # cas_returned ?b\<rparr>"
  let ?d = "?c\<lparr>cas_pcs := (cas_pcs ?c)(True := Observed (cas_counter ?c))\<rparr>"
  have "cas_run ?i ([] @ [(True, Load)]) ?a"
    by (intro cas_run.run[OF cas_run.idle] cas_step.load) (simp add: cas_init_def)
  then have "cas_run ?i (([] @ [(True, Load)]) @ [(False, Load)]) ?b"
    by (rule cas_run.run, intro cas_step.load) (simp add: cas_init_def)
  then have "cas_run ?i ((([] @ [(True, Load)]) @ [(False, Load)]) @ [(False, Exchanged)]) ?c"
    by (rule cas_run.run, intro cas_step.exchanged) (simp_all add: cas_init_def)
  then have "cas_run ?i (((([] @ [(True, Load)]) @ [(False, Load)]) @ [(False, Exchanged)]) @ [(True, Lost)]) ?d"
    by (rule cas_run.run, intro cas_step.lost[where c = 1]) (simp_all add: cas_init_def)
  moreover have "?d = \<lparr>cas_counter = 0, cas_pcs = (\<lambda>_. Outside)(True := Observed 0), cas_returned = [(False, Some 0)]\<rparr>"
    by (auto simp: cas_init_def)
  ultimately show ?thesis by simp
qed

lemma two_threads_one_unit:
  "cas_reachable 1 \<lparr>cas_counter = 0, cas_pcs = (\<lambda>_. Outside),
     cas_returned = [(True, None), (False, Some 0)]\<rparr>"
proof -
  let ?d = "\<lparr>cas_counter = 0, cas_pcs = (\<lambda>_. Outside)(True := Observed 0), cas_returned = [(False, Some 0)]\<rparr>"
  let ?e = "?d\<lparr>cas_pcs := (cas_pcs ?d)(True := Outside), cas_returned := (True, None) # cas_returned ?d\<rparr>"
  have "cas_step True Exhausted ?d ?e" by (intro cas_step.exhausted[where c = 0]) simp_all
  with two_threads_race have "cas_reachable 1 ?e" unfolding cas_reachable_def by (blast intro: cas_run.run)
  moreover have "?e = \<lparr>cas_counter = 0, cas_pcs = (\<lambda>_. Outside), cas_returned = [(True, None), (False, Some 0)]\<rparr>"
    by auto
  ultimately show ?thesis by metis
qed

theorem concurrent_spending_never_exceeds_quota_witness:
  "length (successes (cas_returned \<lparr>cas_counter = 0 :: u64, cas_pcs = (\<lambda>_ :: bool. Outside),
     cas_returned = [(True, None), (False, Some 0)]\<rparr>)) = unat (1 :: u64)"
  using concurrent_spending_never_exceeds_quota[OF two_threads_one_unit] by auto

text \<open>
  The steps of one thread since it entered the call: every lost exchange has found a smaller
  value, so there are no more of them than the counter was worth.
\<close>

definition acts_of :: "'t \<Rightarrow> ('t \<times> cas_act) list \<Rightarrow> cas_act list" where
  "acts_of t tr = map snd (filter (\<lambda>x. fst x = t) tr)"

lemma acts_of_simps [simp]:
  "acts_of t [] = []"
  "acts_of t ((u, a) # tr) = (if u = t then a # acts_of t tr else acts_of t tr)"
  "acts_of t (tr @ tr') = acts_of t tr @ acts_of t tr'"
  by (simp_all add: acts_of_def)

definition loop_inv :: "'t \<Rightarrow> u64 \<Rightarrow> nat \<Rightarrow> 't cas_sys \<Rightarrow> bool" where
  "loop_inv t c0 n s \<longleftrightarrow> cas_counter s \<le> c0 \<and>
     (case cas_pcs s t of Outside \<Rightarrow> n = 0 | Observed c \<Rightarrow> cas_counter s \<le> c \<and> n + unat c \<le> Suc (unat c0))"

lemma pred_le: "c \<noteq> 0 \<Longrightarrow> c - 1 \<le> (c :: u64)"
  by (simp add: word_le_nat_alt unat_pred)

lemma loop_inv_step:
  assumes "cas_step u a s s'" "loop_inv t c0 n s" "u = t \<Longrightarrow> a \<notin> {Exhausted, Exchanged}"
  shows "loop_inv t c0 (n + (if u = t \<and> a \<noteq> Spurious then 1 else 0)) s'"
  using assms(1)
proof cases
  case load
  with assms(2) show ?thesis by (auto simp: loop_inv_def word_le_nat_alt split: cas_pc.splits)
next
  case exhausted
  with assms(2,3) show ?thesis by (auto simp: loop_inv_def split: cas_pc.splits)
next
  case (exchanged c)
  with assms(2,3) pred_le[of c] show ?thesis by (auto simp: loop_inv_def split: cas_pc.splits)
next
  case (lost c)
  then have "cas_counter s \<le> c \<Longrightarrow> unat (cas_counter s) < unat c" by (simp add: word_le_nat_alt unat_arith_simps(3))
  with lost assms(2) show ?thesis by (auto simp: loop_inv_def split: cas_pc.splits)
next
  case spurious
  with assms(2) show ?thesis by (auto simp: loop_inv_def split: cas_pc.splits)
qed

lemma loop_inv_run:
  assumes "cas_run s tr s'" "cas_pcs s t = Outside" "\<forall>a \<in> set (acts_of t tr). a \<notin> {Exhausted, Exchanged}"
  shows "loop_inv t (cas_counter s) (length (filter (\<lambda>a. a \<noteq> Spurious) (acts_of t tr))) s'"
  using assms(1,3)
proof induction
  case idle
  with assms(2) show ?case by (simp add: loop_inv_def)
next
  case (run tr s1 u a s2)
  then have "loop_inv t (cas_counter s) (length (filter (\<lambda>a. a \<noteq> Spurious) (acts_of t tr))) s1" by simp
  from loop_inv_step[OF run.hyps(2) this] run.prems show ?case by (auto split: if_splits)
qed

lemma alone_run:
  assumes "cas_run s tr s'" "cas_pcs s t = Outside" "\<forall>a \<in> set (acts_of t tr). a \<notin> {Exhausted, Exchanged}"
    "\<forall>x \<in> set tr. fst x = t"
  shows "(case cas_pcs s' t of
      Outside \<Rightarrow> filter (\<lambda>a. a \<noteq> Spurious) (acts_of t tr) = []
    | Observed c \<Rightarrow> cas_counter s' = c \<and> filter (\<lambda>a. a \<noteq> Spurious) (acts_of t tr) = [Load])"
  using assms(1,3,4)
proof induction
  case idle
  with assms(2) show ?case by simp
next
  case (run tr s1 u a s2)
  then have "u = t" "case cas_pcs s1 t of
      Outside \<Rightarrow> filter (\<lambda>a. a \<noteq> Spurious) (acts_of t tr) = []
    | Observed c \<Rightarrow> cas_counter s1 = c \<and> filter (\<lambda>a. a \<noteq> Spurious) (acts_of t tr) = [Load]"
    by simp_all
  with run.hyps(2) run.prems(1) show ?case
    by (auto elim!: cas_stepE split: cas_pc.splits)
qed

lemma cas_progress: "\<exists>a s2. cas_step t a s s2 \<and> a \<noteq> Spurious"
proof (cases "cas_pcs s t")
  case Outside
  from cas_step.load[of s t, OF this] show ?thesis by blast
next
  case (Observed c)
  consider "c = 0" | "c \<noteq> 0" "cas_counter s = c" | "c \<noteq> 0" "cas_counter s \<noteq> c" by blast
  then show ?thesis
    using cas_step.exhausted[of s t c, OF Observed] cas_step.exchanged[of s t c, OF Observed]
      cas_step.lost[of s t c, OF Observed]
    by cases blast+
qed

lemma spurious_idle: "cas_step t Spurious s s' \<Longrightarrow> s' = s"
  by (auto elim!: cas_stepE intro!: cas_sys.equality)

lemma return_is_atomic:
  assumes "cas_step t a s s'" "a \<in> {Exhausted, Exchanged}" "loop_inv t c0 n s"
  shows "cas_returned s' = (t, fst (spend_one (cas_counter s))) # cas_returned s"
    "cas_counter s' = snd (spend_one (cas_counter s))" "cas_pcs s' t = Outside"
  using assms by (auto elim!: cas_stepE simp: loop_inv_def spend_one_def)

text \<open>C36: the compare-exchange loop ends, whatever the other threads do. In every interleaving a
  thread that has entered the call and not returned has made, spurious failures of the exchange
  apart, at most one step more than the counter was worth when it entered; it is never stuck,
  since a step that is no spurious failure is open to it; a spurious failure changes nothing;
  and when it returns, its result and its effect are those of the atomic operation \<open>spend_one\<close> on
  the counter of that moment. So a call that fails spuriously \<open>k\<close> times returns after at most
  \<open>k + 2\<close> steps plus the value of the counter, and after two when it runs alone without failure.\<close>

theorem spend_loop_terminates:
  assumes "cas_run s tr s'" "cas_pcs s t = Outside" "\<forall>a \<in> set (acts_of t tr). a \<notin> {Exhausted, Exchanged}"
  shows "length (filter (\<lambda>a. a \<noteq> Spurious) (acts_of t tr)) \<le> 1 + unat (cas_counter s) \<and>
    ((\<forall>x \<in> set tr. fst x = t) \<longrightarrow> length (filter (\<lambda>a. a \<noteq> Spurious) (acts_of t tr)) \<le> 1) \<and>
    (\<exists>a s2. cas_step t a s' s2 \<and> a \<noteq> Spurious) \<and>
    (\<forall>s2. cas_step t Spurious s' s2 \<longrightarrow> s2 = s') \<and>
    (\<forall>a s2. cas_step t a s' s2 \<and> a \<in> {Exhausted, Exchanged} \<longrightarrow>
       cas_returned s2 = (t, fst (spend_one (cas_counter s'))) # cas_returned s' \<and>
       cas_counter s2 = snd (spend_one (cas_counter s')) \<and> cas_pcs s2 t = Outside)"
proof -
  let ?n = "length (filter (\<lambda>a. a \<noteq> Spurious) (acts_of t tr))"
  have inv: "loop_inv t (cas_counter s) ?n s'" by (rule loop_inv_run[OF assms])
  then have bound: "?n \<le> 1 + unat (cas_counter s)" by (auto simp: loop_inv_def split: cas_pc.splits)
  have alone: "?n \<le> 1" if "\<forall>x \<in> set tr. fst x = t"
    using alone_run[OF assms that] by (cases "cas_pcs s' t") simp_all
  from bound alone show ?thesis
    by (intro conjI allI impI cas_progress) (auto dest: spurious_idle return_is_atomic[OF _ _ inv])
qed

theorem spend_loop_terminates_witness:
  "length (filter (\<lambda>a. a \<noteq> Spurious) (acts_of True [(True, Load), (False, Load), (False, Exchanged), (True, Lost)])) \<le> 2 \<and>
   (\<exists>s2. cas_step True Exhausted
       \<lparr>cas_counter = 0, cas_pcs = (\<lambda>_. Outside)(True := Observed 0), cas_returned = [(False, Some 0)]\<rparr> s2 \<and>
     cas_returned s2 = [(True, None), (False, Some 0)])"
proof -
  let ?s = "\<lparr>cas_counter = 0, cas_pcs = (\<lambda>_. Outside)(True := Observed 0), cas_returned = [(False, Some (0 :: u64))]\<rparr>"
  have o: "cas_pcs (cas_init 1) True = Outside" by (simp add: cas_init_def)
  have a: "\<forall>a \<in> set (acts_of True [(True, Load), (False, Load), (False, Exchanged), (True, Lost)]). a \<notin> {Exhausted, Exchanged}"
    by simp
  have q: "cas_counter (cas_init 1 :: bool cas_sys) = 1" by (simp add: cas_init_def)
  have "cas_pcs ?s True = Observed 0" by simp
  from cas_step.exhausted[OF this refl] obtain s2 where e: "cas_step True Exhausted ?s s2" by (rule that)
  note r = spend_loop_terminates[OF two_threads_race o a]
  have "cas_returned s2 = (True, fst (spend_one (cas_counter ?s))) # cas_returned ?s"
    by (rule r[THEN conjunct2, THEN conjunct2, THEN conjunct2, THEN conjunct2, rule_format, THEN conjunct1, of Exhausted])
      (use e in simp)
  with e r[THEN conjunct1] show ?thesis unfolding q by (auto simp: spend_one_def)
qed

end
