(* ===== verification/Session.thy ===== *)
theory Session
  imports Quota
begin

text \<open>
  Paid sessions (src/session.rs): HMAC-authenticated tokens and the in-process store with its
  sessions, its replay cache and its sweep. The Redis store is in its own theory.

  HMAC-SHA256 and the hex codec are crates, so they are fields of \<open>crypto\<close>, an argument of the
  definitions; \<open>hex_laws\<close> is what the code relies on of the codec. The random bytes of a session
  id and the clock are arguments too, as in the source's \<open>_at\<close> functions.

  First the token codec with its round trip and its exact acceptance condition; then the
  store, its quota accounting over arbitrary histories, and the replay cache as an instance of
  the locale \<open>replay_cache\<close>.
\<close>

section \<open>Token codec\<close>

record crypto =
  hmac_sha256 :: "bytes \<Rightarrow> bytes \<Rightarrow> bytes"
  hex_encode :: "bytes \<Rightarrow> string"
  hex_decode :: "string \<Rightarrow> bytes option"

definition is_hex_lower :: "char \<Rightarrow> bool" where
  "is_hex_lower c \<longleftrightarrow> is_digit c \<or> (97 :: nat) \<le> of_char c \<and> of_char c \<le> (102 :: nat)"

definition hex_laws :: "crypto \<Rightarrow> bool" where
  "hex_laws C \<longleftrightarrow>
     (\<forall>b. hex_decode C (hex_encode C b) = Some b) \<and> (\<forall>b. list_all is_hex_lower (hex_encode C b))"

datatype SessionRejection =
  Malformed | Expired | Unknown | WrongPolicy | QuotaExhausted | Backend

record TokenClaims =
  claim_payer :: string
  claim_expires_at :: u64
  claim_session_id :: string

record TokenCodec =
  hmac_key :: bytes

definition codec_new :: "bytes \<Rightarrow> TokenCodec" where
  "codec_new k = \<lparr>hmac_key = k\<rparr>"

definition mac :: "crypto \<Rightarrow> TokenCodec \<Rightarrow> string \<Rightarrow> bytes" where
  "mac C codec signed_part = hmac_sha256 C (hmac_key codec) signed_part"

definition signed_part :: "string \<Rightarrow> string \<Rightarrow> string \<Rightarrow> string" where
  "signed_part payer expires session_id = payer @ '':'' @ expires @ '':'' @ session_id"

definition mint :: "crypto \<Rightarrow> TokenCodec \<Rightarrow> string \<Rightarrow> u64 \<Rightarrow> string \<Rightarrow> string" where
  "mint C codec payer expires_at session_id =
     (let signed = signed_part payer (show_u64 expires_at) session_id in
      signed @ '':'' @ hex_encode C (mac C codec signed))"

definition verify :: "crypto \<Rightarrow> TokenCodec \<Rightarrow> string \<Rightarrow> u64 \<Rightarrow> SessionRejection + TokenClaims" where
  "verify C codec token now =
     (case split_on CHR '':'' (trim token) of
        [payer, expires_raw, session_id, mac_hex] \<Rightarrow>
          (case hex_decode C mac_hex of
             None \<Rightarrow> Inl Malformed
           | Some presented \<Rightarrow>
               if presented \<noteq> mac C codec (signed_part payer expires_raw session_id) then Inl Malformed
               else (case parse_u64 expires_raw of
                 None \<Rightarrow> Inl Malformed
               | Some expires_at \<Rightarrow>
                   if now \<ge> expires_at then Inl Expired
                   else Inr \<lparr>claim_payer = payer, claim_expires_at = expires_at,
                          claim_session_id = session_id\<rparr>))
      | _ \<Rightarrow> Inl Malformed)"

text \<open>\<open>hex::encode\<close> of sixteen random bytes.\<close>

definition new_session_id :: "crypto \<Rightarrow> bytes \<Rightarrow> string" where
  "new_session_id C raw = hex_encode C raw"

section \<open>The in-process store\<close>

record Session =
  ses_payer :: string
  ses_policy :: "string option"
  ses_expires_at :: u64
  ses_quota :: u64
  quota_remaining :: u64

datatype SessionOutcome =
    Accepted (oc_payer: string) (oc_remaining: u64) (oc_quota: u64) (oc_expires_at: u64)
  | Rejected SessionRejection

datatype PaymentClaim = Fresh | Replay u64 | Backend

record MemorySessionStore =
  sessions :: "string \<rightharpoonup> Session"
  seen_payments :: "string \<rightharpoonup> u64"
  codec :: TokenCodec
  replay_retention_secs :: u64

definition store_new :: "bytes \<Rightarrow> u64 \<Rightarrow> MemorySessionStore" where
  "store_new key retention =
     \<lparr>sessions = Map.empty, seen_payments = Map.empty, codec = codec_new key,
      replay_retention_secs = retention\<rparr>"

definition store_len :: "MemorySessionStore \<Rightarrow> nat" where
  "store_len s = card (dom (sessions s))"

definition create_session_at ::
  "crypto \<Rightarrow> bytes \<Rightarrow> MemorySessionStore \<Rightarrow> string \<Rightarrow> string option \<Rightarrow> u64 \<Rightarrow> u64 \<Rightarrow> u64
    \<Rightarrow> string \<times> MemorySessionStore" where
  "create_session_at C raw s payer policy quota ttl_secs now =
     (let session_id = new_session_id C raw;
          expires_at = sat_add now ttl_secs in
      (mint C (codec s) payer expires_at session_id,
       s\<lparr>sessions := (sessions s)(session_id \<mapsto>
           \<lparr>ses_payer = payer, ses_policy = policy, ses_expires_at = expires_at,
            ses_quota = quota, quota_remaining = quota\<rparr>)\<rparr>))"

definition consume_at ::
  "crypto \<Rightarrow> MemorySessionStore \<Rightarrow> string \<Rightarrow> string option \<Rightarrow> u64
    \<Rightarrow> SessionOutcome \<times> MemorySessionStore" where
  "consume_at C s token policy now =
     (case verify C (codec s) token now of
        Inl rejection \<Rightarrow> (Rejected rejection, s)
      | Inr claims \<Rightarrow>
          (case sessions s (claim_session_id claims) of
             None \<Rightarrow> (Rejected Unknown, s)
           | Some session \<Rightarrow>
               if now \<ge> ses_expires_at session then (Rejected Expired, s)
               else if ses_policy session \<noteq> policy then (Rejected WrongPolicy, s)
               else (case spend_one (quota_remaining session) of
                 (Some remaining, c) \<Rightarrow>
                   (Accepted (ses_payer session) remaining (ses_quota session) (ses_expires_at session),
                    s\<lparr>sessions := (sessions s)(claim_session_id claims \<mapsto>
                        session\<lparr>quota_remaining := c\<rparr>)\<rparr>)
               | (None, c) \<Rightarrow> (Rejected QuotaExhausted, s))))"

definition claim_payment_at ::
  "MemorySessionStore \<Rightarrow> string \<Rightarrow> u64 \<Rightarrow> u64 \<Rightarrow> PaymentClaim \<times> MemorySessionStore" where
  "claim_payment_at s payment_id ttl_secs now =
     (case seen_payments s payment_id of
        Some first_seen \<Rightarrow>
          if sat_sub now first_seen \<ge> ttl_secs
          then (Fresh, s\<lparr>seen_payments := (seen_payments s)(payment_id \<mapsto> now)\<rparr>)
          else (Replay first_seen, s)
      | None \<Rightarrow> (Fresh, s\<lparr>seen_payments := (seen_payments s)(payment_id \<mapsto> now)\<rparr>))"

definition release_payment :: "MemorySessionStore \<Rightarrow> string \<Rightarrow> MemorySessionStore" where
  "release_payment s payment_id = s\<lparr>seen_payments := (seen_payments s)(payment_id := None)\<rparr>"

text \<open>\<open>DashMap::retain\<close>.\<close>

definition retain :: "('k \<Rightarrow> 'v \<Rightarrow> bool) \<Rightarrow> ('k \<rightharpoonup> 'v) \<Rightarrow> ('k \<rightharpoonup> 'v)" where
  "retain P m = (\<lambda>k. case m k of None \<Rightarrow> None | Some v \<Rightarrow> if P k v then Some v else None)"

definition cleanup_expired_at :: "MemorySessionStore \<Rightarrow> u64 \<Rightarrow> nat \<times> MemorySessionStore" where
  "cleanup_expired_at s now =
     (let before = store_len s;
          s1 = s\<lparr>sessions := retain (\<lambda>_ ses. now < ses_expires_at ses) (sessions s)\<rparr>;
          reaped = before - store_len s1 in
      (reaped, s1\<lparr>seen_payments :=
         retain (\<lambda>_ first_seen. sat_sub now first_seen < replay_retention_secs s1) (seen_payments s1)\<rparr>))"

section \<open>Facts on the codec\<close>

lemma is_hex_lower_graphic: "is_hex_lower c \<Longrightarrow> graphic c \<and> c \<noteq> CHR '':''"
  by (auto simp: is_hex_lower_def is_digit_def graphic_def)

lemma hex_encode_chars: "hex_laws C \<Longrightarrow> c \<in> set (hex_encode C b) \<Longrightarrow> graphic c \<and> c \<noteq> CHR '':''"
  by (auto simp: hex_laws_def list_all_iff dest!: is_hex_lower_graphic)

lemma hex_decode_encode: "hex_laws C \<Longrightarrow> hex_decode C (hex_encode C b) = Some b"
  by (simp add: hex_laws_def)

text \<open>A field of a token: graphic ASCII without the delimiter.\<close>

definition token_field :: "string \<Rightarrow> bool" where
  "token_field s \<longleftrightarrow> (\<forall>c \<in> set s. graphic c \<and> c \<noteq> CHR '':'')"

lemma token_field_show_nat [simp]: "token_field (show_nat n)"
  by (auto simp: token_field_def is_digit_def dest: show_nat_is_digit)

lemma token_field_hex [simp]: "hex_laws C \<Longrightarrow> token_field (hex_encode C b)"
  by (auto simp: token_field_def hex_encode_chars)

lemma split_four_fields:
  assumes "token_field a" "token_field b" "token_field c" "token_field d"
  shows "split_on CHR '':'' (trim (a @ '':'' @ b @ '':'' @ c @ '':'' @ d)) = [a, b, c, d]"
proof -
  have "CHR '':'' \<notin> set a" "CHR '':'' \<notin> set b" "CHR '':'' \<notin> set c" "CHR '':'' \<notin> set d"
    using assms by (auto simp: token_field_def)
  moreover have "graphic CHR '':''" by (simp add: graphic_def)
  then have "\<forall>x \<in> set (a @ '':'' @ b @ '':'' @ c @ '':'' @ d). graphic x"
    using assms by (auto simp: token_field_def)
  ultimately show ?thesis by simp
qed

lemma verify_Inr_iff:
  "verify C cd token now = Inr claims \<longleftrightarrow>
   (\<exists>raw mac_hex. split_on CHR '':'' (trim token) =
        [claim_payer claims, raw, claim_session_id claims, mac_hex] \<and>
      hex_decode C mac_hex =
        Some (mac C cd (signed_part (claim_payer claims) raw (claim_session_id claims))) \<and>
      parse_u64 raw = Some (claim_expires_at claims) \<and> now < claim_expires_at claims)"
  by (cases claims) (auto simp: verify_def not_le split: list.splits option.splits if_splits)

lemma verify_mint:
  assumes "hex_laws C" "token_field payer" "token_field sid"
  shows "verify C cd (mint C cd payer expires sid) now =
    (if now < expires
     then Inr \<lparr>claim_payer = payer, claim_expires_at = expires, claim_session_id = sid\<rparr>
     else Inl Expired)"
proof -
  let ?mac = "hex_encode C (mac C cd (signed_part payer (show_u64 expires) sid))"
  have "split_on CHR '':'' (trim (mint C cd payer expires sid)) = [payer, show_u64 expires, sid, ?mac]"
    using split_four_fields[of payer "show_u64 expires" sid ?mac] assms
    by (simp add: mint_def signed_part_def Let_def)
  with assms show ?thesis by (auto simp: verify_def hex_decode_encode)
qed

lemma signed_part_inj:
  assumes "CHR '':'' \<notin> set p" "CHR '':'' \<notin> set r" "CHR '':'' \<notin> set i"
    "CHR '':'' \<notin> set p'" "CHR '':'' \<notin> set r'" "CHR '':'' \<notin> set i'"
    and "signed_part p r i = signed_part p' r' i'"
  shows "p = p' \<and> r = r' \<and> i = i'"
proof -
  have "split_on CHR '':'' (signed_part p r i) = [p, r, i]"
    using assms(1-3) by (simp add: signed_part_def)
  moreover have "split_on CHR '':'' (signed_part p' r' i') = [p', r', i']"
    using assms(4-6) by (simp add: signed_part_def)
  ultimately show ?thesis using assms(7) by (metis list.inject)
qed

section \<open>Facts on the store\<close>

lemma retain_Some_iff [simp]: "retain P m k = Some v \<longleftrightarrow> m k = Some v \<and> P k v"
  by (auto simp: retain_def split: option.splits)

lemma retain_None_iff: "retain P m k = None \<longleftrightarrow> (\<forall>v. m k = Some v \<longrightarrow> \<not> P k v)"
  by (auto simp: retain_def split: option.splits)

lemma consume_Accepted_iff:
  "(\<exists>s'. consume_at C s token policy now = (Accepted payer rem quota expires, s')) \<longleftrightarrow>
   (\<exists>claims ses. verify C (codec s) token now = Inr claims \<and>
      sessions s (claim_session_id claims) = Some ses \<and> now < ses_expires_at ses \<and>
      ses_policy ses = policy \<and> quota_remaining ses \<noteq> 0 \<and> rem = quota_remaining ses - 1 \<and>
      payer = ses_payer ses \<and> quota = ses_quota ses \<and> expires = ses_expires_at ses)"
  by (auto simp: consume_at_def spend_one_def not_le split: sum.splits option.splits if_splits)

lemma consume_rejected_unchanged:
  "consume_at C s token policy now = (Rejected r, s') \<Longrightarrow> s' = s"
  by (auto simp: consume_at_def spend_one_def split: sum.splits option.splits if_splits)

lemma consume_accepted_effect:
  assumes "consume_at C s token policy now = (Accepted payer rem quota expires, s')"
    and "verify C (codec s) token now = Inr claims"
  shows "\<exists>ses. sessions s (claim_session_id claims) = Some ses \<and>
    unat (quota_remaining ses) = Suc (unat rem) \<and>
    s' = s\<lparr>sessions := (sessions s)(claim_session_id claims \<mapsto> ses\<lparr>quota_remaining := rem\<rparr>)\<rparr>"
proof -
  from assms obtain ses where "sessions s (claim_session_id claims) = Some ses"
    "quota_remaining ses \<noteq> 0" "rem = quota_remaining ses - 1"
    "s' = s\<lparr>sessions := (sessions s)(claim_session_id claims \<mapsto> ses\<lparr>quota_remaining := rem\<rparr>)\<rparr>"
    by (auto simp: consume_at_def spend_one_def split: option.splits if_splits)
  moreover from this have "unat (quota_remaining ses) = Suc (unat rem)"
    by (simp add: unat_pred unat_gt_0)
  ultimately show ?thesis by blast
qed

lemma consume_accepted_verified:
  "consume_at C s token policy now = (Accepted payer rem quota expires, s') \<Longrightarrow>
   \<exists>claims. verify C (codec s) token now = Inr claims"
  by (auto simp: consume_at_def split: sum.splits)

lemma consume_keeps [simp]:
  "codec (snd (consume_at C s token policy now)) = codec s"
  "seen_payments (snd (consume_at C s token policy now)) = seen_payments s"
  "replay_retention_secs (snd (consume_at C s token policy now)) = replay_retention_secs s"
  by (auto simp: consume_at_def spend_one_def split: sum.splits option.splits if_splits)

lemma claim_keeps [simp]:
  "codec (snd (claim_payment_at s i ttl now)) = codec s"
  "sessions (snd (claim_payment_at s i ttl now)) = sessions s"
  "replay_retention_secs (snd (claim_payment_at s i ttl now)) = replay_retention_secs s"
  by (auto simp: claim_payment_at_def split: option.splits)

lemma release_keeps [simp]:
  "codec (release_payment s i) = codec s" "sessions (release_payment s i) = sessions s"
  "seen_payments (release_payment s i) = (seen_payments s)(i := None)"
  by (simp_all add: release_payment_def)

lemma create_keeps [simp]:
  "codec (snd (create_session_at C raw s payer policy q ttl now)) = codec s"
  "seen_payments (snd (create_session_at C raw s payer policy q ttl now)) = seen_payments s"
  by (simp_all add: create_session_at_def Let_def)

lemma cleanup_keeps [simp]:
  "codec (snd (cleanup_expired_at s now)) = codec s"
  "sessions (snd (cleanup_expired_at s now)) = retain (\<lambda>_ ses. now < ses_expires_at ses) (sessions s)"
  "seen_payments (snd (cleanup_expired_at s now)) =
     retain (\<lambda>_ t. sat_sub now t < replay_retention_secs s) (seen_payments s)"
  by (simp_all add: cleanup_expired_at_def Let_def)

section \<open>Quota accounting over histories\<close>

datatype store_event =
    Create bytes string "string option" u64 u64 u64
  | Consume string "string option" u64
  | Claim string u64 u64
  | Release string
  | Cleanup u64

fun store_step :: "crypto \<Rightarrow> MemorySessionStore \<Rightarrow> store_event \<Rightarrow> MemorySessionStore" where
  "store_step C s (Create raw payer policy q ttl now) = snd (create_session_at C raw s payer policy q ttl now)"
| "store_step C s (Consume token policy now) = snd (consume_at C s token policy now)"
| "store_step C s (Claim i ttl now) = snd (claim_payment_at s i ttl now)"
| "store_step C s (Release i) = release_payment s i"
| "store_step C s (Cleanup now) = snd (cleanup_expired_at s now)"

text \<open>Whether an event, run on a store, is answered by spending one request of session \<open>sid\<close>.\<close>

fun spends :: "crypto \<Rightarrow> string \<Rightarrow> MemorySessionStore \<Rightarrow> store_event \<Rightarrow> bool" where
  "spends C sid s (Consume token policy now) =
     (case (fst (consume_at C s token policy now), verify C (codec s) token now) of
        (Accepted _ _ _ _, Inr claims) \<Rightarrow> claim_session_id claims = sid
      | _ \<Rightarrow> False)"
| "spends C sid s _ = False"

fun grants :: "crypto \<Rightarrow> string \<Rightarrow> MemorySessionStore \<Rightarrow> store_event list \<Rightarrow> nat" where
  "grants C sid s [] = 0"
| "grants C sid s (e # es) = (if spends C sid s e then 1 else 0) + grants C sid (store_step C s e) es"

fun creates :: "crypto \<Rightarrow> string \<Rightarrow> store_event \<Rightarrow> bool" where
  "creates C sid (Create raw payer policy q ttl now) = (new_session_id C raw = sid)"
| "creates C sid _ = False"

definition remaining_of :: "string \<Rightarrow> MemorySessionStore \<Rightarrow> nat" where
  "remaining_of sid s = (case sessions s sid of None \<Rightarrow> 0 | Some ses \<Rightarrow> unat (quota_remaining ses))"

text \<open>One event: what session \<open>sid\<close> still has only shrinks, by one exactly when it is spent.\<close>

lemma consume_accounting:
  "(if spends C sid s (Consume token policy now) then 1 else 0)
     + remaining_of sid (snd (consume_at C s token policy now)) = remaining_of sid s"
proof (cases "consume_at C s token policy now")
  case (Pair out s')
  show ?thesis
  proof (cases out)
    case (Rejected r)
    with Pair consume_rejected_unchanged[of C s token policy now r s'] show ?thesis by simp
  next
    case (Accepted payer rem q ex)
    with Pair obtain claims where v: "verify C (codec s) token now = Inr claims"
      by (meson consume_accepted_verified)
    from consume_accepted_effect[OF _ v] Pair Accepted
    obtain ses where "sessions s (claim_session_id claims) = Some ses"
      "unat (quota_remaining ses) = Suc (unat rem)"
      "s' = s\<lparr>sessions := (sessions s)(claim_session_id claims \<mapsto> ses\<lparr>quota_remaining := rem\<rparr>)\<rparr>"
      by blast
    with Pair Accepted v show ?thesis by (auto simp: remaining_of_def)
  qed
qed

lemma retain_remaining:
  fixes s :: MemorySessionStore
  shows "remaining_of sid (s\<lparr>sessions := retain P (sessions s)\<rparr>) \<le> remaining_of sid s"
  by (auto simp: remaining_of_def retain_def split: option.splits)

lemma step_accounting:
  assumes "\<not> creates C sid e"
  shows "(if spends C sid s e then 1 else 0) + remaining_of sid (store_step C s e) \<le> remaining_of sid s"
proof (cases e)
  case (Consume token policy now)
  with consume_accounting[of C sid s token policy now] show ?thesis by simp
next
  case (Cleanup now)
  with retain_remaining[of sid "\<lambda>_ ses. now < ses_expires_at ses" s] show ?thesis
    by (simp add: remaining_of_def)
qed (use assms in \<open>auto simp: remaining_of_def create_session_at_def Let_def\<close>)

lemma grants_bounded:
  "\<forall>e \<in> set es. \<not> creates C sid e \<Longrightarrow>
   grants C sid s es + remaining_of sid (foldl (store_step C) s es) \<le> remaining_of sid s"
proof (induction es arbitrary: s)
  case (Cons e es)
  then have "grants C sid (store_step C s e) es + remaining_of sid (foldl (store_step C) (store_step C s e) es)
      \<le> remaining_of sid (store_step C s e)" by simp
  with step_accounting[of C sid e s] Cons.prems show ?case by simp
qed simp

lemma remaining_of_create:
  "remaining_of (new_session_id C raw) (snd (create_session_at C raw s payer policy q ttl now)) = unat q"
  by (simp add: remaining_of_def create_session_at_def Let_def)

section \<open>The replay cache\<close>

text \<open>
  What a gateway needs of a replay cache whose claims last \<open>ttl\<close> seconds: \<open>held s i now\<close> is the
  time of the claim that blocks payment \<open>i\<close> at time \<open>now\<close>, if there is one.
\<close>

locale replay_cache =
  fixes claim :: "'s \<Rightarrow> string \<Rightarrow> u64 \<Rightarrow> PaymentClaim \<times> 's"
    and release :: "'s \<Rightarrow> string \<Rightarrow> 's"
    and held :: "'s \<Rightarrow> string \<Rightarrow> u64 \<Rightarrow> u64 option"
    and ttl :: u64
  assumes fresh_holds: "fst (claim s i now) = Fresh \<Longrightarrow> now \<le> n \<Longrightarrow> sat_sub n now < ttl \<Longrightarrow>
      held (snd (claim s i now)) i n = Some now"
    and held_not_fresh: "held s i now = Some t \<Longrightarrow> fst (claim s i now) \<noteq> Fresh"
    and free_not_replay: "held s i now = None \<Longrightarrow> fst (claim s i now) \<noteq> Replay t"
    and not_fresh_keeps: "fst (claim s i now) \<noteq> Fresh \<Longrightarrow> held (snd (claim s i now)) i n = held s i n"
    and claim_frame: "j \<noteq> i \<Longrightarrow> held (snd (claim s j now)) i n = held s i n"
    and release_frees: "held (release s i) i n = None"
    and release_frame: "j \<noteq> i \<Longrightarrow> held (release s j) i n = held s i n"
begin

definition blocks :: "'s \<Rightarrow> string \<Rightarrow> u64 \<Rightarrow> bool" where
  "blocks s i t \<longleftrightarrow> (\<forall>n. t \<le> n \<longrightarrow> sat_sub n t < ttl \<longrightarrow> held s i n = Some t)"

lemma blocks_step: "blocks s i t \<Longrightarrow> t \<le> now \<Longrightarrow> sat_sub now t < ttl \<Longrightarrow> blocks (snd (claim s j now)) i t"
  unfolding blocks_def by (metis claim_frame held_not_fresh not_fresh_keeps)

text \<open>
  A list of claims, each for a payment at a time, and its replies: once \<open>i\<close> was granted, no
  other claim of \<open>i\<close> in the next \<open>ttl\<close> seconds is, whatever else is claimed in between.
\<close>

lemma blocked_no_fresh:
  "blocks s i t \<Longrightarrow> \<forall>(j, now) \<in> set es. t \<le> now \<and> sat_sub now t < ttl \<Longrightarrow>
   ((i, now), Fresh) \<notin> set (zip es (replies (\<lambda>s (j, now). claim s j now) s es))"
proof (induction es arbitrary: s)
  case (Cons e es)
  obtain j now where e: "e = (j, now)" by (cases e)
  with Cons.prems have "t \<le> now" "sat_sub now t < ttl" "blocks (snd (claim s j now)) i t"
    by (auto intro: blocks_step)
  moreover from this Cons.prems(1) have "held s i now = Some t" by (simp add: blocks_def)
  ultimately show ?case using Cons e by (auto dest: held_not_fresh)
qed simp

lemma single_use:
  assumes "fst (claim s i t) = Fresh"
    and "\<forall>(j, now) \<in> set es. t \<le> now \<and> sat_sub now t < ttl"
  shows "((i, now), Fresh) \<notin>
    set (zip es (replies (\<lambda>s (j, now). claim s j now) (snd (claim s i t)) es))"
proof -
  have "blocks (snd (claim s i t)) i t" using assms(1) by (simp add: blocks_def fresh_holds)
  then show ?thesis using assms(2) by (rule blocked_no_fresh)
qed

lemma released_is_free: "fst (claim (release s i) i now) \<noteq> Replay t"
  by (simp add: free_not_replay release_frees)

end

definition mem_held :: "u64 \<Rightarrow> MemorySessionStore \<Rightarrow> string \<Rightarrow> u64 \<Rightarrow> u64 option" where
  "mem_held ttl s i now =
     (case seen_payments s i of None \<Rightarrow> None | Some t \<Rightarrow> if sat_sub now t < ttl then Some t else None)"

interpretation mem: replay_cache "\<lambda>s i now. claim_payment_at s i ttl now" release_payment "mem_held ttl" ttl
  for ttl
  by unfold_locales
    (auto simp: claim_payment_at_def mem_held_def not_le split: option.splits if_splits)

section \<open>A concrete codec, for the witnesses\<close>

definition hex_digit :: "nat \<Rightarrow> char" where
  "hex_digit n = (if n < 10 then char_of (48 + n) else char_of (87 + n))"

definition hex_value :: "char \<Rightarrow> nat option" where
  "hex_value c = (let n = of_char c :: nat in
     if 48 \<le> n \<and> n \<le> 57 then Some (n - 48)
     else if 97 \<le> n \<and> n \<le> 102 then Some (n - 87)
     else if 65 \<le> n \<and> n \<le> 70 then Some (n - 55) else None)"

fun hex_enc :: "bytes \<Rightarrow> string" where
  "hex_enc [] = []"
| "hex_enc (c # cs) = hex_digit (of_char c div 16) # hex_digit (of_char c mod 16) # hex_enc cs"

fun hex_dec :: "string \<Rightarrow> bytes option" where
  "hex_dec [] = Some []"
| "hex_dec [c] = None"
| "hex_dec (c # d # cs) =
     (case (hex_value c, hex_value d, hex_dec cs) of
        (Some h, Some l, Some bs) \<Rightarrow> Some (char_of (16 * h + l) # bs)
      | _ \<Rightarrow> None)"

text \<open>A keyed injective function in the place of HMAC-SHA256.\<close>

definition demo_crypto :: crypto where
  "demo_crypto = \<lparr>hmac_sha256 = (\<lambda>k m. k @ m), hex_encode = hex_enc, hex_decode = hex_dec\<rparr>"

lemma hex_value_digit [simp]: "n < 16 \<Longrightarrow> hex_value (hex_digit n) = Some n"
  by (auto simp: hex_value_def hex_digit_def Let_def)

lemma is_hex_lower_digit: "n < 16 \<Longrightarrow> is_hex_lower (hex_digit n)"
  by (auto simp: is_hex_lower_def hex_digit_def is_digit_def)

lemma nibble: "of_char c div 16 < (16 :: nat)"
  using of_char_less_256[of c] by (intro less_mult_imp_div_less) simp

lemma hex_enc_lower: "list_all is_hex_lower (hex_enc b)"
proof (induction b)
  case (Cons c cs)
  then show ?case by (simp add: is_hex_lower_digit nibble)
qed simp

lemma hex_dec_enc: "hex_dec (hex_enc b) = Some b"
proof (induction b)
  case (Cons c cs)
  moreover have "16 * (of_char c div 16) + of_char c mod 16 = (of_char c :: nat)" by simp
  ultimately show ?case by (simp add: nibble)
qed simp

lemma demo_crypto_laws: "hex_laws demo_crypto"
  by (simp add: hex_laws_def demo_crypto_def hex_enc_lower hex_dec_enc)

section \<open>Properties\<close>

lemma consume_spends:
  assumes "verify C (codec s) token now = Inr claims" "sessions s (claim_session_id claims) = Some ses"
    "now < ses_expires_at ses"
  shows "consume_at C s token (ses_policy ses) now =
    (if quota_remaining ses = 0 then (Rejected QuotaExhausted, s)
     else (Accepted (ses_payer ses) (quota_remaining ses - 1) (ses_quota ses) (ses_expires_at ses),
       s\<lparr>sessions := (sessions s)(claim_session_id claims \<mapsto>
           ses\<lparr>quota_remaining := quota_remaining ses - 1\<rparr>)\<rparr>))"
  using assms by (simp add: consume_at_def spend_one_def not_le)

lemma consume_sequence:
  assumes "sessions s sid = Some ses" "ses_policy ses = policy"
    "\<forall>now \<in> set ts. now < ses_expires_at ses"
    "\<forall>now \<in> set ts. verify C (codec s) token now =
        Inr \<lparr>claim_payer = p, claim_expires_at = ex, claim_session_id = sid\<rparr>"
  shows "replies (\<lambda>s now. consume_at C s token policy now) s ts =
    map (\<lambda>k. if k < unat (quota_remaining ses)
        then Accepted (ses_payer ses) (quota_remaining ses - 1 - word_of_nat k) (ses_quota ses) (ses_expires_at ses)
        else Rejected QuotaExhausted) [0..<length ts]"
  using assms
proof (induction ts arbitrary: s ses)
  case (Cons now ts)
  let ?r = "quota_remaining ses"
  have step: "consume_at C s token policy now =
    (if ?r = 0 then (Rejected QuotaExhausted, s)
     else (Accepted (ses_payer ses) (?r - 1) (ses_quota ses) (ses_expires_at ses),
       s\<lparr>sessions := (sessions s)(sid \<mapsto> ses\<lparr>quota_remaining := ?r - 1\<rparr>)\<rparr>))"
    using Cons.prems consume_spends[of C s token now _ ses] by force
  have upt: "[0..<Suc (length ts)] = 0 # map Suc [0..<length ts]"
    by (simp add: upt_conv_Cons map_Suc_upt del: upt_Suc)
  show ?case
  proof (cases "?r = 0")
    case True
    with step Cons.IH[of s ses] Cons.prems show ?thesis by (simp add: upt o_def del: upt_Suc)
  next
    case False
    let ?ses = "ses\<lparr>quota_remaining := ?r - 1\<rparr>"
    let ?s = "s\<lparr>sessions := (sessions s)(sid \<mapsto> ?ses)\<rparr>"
    have "replies (\<lambda>s now. consume_at C s token policy now) ?s ts =
      map (\<lambda>k. if k < unat (?r - 1)
        then Accepted (ses_payer ses) (?r - 1 - 1 - word_of_nat k) (ses_quota ses) (ses_expires_at ses)
        else Rejected QuotaExhausted) [0..<length ts]"
      using Cons.IH[of ?s ?ses] Cons.prems by simp
    moreover have "k < unat (?r - 1) \<longleftrightarrow> Suc k < unat ?r" for k
      using False by (auto simp: unat_pred)
    ultimately show ?thesis
      using step False by (simp add: upt o_def unat_gt_0 algebra_simps del: upt_Suc)
  qed
qed simp

text \<open>C9: a freshly created session is worth exactly its quota. Presenting the issued token under
  the policy it was bought for, at any times before its deadline, is accepted \<open>quota\<close> times
  with the remaining count going down to zero, the payer, quota and deadline reported each
  time, and refused as exhausted from then on.\<close>

theorem issued_session_grants_exactly_its_quota:
  assumes "hex_laws C" "token_field payer"
    and created: "create_session_at C raw s payer policy quota ttl now = (token, s')"
    and live: "\<forall>t \<in> set ts. t < sat_add now ttl"
  shows "replies (\<lambda>s t. consume_at C s token policy t) s' ts =
    map (\<lambda>k. if k < unat quota
        then Accepted payer (quota - 1 - word_of_nat k) quota (sat_add now ttl)
        else Rejected QuotaExhausted) [0..<length ts]"
proof -
  let ?sid = "new_session_id C raw" and ?ex = "sat_add now ttl"
  let ?ses = "\<lparr>ses_payer = payer, ses_policy = policy, ses_expires_at = ?ex,
      ses_quota = quota, quota_remaining = quota\<rparr>"
  from created have t: "token = mint C (codec s) payer ?ex ?sid" and c: "codec s' = codec s"
    and ses: "sessions s' ?sid = Some ?ses"
    by (auto simp: create_session_at_def Let_def)
  have "token_field ?sid" using assms(1) by (simp add: new_session_id_def)
  then have "\<forall>n \<in> set ts. verify C (codec s') token n =
      Inr \<lparr>claim_payer = payer, claim_expires_at = ?ex, claim_session_id = ?sid\<rparr>"
    using live assms(1,2) by (simp add: t c verify_mint)
  from consume_sequence[OF ses _ _ this] live show ?thesis by simp
qed

theorem issued_session_grants_exactly_its_quota_witness:
  "let (token, s) = create_session_at demo_crypto ''0123456789abcdef'' (store_new ''key'' 3600)
       ''0xa1'' (Some ''grpc'') 2 3600 1000
   in replies (\<lambda>s t. consume_at demo_crypto s token (Some ''grpc'') t) s [1000, 1500, 2000] =
        [Accepted ''0xa1'' 1 2 4600, Accepted ''0xa1'' 0 2 4600, Rejected QuotaExhausted]"
proof -
  obtain token s where c: "create_session_at demo_crypto ''0123456789abcdef'' (store_new ''key'' 3600)
       ''0xa1'' (Some ''grpc'') 2 3600 1000 = (token, s)" by fastforce
  have f: "token_field ''0xa1''" by (simp add: token_field_def graphic_def)
  have ex: "sat_add 1000 3600 = (4600 :: u64)" by (simp add: sat_add_def)
  then have l: "\<forall>t \<in> set [1000, 1500, 2000]. t < sat_add 1000 (3600 :: u64)" by simp
  show ?thesis
    using issued_session_grants_exactly_its_quota[OF demo_crypto_laws f c l]
    by (simp add: c ex upt_rec)
qed

text \<open>C22: an accepted token is authentic and in scope. Whatever string a client presents, it is
  accepted only if, trimmed, it is exactly four colon-separated fields whose last is the hex of
  the HMAC, under the store's key, of the first three; the session those fields name exists,
  is not past its own deadline, was bought for exactly the presented policy and has quota
  left; and the payer reported is the stored one, never one the client wrote.\<close>

theorem accepted_token_is_authentic:
  assumes "consume_at C s token policy now = (Accepted payer rem quota expires, s')"
  shows "\<exists>p raw sid mac_hex ses.
    split_on CHR '':'' (trim token) = [p, raw, sid, mac_hex] \<and>
    hex_decode C mac_hex =
      Some (hmac_sha256 C (hmac_key (codec s)) (p @ '':'' @ raw @ '':'' @ sid)) \<and>
    sessions s sid = Some ses \<and> now < ses_expires_at ses \<and> ses_policy ses = policy \<and>
    unat (quota_remaining ses) = Suc (unat rem) \<and> payer = ses_payer ses"
proof -
  from assms have "\<exists>s'. consume_at C s token policy now = (Accepted payer rem quota expires, s')" by blast
  then obtain claims ses where v: "verify C (codec s) token now = Inr claims"
    and ses: "sessions s (claim_session_id claims) = Some ses" "now < ses_expires_at ses"
      "ses_policy ses = policy" "payer = ses_payer ses"
      "quota_remaining ses \<noteq> 0" "rem = quota_remaining ses - 1"
    unfolding consume_Accepted_iff by blast
  from v obtain raw mac_hex where
    "split_on CHR '':'' (trim token) = [claim_payer claims, raw, claim_session_id claims, mac_hex]"
    "hex_decode C mac_hex =
        Some (mac C (codec s) (signed_part (claim_payer claims) raw (claim_session_id claims)))"
    unfolding verify_Inr_iff by blast
  moreover from ses have "unat (quota_remaining ses) = Suc (unat rem)" by (simp add: unat_pred unat_gt_0)
  ultimately show ?thesis using ses by (auto simp: mac_def signed_part_def)
qed

definition demo_store :: MemorySessionStore where
  "demo_store = snd (create_session_at demo_crypto ''id'' (store_new ''key'' 3600) ''0xa1'' None 2 3600 1000)"

definition demo_token :: string where
  "demo_token = fst (create_session_at demo_crypto ''id'' (store_new ''key'' 3600) ''0xa1'' None 2 3600 1000)"

lemma demo_accepted:
  "fst (consume_at demo_crypto demo_store demo_token None 1000) = Accepted ''0xa1'' 1 2 4600"
proof -
  have f: "token_field ''0xa1''" by (simp add: token_field_def graphic_def)
  have "token_field (new_session_id demo_crypto ''id'')"
    unfolding new_session_id_def by (rule token_field_hex[OF demo_crypto_laws])
  then show ?thesis
    using f by (simp add: demo_store_def demo_token_def create_session_at_def Let_def consume_at_def
        verify_mint demo_crypto_laws sat_add_def spend_one_def)
qed

theorem accepted_token_is_authentic_witness:
  "\<exists>p raw sid mac_hex. split_on CHR '':'' (trim demo_token) = [p, raw, sid, mac_hex] \<and>
     hex_decode demo_crypto mac_hex =
      Some (hmac_sha256 demo_crypto (hmac_key (codec demo_store)) (p @ '':'' @ raw @ '':'' @ sid))"
  using accepted_token_is_authentic[of demo_crypto demo_store demo_token None 1000 "''0xa1''" 1 2 4600
      "snd (consume_at demo_crypto demo_store demo_token None 1000)"] demo_accepted
  by (metis prod.collapse)

text \<open>No bytes can be shifted between the fields of a token. If the keyed hash does not collide,
  two tokens that verify and carry the same MAC field make the same claims: the same payer,
  the same deadline and the same session, so a client cannot keep the MAC of its token and
  have it mean something else.\<close>

lemma same_mac_same_claims:
  assumes "inj (hmac_sha256 C (hmac_key cd))"
    and "verify C cd token1 now1 = Inr claims1" "verify C cd token2 now2 = Inr claims2"
    and "last (split_on CHR '':'' (trim token1)) = last (split_on CHR '':'' (trim token2))"
  shows "claims1 = claims2"
proof -
  from assms(2,3) obtain r1 m1 r2 m2 where
    t1: "split_on CHR '':'' (trim token1) = [claim_payer claims1, r1, claim_session_id claims1, m1]"
      "hex_decode C m1 = Some (mac C cd (signed_part (claim_payer claims1) r1 (claim_session_id claims1)))"
      "parse_u64 r1 = Some (claim_expires_at claims1)"
    and t2: "split_on CHR '':'' (trim token2) = [claim_payer claims2, r2, claim_session_id claims2, m2]"
      "hex_decode C m2 = Some (mac C cd (signed_part (claim_payer claims2) r2 (claim_session_id claims2)))"
      "parse_u64 r2 = Some (claim_expires_at claims2)"
    unfolding verify_Inr_iff by blast
  have sep: "\<forall>f \<in> set [claim_payer claims1, r1, claim_session_id claims1,
      claim_payer claims2, r2, claim_session_id claims2]. CHR '':'' \<notin> set f"
    using split_on_fields_no_sep[of _ "CHR '':''" "trim token1"]
      split_on_fields_no_sep[of _ "CHR '':''" "trim token2"] t1(1) t2(1) by auto
  have "m1 = m2" using assms(4) t1(1) t2(1) by simp
  with t1(2) t2(2) assms(1)
  have "signed_part (claim_payer claims1) r1 (claim_session_id claims1) =
      signed_part (claim_payer claims2) r2 (claim_session_id claims2)"
    by (simp add: mac_def inj_eq)
  with sep have "claim_payer claims1 = claim_payer claims2 \<and> r1 = r2 \<and>
      claim_session_id claims1 = claim_session_id claims2"
    by (intro signed_part_inj) auto
  with t1(3) t2(3) show ?thesis by (cases claims1; cases claims2) simp
qed

text \<open>C8: a session never grants more than it was sold for. After a session is created, whatever
  sequence of creations of other sessions, presentations of any tokens, claims, releases and
  sweeps follows, the requests answered by spending that session, plus what it has left at
  the end, are at most its quota.\<close>

theorem session_never_oversells:
  assumes "create_session_at C raw s payer policy quota ttl now = (token, s')"
    and "\<forall>e \<in> set es. \<not> creates C (new_session_id C raw) e"
  shows "grants C (new_session_id C raw) s' es
    + remaining_of (new_session_id C raw) (foldl (store_step C) s' es) \<le> unat quota"
proof -
  have "remaining_of (new_session_id C raw) s' = unat quota"
    using assms(1) remaining_of_create[of C raw s payer policy quota ttl now] by simp
  with grants_bounded[OF assms(2), of s'] show ?thesis by simp
qed

theorem session_never_oversells_witness:
  "grants demo_crypto (new_session_id demo_crypto ''id'') demo_store
     [Consume demo_token None 1000, Claim ''tx'' 300 1001, Cleanup 1002]
   + remaining_of (new_session_id demo_crypto ''id'') (foldl (store_step demo_crypto) demo_store
     [Consume demo_token None 1000, Claim ''tx'' 300 1001, Cleanup 1002]) \<le> 2"
proof -
  have c: "create_session_at demo_crypto ''id'' (store_new ''key'' 3600) ''0xa1'' None 2 3600 1000 =
      (demo_token, demo_store)" by (simp add: demo_token_def demo_store_def)
  have n: "\<forall>e \<in> set [Consume demo_token None 1000, Claim ''tx'' 300 1001, Cleanup 1002].
      \<not> creates demo_crypto (new_session_id demo_crypto ''id'') e" by simp
  have q: "unat (2 :: u64) = 2" by simp
  show ?thesis using session_never_oversells[OF c n] unfolding q .
qed

text \<open>A payment is used at most once while its claim lasts. Once a claim of a payment was
  answered \<open>Fresh\<close>, then in every later sequence of claims, of this payment and of any others,
  within the claim's lifetime and without a release, no further claim of it is answered
  \<open>Fresh\<close>.\<close>

lemma payment_claim_is_single_use:
  assumes "fst (claim_payment_at s payment ttl t) = Fresh"
    and "\<forall>(j, now) \<in> set es. t \<le> now \<and> sat_sub now t < ttl"
  shows "((payment, n), Fresh) \<notin> set (zip es
    (replies (\<lambda>s (j, now). claim_payment_at s j ttl now) (snd (claim_payment_at s payment ttl t)) es))"
  using assms by (rule mem.single_use)

lemma payment_claim_is_single_use_example:
  "replies (\<lambda>s (j, now). claim_payment_at s j 60 now)
     (snd (claim_payment_at (store_new ''key'' 3600) ''tx'' 60 1000)) [(''tx'', 1010), (''ty'', 1011)] =
     [Replay 1000, Fresh] \<and>
   ((''tx'', 1010), Fresh) \<notin> set (zip [(''tx'', 1010), (''ty'', 1011)]
     (replies (\<lambda>s (j, now). claim_payment_at s j 60 now)
       (snd (claim_payment_at (store_new ''key'' 3600) ''tx'' 60 1000)) [(''tx'', 1010), (''ty'', 1011)]))"
proof -
  have f: "fst (claim_payment_at (store_new ''key'' 3600) ''tx'' 60 1000) = Fresh"
    by (simp add: claim_payment_at_def store_new_def)
  have t: "\<forall>(j, now) \<in> set [(''tx'', 1010), (''ty'', 1011)]. 1000 \<le> now \<and> sat_sub now 1000 < (60 :: u64)"
    by (simp add: sat_sub_def)
  show ?thesis
    using payment_claim_is_single_use[OF f t, of 1010]
    by (simp add: claim_payment_at_def store_new_def sat_sub_def)
qed

end
