(* ===== verification/IpAddr.thy ===== *)
theory IpAddr
  imports Prelude
begin

text \<open>
  IP addresses as the standard library prints them (\<open>Display for IpAddr\<close>), and the facts that
  make the printed form usable as part of a map key: it never contains a bar, and it tells
  apart all IPv4 addresses and all /64 networks.
\<close>

datatype IpAddr =
    V4 "8 word" "8 word" "8 word" "8 word"
  | V6 u16 u16 u16 u16 u16 u16 u16 u16

fun show_hex :: "nat \<Rightarrow> string" where
  "show_hex n = (if n < 16 then [if n < 10 then char_of (48 + n) else char_of (87 + n)]
     else show_hex (n div 16) @ [let d = n mod 16 in if d < 10 then char_of (48 + d) else char_of (87 + d)])"

declare show_hex.simps [simp del]

text \<open>
  The first longest run of zero segments, as the standard library's loop finds it: \<open>cur\<close> is
  the run being scanned, \<open>best\<close> the longest so far, each a start and a length.
\<close>

fun zero_run :: "nat \<Rightarrow> nat \<times> nat \<Rightarrow> nat \<times> nat \<Rightarrow> u16 list \<Rightarrow> nat \<times> nat" where
  "zero_run i cur best [] = best"
| "zero_run i cur best (s # ss) =
     (if s = 0 then
        let cur' = (if snd cur = 0 then i else fst cur, snd cur + 1);
            best' = (if snd cur' > snd best then cur' else best)
        in zero_run (Suc i) cur' best' ss
      else zero_run (Suc i) (0, 0) best ss)"

definition show_segments :: "u16 list \<Rightarrow> string" where
  "show_segments ss = join_on CHR '':'' (map (\<lambda>s. show_hex (unat s)) ss)"

definition show_v4 :: "8 word \<Rightarrow> 8 word \<Rightarrow> 8 word \<Rightarrow> 8 word \<Rightarrow> string" where
  "show_v4 a b c d = join_on CHR ''.'' (map (\<lambda>w. show_nat (unat w)) [a, b, c, d])"

definition show_v6 :: "u16 list \<Rightarrow> string" where
  "show_v6 ss =
     (if take 6 ss = [0, 0, 0, 0, 0, 0xffff] \<and> length ss = 8 then
        ''::ffff:'' @ show_v4 (ucast (drop_bit 8 (ss ! 6))) (ucast (ss ! 6))
          (ucast (drop_bit 8 (ss ! 7))) (ucast (ss ! 7))
      else
        let (start, len) = zero_run 0 (0, 0) (0, 0) ss in
        if len > 1 then show_segments (take start ss) @ ''::'' @ show_segments (drop (start + len) ss)
        else show_segments ss)"

fun show_ip :: "IpAddr \<Rightarrow> string" where
  "show_ip (V4 a b c d) = show_v4 a b c d"
| "show_ip (V6 a b c d e f g h) = show_v6 [a, b, c, d, e, f, g, h]"

section \<open>Characters\<close>

definition is_addr_char :: "char \<Rightarrow> bool" where
  "is_addr_char c \<longleftrightarrow> is_digit c \<or> (97 :: nat) \<le> of_char c \<and> of_char c \<le> (102 :: nat)"

lemma show_hex_chars: "c \<in> set (show_hex n) \<Longrightarrow> is_addr_char c"
proof (induction n rule: show_hex.induct)
  case (1 n)
  then show ?case
    by (cases "n < 16")
      (auto simp: show_hex.simps[of n] is_addr_char_def is_digit_def Let_def split: if_splits)
qed

lemma show_hex_nonempty [simp]: "show_hex n \<noteq> []"
  by (subst show_hex.simps) simp

lemma show_hex_no_sep [simp]: "CHR '':'' \<notin> set (show_hex n)" "CHR ''.'' \<notin> set (show_hex n)"
  by (auto simp: is_addr_char_def is_digit_def dest!: show_hex_chars)

lemma show_nat_no_sep [simp]:
  "CHR '':'' \<notin> set (show_nat n)" "CHR ''.'' \<notin> set (show_nat n)" "CHR ''|'' \<notin> set (show_nat n)"
  by (simp_all add: not_in_show_nat is_digit_def)

lemma set_join_on: "c \<in> set (join_on d fs) \<Longrightarrow> c = d \<or> (\<exists>f \<in> set fs. c \<in> set f)"
  by (induction d fs rule: join_on.induct) auto

lemma show_segments_chars: "c \<in> set (show_segments ss) \<Longrightarrow> c = CHR '':'' \<or> is_addr_char c"
  by (auto simp: show_segments_def dest!: set_join_on show_hex_chars)

lemma show_v4_chars: "c \<in> set (show_v4 a b c' d) \<Longrightarrow> c = CHR ''.'' \<or> is_digit c"
  unfolding show_v4_def by (auto dest!: set_join_on show_nat_is_digit simp del: join_on.simps)

lemma show_ip_no_bar: "CHR ''|'' \<notin> set (show_ip ip)"
proof -
  have "\<not> is_addr_char CHR ''|''" "\<not> is_digit CHR ''|''" by (simp_all add: is_addr_char_def is_digit_def)
  then show ?thesis
    by (cases ip)
      (auto simp: show_v6_def Let_def dest!: show_segments_chars show_v4_chars
        split: prod.splits if_splits)
qed

section \<open>Reading an address back\<close>

lemma show_v4_split: "split_on CHR ''.'' (show_v4 a b c d) =
    map (\<lambda>w. show_nat (unat w)) [a, b, c, d]"
  by (simp add: show_v4_def)

lemma show_v4_inj: "show_v4 a b c d = show_v4 a' b' c' d' \<Longrightarrow> a = a' \<and> b = b' \<and> c = c' \<and> d = d'"
  using show_v4_split[of a b c d] show_v4_split[of a' b' c' d'] by (simp add: word_unat_eq_iff)

lemma show_v4_no_colon: "CHR '':'' \<notin> set (show_v4 a b c d)"
  by (auto simp: is_digit_def dest!: show_v4_chars)

definition hex_digit_value :: "char \<Rightarrow> nat" where
  "hex_digit_value c = (if of_char c < (58 :: nat) then of_char c - 48 else of_char c - 87)"

definition hex_digits_value :: "string \<Rightarrow> nat" where
  "hex_digits_value s = foldl (\<lambda>v c. 16 * v + hex_digit_value c) 0 s"

lemma hex_digits_value_show_hex [simp]: "hex_digits_value (show_hex n) = n"
proof (induction n rule: show_hex.induct)
  case (1 n)
  then show ?case
    by (cases "n < 16") (auto simp: show_hex.simps[of n] hex_digits_value_def hex_digit_value_def Let_def)
qed

lemma show_hex_inj [simp]: "show_hex m = show_hex n \<longleftrightarrow> m = n"
  by (metis hex_digits_value_show_hex)

text \<open>The address of a /64 network: only its first four segments matter.\<close>

definition trailing_zeros_off :: "u16 list \<Rightarrow> u16 list" where
  "trailing_zeros_off ss = rev (dropWhile (\<lambda>s. s = 0) (rev ss))"

lemma show_v6_network:
  "show_v6 [a, b, c, d, 0, 0, 0, 0] = show_segments (trailing_zeros_off [a, b, c, d]) @ ''::''"
  by (cases "a = 0"; cases "b = 0"; cases "c = 0"; cases "d = 0")
    (simp_all add: show_v6_def trailing_zeros_off_def show_segments_def)

lemma split_network:
  "split_on CHR '':'' (show_segments ss @ ''::'') =
     (if ss = [] then [[], [], []] else map (\<lambda>s. show_hex (unat s)) ss @ [[], []])"
proof (induction ss)
  case (Cons s ss)
  then show ?case by (cases ss) (simp_all add: show_segments_def)
qed (simp add: show_segments_def)

lemma show_segments_network_inj:
  assumes "show_segments ss @ ''::'' = show_segments ts @ ''::''"
  shows "ss = ts"
proof -
  let ?h = "map (\<lambda>s :: u16. show_hex (unat s))"
  have "(if ss = [] then [[], [], []] else ?h ss @ [[], []]) =
      (if ts = [] then [[], [], []] else ?h ts @ [[], []])"
    using assms split_network[of ss] split_network[of ts] by metis
  then have "?h ss = ?h ts"
    by (cases ss; cases ts) (auto simp: eq_commute[of "[]"])
  then show ?thesis by (simp add: inj_map_eq_map inj_def word_unat_eq_iff)
qed

section \<open>Parsing\<close>

text \<open>
  \<open>IpAddr::from_str\<close>: four decimal octets without leading zeros, or up to eight groups of one to
  four hex digits of which the last two may be written as an IPv4 address, with at most one
  \<open>::\<close> standing for at least one group.
\<close>

definition parse_octet :: "string \<Rightarrow> 8 word option" where
  "parse_octet s =
     (case parse_digits s of
        None \<Rightarrow> None
      | Some v \<Rightarrow> if length s \<le> 3 \<and> (length s = 1 \<or> hd s \<noteq> CHR ''0'') \<and> v < 256 then Some (word_of_nat v) else None)"

definition parse_v4 :: "string \<Rightarrow> (8 word \<times> 8 word \<times> 8 word \<times> 8 word) option" where
  "parse_v4 s =
     (case map parse_octet (split_on CHR ''.'' s) of
        [Some a, Some b, Some c, Some d] \<Rightarrow> Some (a, b, c, d)
      | _ \<Rightarrow> None)"

definition hex_char_value :: "char \<Rightarrow> nat option" where
  "hex_char_value c = (let n = of_char c :: nat in
     if 48 \<le> n \<and> n \<le> 57 then Some (n - 48)
     else if 97 \<le> n \<and> n \<le> 102 then Some (n - 87)
     else if 65 \<le> n \<and> n \<le> 70 then Some (n - 55) else None)"

definition parse_group :: "string \<Rightarrow> u16 option" where
  "parse_group s =
     (if s = [] \<or> length s > 4 then None
      else map_option word_of_nat (foldl (\<lambda>acc c. Option.bind acc (\<lambda>v. map_option (\<lambda>d. 16 * v + d) (hex_char_value c)))
        (Some 0) s))"

fun parse_groups :: "bool \<Rightarrow> string list \<Rightarrow> u16 list option" where
  "parse_groups allow_v4 [] = Some []"
| "parse_groups allow_v4 [s] =
     (case parse_group s of
        Some g \<Rightarrow> Some [g]
      | None \<Rightarrow> if allow_v4
                then map_option (\<lambda>(a, b, c, d). [word_of_nat (256 * unat a + unat b), word_of_nat (256 * unat c + unat d)])
                       (parse_v4 s)
                else None)"
| "parse_groups allow_v4 (s # t # ts) =
     Option.bind (parse_group s) (\<lambda>g. map_option (Cons g) (parse_groups allow_v4 (t # ts)))"

fun split_double_colon :: "string \<Rightarrow> (string \<times> string) option" where
  "split_double_colon (c # d # cs) =
     (if c = CHR '':'' \<and> d = CHR '':'' then Some ([], cs)
      else map_option (\<lambda>(l, r). (c # l, r)) (split_double_colon (d # cs)))"
| "split_double_colon _ = None"

definition fields_of :: "string \<Rightarrow> string list" where
  "fields_of s = (if s = [] then [] else split_on CHR '':'' s)"

definition v6_of :: "u16 list \<Rightarrow> IpAddr option" where
  "v6_of gs = (case gs of [a, b, c, d, e, f, g, h] \<Rightarrow> Some (V6 a b c d e f g h) | _ \<Rightarrow> None)"

definition parse_v6 :: "string \<Rightarrow> IpAddr option" where
  "parse_v6 s =
     (case split_double_colon s of
        None \<Rightarrow> Option.bind (parse_groups True (fields_of s)) v6_of
      | Some (l, r) \<Rightarrow>
          (case (parse_groups False (fields_of l), parse_groups True (fields_of r)) of
             (Some hs, Some ts) \<Rightarrow>
               if length hs + length ts \<le> 7 then v6_of (hs @ replicate (8 - length hs - length ts) 0 @ ts) else None
           | _ \<Rightarrow> None))"

definition parse_ip :: "string \<Rightarrow> IpAddr option" where
  "parse_ip s =
     (case parse_v4 s of
        Some (a, b, c, d) \<Rightarrow> Some (V4 a b c d)
      | None \<Rightarrow> parse_v6 s)"

end
