(* ===== verification/Config.thy ===== *)
theory Config
  imports Session IpAddr
begin

text \<open>
  Configuration (src/config.rs): the data the operator writes, the environment overrides, the
  validation at startup, and the resolution of a request to a policy.

  Reading and YAML-parsing the file is serde; the model starts from the parsed \<open>Config\<close> and an
  environment \<open>string \<Rightarrow> string option\<close>. A \<open>HashMap\<close> is an association list in its iteration
  order, read with \<open>map_of\<close>. Errors are the datatype \<open>ConfigError\<close>, one constructor per \<open>bail!\<close>,
  with the context the message names.

  The properties show that a configuration that passes validation resolves every request to
  terms the rest of the service can rely on, and that resolution is by policy name, then by
  longest prefix whatever the order of the file, then by default.
\<close>

section \<open>Constants and small helpers\<close>

definition ENV_HMAC_SECRET :: string where "ENV_HMAC_SECRET = ''X402_SESSION_HMAC_SECRET''"
definition ENV_PAY_TO :: string where "ENV_PAY_TO = ''X402_PAY_TO''"
definition ENV_PAY_TO_PREFIX :: string where "ENV_PAY_TO_PREFIX = ''X402_PAY_TO_''"
definition SUI_ADDRESS_HEX_LEN :: nat where "SUI_ADDRESS_HEX_LEN = 64"
definition MIN_HMAC_KEY_BYTES :: nat where "MIN_HMAC_KEY_BYTES = 32"
definition DEFAULT_ASSET_DECIMALS :: u32 where "DEFAULT_ASSET_DECIMALS = 6"
definition POLICY_CONTEXT_KEY :: string where "POLICY_CONTEXT_KEY = ''x402_policy''"
definition DEFAULT_POLICY_LABEL :: string where "DEFAULT_POLICY_LABEL = ''default''"

definition PLACEHOLDER_HMAC_SECRET :: string where
  "PLACEHOLDER_HMAC_SECRET = ''abababababababababababababababababababababababababababababababab''"

definition pay_to_env_var :: "string \<Rightarrow> string" where
  "pay_to_env_var policy =
     ENV_PAY_TO_PREFIX @ map (\<lambda>c. if c = CHR ''-'' then CHR ''_'' else c) (to_ascii_uppercase policy)"

definition sat_pow10_u128 :: "u32 \<Rightarrow> nat" where
  "sat_pow10_u128 decimals = min (10 ^ unat decimals) (2 ^ 128 - 1)"

definition gasless_minimum_base_units :: "u32 \<Rightarrow> nat" where
  "gasless_minimum_base_units decimals = sat_pow10_u128 decimals div 100"

section \<open>Data\<close>

datatype VerificationMode = StubAcceptAll | SuiGrpc

record PaymentConfig =
  pc_scheme :: string
  pc_network :: string
  pc_amount :: string
  pc_asset :: string
  pc_asset_decimals :: u32
  pc_pay_to :: string
  pc_max_timeout_seconds :: u64
  pc_description :: string
  pc_service_name :: "string option"
  pc_tags :: "string list"
  pc_icon_url :: "string option"
  pc_gas_station :: "string option"

record FreeTierConfig =
  max_requests :: u64
  window_secs :: u64

record PaidTierConfig =
  pt_quota :: u64
  pt_duration_secs :: u64

record PaymentOverride =
  po_pay_to :: "string option"
  po_amount :: "string option"
  po_asset :: "string option"
  po_asset_decimals :: "u32 option"
  po_description :: "string option"
  po_free_tier :: "FreeTierConfig option"
  po_paid_tier :: "PaidTierConfig option"

record ResolvedPolicy =
  rp_label :: string
  rp_payment :: PaymentConfig
  rp_free_tier :: FreeTierConfig
  rp_paid_tier :: PaidTierConfig

record RouteOverride =
  path_prefix :: string
  ro_overrides :: PaymentOverride

datatype StoreBackend = StoreMemory | StoreRedis

record StoreConfig =
  backend :: StoreBackend
  redis_url :: string

type_synonym SocketAddr = "IpAddr \<times> u16"

record Config =
  listen_addr :: SocketAddr
  metrics_listen_addr :: "SocketAddr option"
  facilitator_api_listen_addr :: "SocketAddr option"
  sui_grpc_url :: string
  sui_chain :: string
  verification_mode :: VerificationMode
  cfg_payment :: PaymentConfig
  policies :: "(string \<times> PaymentOverride) list"
  routes :: "RouteOverride list"
  cfg_free_tier :: FreeTierConfig
  cfg_paid_tier :: PaidTierConfig
  cfg_store :: StoreConfig
  session_hmac_secret :: string

datatype ConfigError =
    UnsupportedScheme string
  | AmountNotDecimal string string
  | PayToNotPrefixed string string
  | PayToNotHex string string
  | PayToZero string
  | WindowZero string
  | DurationZero string
  | QuotaZero string
  | ServiceNameInvalid nat
  | TooManyTags nat
  | TagInvalid string
  | IconUrlTooLong
  | IconUrlNotHttp string
  | PathPrefixEmpty
  | RedisUrlMissing
  | HmacSecretEmpty
  | HmacSecretPlaceholder
  | HmacSecretNotHex
  | HmacSecretTooShort nat

section \<open>Overrides and tiers\<close>

abbreviation override_with :: "'a option \<Rightarrow> 'a \<Rightarrow> 'a" where
  "override_with over dflt \<equiv> (case over of None \<Rightarrow> dflt | Some v \<Rightarrow> v)"

definition apply_to :: "PaymentOverride \<Rightarrow> ResolvedPolicy \<Rightarrow> ResolvedPolicy" where
  "apply_to over resolved =
     resolved\<lparr>
       rp_payment := (rp_payment resolved)\<lparr>
         pc_pay_to := override_with (po_pay_to over) (pc_pay_to (rp_payment resolved)),
         pc_amount := override_with (po_amount over) (pc_amount (rp_payment resolved)),
         pc_asset := override_with (po_asset over) (pc_asset (rp_payment resolved)),
         pc_asset_decimals := override_with (po_asset_decimals over) (pc_asset_decimals (rp_payment resolved)),
         pc_description := override_with (po_description over) (pc_description (rp_payment resolved))\<rparr>,
       rp_free_tier := override_with (po_free_tier over) (rp_free_tier resolved),
       rp_paid_tier := override_with (po_paid_tier over) (rp_paid_tier resolved)\<rparr>"

definition free_tier_validate :: "FreeTierConfig \<Rightarrow> string \<Rightarrow> ConfigError + unit" where
  "free_tier_validate ft context = (if window_secs ft = 0 then Inl (WindowZero context) else Inr ())"

definition paid_tier_validate :: "PaidTierConfig \<Rightarrow> string \<Rightarrow> ConfigError + unit" where
  "paid_tier_validate pt context =
     (if pt_duration_secs pt = 0 then Inl (DurationZero context)
      else if pt_quota pt = 0 then Inl (QuotaZero context)
      else Inr ())"

definition is_ascii_hexdigit :: "char \<Rightarrow> bool" where
  "is_ascii_hexdigit c \<longleftrightarrow> is_hex_lower (to_ascii_lower c)"

definition validate_pay_to :: "string \<Rightarrow> string \<Rightarrow> ConfigError + unit" where
  "validate_pay_to context pay_to =
     (case strip_prefix pay_to ''0x'' of
        None \<Rightarrow> Inl (PayToNotPrefixed context pay_to)
      | Some hex_part \<Rightarrow>
          if length hex_part \<noteq> SUI_ADDRESS_HEX_LEN \<or> \<not> list_all is_ascii_hexdigit hex_part
          then Inl (PayToNotHex context pay_to)
          else if list_all (\<lambda>c. c = CHR ''0'') hex_part then Inl (PayToZero context)
          else Inr ())"

definition override_validate :: "PaymentOverride \<Rightarrow> string \<Rightarrow> ConfigError + unit" where
  "override_validate over context =
     and_then (case po_pay_to over of None \<Rightarrow> Inr () | Some pay_to \<Rightarrow> validate_pay_to context pay_to) (\<lambda>_.
     and_then (case po_amount over of None \<Rightarrow> Inr ()
        | Some amount \<Rightarrow> if parse_unsigned 128 amount = None then Inl (AmountNotDecimal context amount) else Inr ()) (\<lambda>_.
     and_then (case po_free_tier over of None \<Rightarrow> Inr ()
        | Some ft \<Rightarrow> free_tier_validate ft (context @ '' free_tier'')) (\<lambda>_.
     and_then (case po_paid_tier over of None \<Rightarrow> Inr ()
        | Some pt \<Rightarrow> paid_tier_validate pt (context @ '' paid_tier'')) (\<lambda>_.
     Inr ()))))"

section \<open>The configuration\<close>

definition validate_discovery_metadata :: "Config \<Rightarrow> ConfigError + unit" where
  "validate_discovery_metadata cfg =
     (let MAX_FIELD = 32; MAX_TAGS = 5; MAX_ICON_URL = 2048; p = cfg_payment cfg in
      and_then (case pc_service_name p of None \<Rightarrow> Inr ()
        | Some name \<Rightarrow> if length name > MAX_FIELD \<or> \<not> is_ascii name
                       then Inl (ServiceNameInvalid (length name)) else Inr ()) (\<lambda>_.
      and_then (if length (pc_tags p) > MAX_TAGS then Inl (TooManyTags (length (pc_tags p))) else Inr ()) (\<lambda>_.
      and_then (for_each_ok (\<lambda>tag. if length tag > MAX_FIELD \<or> \<not> is_ascii tag
                       then Inl (TagInvalid tag) else Inr ()) (pc_tags p)) (\<lambda>_.
      case pc_icon_url p of None \<Rightarrow> Inr ()
        | Some icon \<Rightarrow>
            if length icon > MAX_ICON_URL then Inl IconUrlTooLong
            else if \<not> starts_with icon ''http://'' \<and> \<not> starts_with icon ''https://''
            then Inl (IconUrlNotHttp icon) else Inr ()))))"

definition priced_policies :: "Config \<Rightarrow> (string \<times> string \<times> u32) list" where
  "priced_policies cfg =
     (DEFAULT_POLICY_LABEL, pc_amount (cfg_payment cfg), pc_asset_decimals (cfg_payment cfg)) #
     map (\<lambda>(name, over). (name, override_with (po_amount over) (pc_amount (cfg_payment cfg)),
            override_with (po_asset_decimals over) (pc_asset_decimals (cfg_payment cfg))))
       (policies cfg)"

text \<open>The policies a warning is logged for.\<close>

definition warn_if_below_the_gasless_floor :: "Config \<Rightarrow> (string \<times> string \<times> u32) list" where
  "warn_if_below_the_gasless_floor cfg =
     filter (\<lambda>(name, amount, decimals). case parse_unsigned 128 amount of None \<Rightarrow> False
        | Some v \<Rightarrow> 0 < v \<and> v < gasless_minimum_base_units decimals) (priced_policies cfg)"

definition config_hmac_key :: "crypto \<Rightarrow> Config \<Rightarrow> ConfigError + bytes" where
  "config_hmac_key C cfg =
     (if session_hmac_secret cfg = [] then Inl HmacSecretEmpty
      else if trim (session_hmac_secret cfg) = PLACEHOLDER_HMAC_SECRET then Inl HmacSecretPlaceholder
      else case hex_decode C (session_hmac_secret cfg) of
        None \<Rightarrow> Inl HmacSecretNotHex
      | Some key \<Rightarrow>
          if length key < MIN_HMAC_KEY_BYTES then Inl (HmacSecretTooShort (length key)) else Inr key)"

definition config_validate :: "crypto \<Rightarrow> Config \<Rightarrow> ConfigError + unit" where
  "config_validate C cfg =
     (if pc_scheme (cfg_payment cfg) \<noteq> ''exact'' then Inl (UnsupportedScheme (pc_scheme (cfg_payment cfg)))
      else if parse_unsigned 128 (pc_amount (cfg_payment cfg)) = None
      then Inl (AmountNotDecimal ''payment'' (pc_amount (cfg_payment cfg)))
      else
        and_then (validate_pay_to ''payment'' (pc_pay_to (cfg_payment cfg))) (\<lambda>_.
        and_then (free_tier_validate (cfg_free_tier cfg) ''free_tier'') (\<lambda>_.
        and_then (paid_tier_validate (cfg_paid_tier cfg) ''paid_tier'') (\<lambda>_.
        and_then (validate_discovery_metadata cfg) (\<lambda>_.
        and_then (for_each_ok (\<lambda>(name, policy). override_validate policy (''policy '' @ name)) (policies cfg)) (\<lambda>_.
        and_then (for_each_ok (\<lambda>route.
           if path_prefix route = [] then Inl PathPrefixEmpty
           else override_validate (ro_overrides route) (''route '' @ path_prefix route)) (routes cfg)) (\<lambda>_.
        and_then (if backend (cfg_store cfg) = StoreRedis \<and> redis_url (cfg_store cfg) = []
                  then Inl RedisUrlMissing else Inr ()) (\<lambda>_.
        and_then (config_hmac_key C cfg) (\<lambda>_. Inr ())))))))))"

text \<open>The environment overrides of \<open>Config::load\<close>, then validation.\<close>

definition apply_env :: "(string \<Rightarrow> string option) \<Rightarrow> Config \<Rightarrow> Config" where
  "apply_env env cfg =
     cfg\<lparr>session_hmac_secret := override_with (env ENV_HMAC_SECRET) (session_hmac_secret cfg),
         cfg_payment := (cfg_payment cfg)\<lparr>pc_pay_to :=
           override_with (env ENV_PAY_TO) (pc_pay_to (cfg_payment cfg))\<rparr>,
         policies := map (\<lambda>(name, policy). (name,
           case env (pay_to_env_var name) of None \<Rightarrow> policy
           | Some pay_to \<Rightarrow> policy\<lparr>po_pay_to := Some pay_to\<rparr>)) (policies cfg)\<rparr>"

definition config_load :: "crypto \<Rightarrow> (string \<Rightarrow> string option) \<Rightarrow> Config \<Rightarrow> ConfigError + Config" where
  "config_load C env parsed =
     (let cfg = apply_env env parsed in and_then (config_validate C cfg) (\<lambda>_. Inr cfg))"

definition default_policy :: "Config \<Rightarrow> ResolvedPolicy" where
  "default_policy cfg =
     \<lparr>rp_label = DEFAULT_POLICY_LABEL, rp_payment = cfg_payment cfg,
      rp_free_tier = cfg_free_tier cfg, rp_paid_tier = cfg_paid_tier cfg\<rparr>"

definition matching_route :: "Config \<Rightarrow> string \<Rightarrow> RouteOverride option" where
  "matching_route cfg path =
     max_by_key (\<lambda>r. length (path_prefix r)) (filter (\<lambda>r. starts_with path (path_prefix r)) (routes cfg))"

definition policy_for :: "Config \<Rightarrow> string \<Rightarrow> string option \<Rightarrow> ResolvedPolicy" where
  "policy_for cfg path policy =
     (let resolved = default_policy cfg in
      case Option.bind policy (\<lambda>name. map_option (Pair name) (map_of (policies cfg) name)) of
        Some (name, over) \<Rightarrow> (apply_to over resolved)\<lparr>rp_label := name\<rparr>
      | None \<Rightarrow>
          (case matching_route cfg path of
             Some route \<Rightarrow> (apply_to (ro_overrides route) resolved)\<lparr>rp_label := path_prefix route\<rparr>
           | None \<Rightarrow> resolved))"

definition is_unknown_policy :: "Config \<Rightarrow> string \<Rightarrow> bool" where
  "is_unknown_policy cfg policy \<longleftrightarrow> map_of (policies cfg) policy = None"

section \<open>Facts on validation\<close>

lemma apply_to_simps [simp]:
  "rp_free_tier (apply_to over r) = override_with (po_free_tier over) (rp_free_tier r)"
  "rp_paid_tier (apply_to over r) = override_with (po_paid_tier over) (rp_paid_tier r)"
  "pc_pay_to (rp_payment (apply_to over r)) = override_with (po_pay_to over) (pc_pay_to (rp_payment r))"
  "pc_amount (rp_payment (apply_to over r)) = override_with (po_amount over) (pc_amount (rp_payment r))"
  "pc_asset (rp_payment (apply_to over r)) = override_with (po_asset over) (pc_asset (rp_payment r))"
  "pc_scheme (rp_payment (apply_to over r)) = pc_scheme (rp_payment r)"
  "pc_network (rp_payment (apply_to over r)) = pc_network (rp_payment r)"
  "pc_max_timeout_seconds (rp_payment (apply_to over r)) = pc_max_timeout_seconds (rp_payment r)"
  by (simp_all add: apply_to_def)

lemma free_tier_validate_iff [simp]: "free_tier_validate ft c = Inr () \<longleftrightarrow> window_secs ft \<noteq> 0"
  by (simp add: free_tier_validate_def)

lemma paid_tier_validate_iff [simp]:
  "paid_tier_validate pt c = Inr () \<longleftrightarrow> pt_duration_secs pt \<noteq> 0 \<and> pt_quota pt \<noteq> 0"
  by (simp add: paid_tier_validate_def)

text \<open>A Sui address: \<open>0x\<close> and 64 hex digits, not all of them zero.\<close>

definition sui_address :: "string \<Rightarrow> bool" where
  "sui_address s \<longleftrightarrow> (\<exists>h. s = ''0x'' @ h \<and> length h = 64 \<and> (\<forall>c \<in> set h. is_ascii_hexdigit c) \<and>
     (\<exists>c \<in> set h. c \<noteq> CHR ''0''))"

lemma validate_pay_to_iff: "validate_pay_to c s = Inr () \<longleftrightarrow> sui_address s"
proof (cases "strip_prefix s ''0x''")
  case None
  then have "\<not> sui_address s" by (auto simp: strip_prefix_def starts_with_def sui_address_def split: if_splits)
  with None show ?thesis by (simp add: validate_pay_to_def)
next
  case (Some h)
  then have s: "s = ''0x'' @ h" by (simp only: strip_prefix_Some_iff)
  from Some show ?thesis
    by (auto simp: validate_pay_to_def sui_address_def s SUI_ADDRESS_HEX_LEN_def list_all_iff)
qed

text \<open>What the service relies on of a resolved policy.\<close>

definition sound_policy :: "ResolvedPolicy \<Rightarrow> bool" where
  "sound_policy r \<longleftrightarrow> window_secs (rp_free_tier r) \<noteq> 0 \<and>
     pt_duration_secs (rp_paid_tier r) \<noteq> 0 \<and> pt_quota (rp_paid_tier r) \<noteq> 0 \<and>
     pc_scheme (rp_payment r) = ''exact'' \<and> sui_address (pc_pay_to (rp_payment r)) \<and>
     (\<exists>v < 2 ^ 128. parse_unsigned 128 (pc_amount (rp_payment r)) = Some v)"

lemma parse_unsigned_bound: "parse_unsigned b s = Some v \<Longrightarrow> v < 2 ^ b"
  by (auto simp: parse_unsigned_def split: option.splits if_splits)

lemma parse_unsigned_in_range [simp]:
  "(\<exists>v < 2 ^ b. parse_unsigned b s = Some v) \<longleftrightarrow> parse_unsigned b s \<noteq> None"
  using parse_unsigned_bound by auto

lemma override_validate_sound:
  assumes "override_validate over c = Inr ()" "sound_policy r"
  shows "sound_policy (apply_to over r)"
  using assms unfolding override_validate_def sound_policy_def parse_unsigned_in_range
  by (auto simp: validate_pay_to_iff split: option.splits if_splits)

lemma sound_policy_label [simp]: "sound_policy (r\<lparr>rp_label := l\<rparr>) \<longleftrightarrow> sound_policy r"
  by (simp add: sound_policy_def)

lemma config_validate_cases:
  assumes "config_validate C cfg = Inr ()"
  shows "sound_policy (default_policy cfg)"
    "\<forall>(name, over) \<in> set (policies cfg). \<exists>c. override_validate over c = Inr ()"
    "\<forall>r \<in> set (routes cfg). path_prefix r \<noteq> [] \<and> (\<exists>c. override_validate (ro_overrides r) c = Inr ())"
    "\<exists>key. config_hmac_key C cfg = Inr key"
  using assms unfolding config_validate_def sound_policy_def default_policy_def parse_unsigned_in_range
  by (auto simp: validate_pay_to_iff split: if_splits)

lemma policy_for_cases:
  "policy_for cfg path policy = default_policy cfg \<and> matching_route cfg path = None
   \<or> (\<exists>name over. (name, over) \<in> set (policies cfg) \<and>
        policy_for cfg path policy = (apply_to over (default_policy cfg))\<lparr>rp_label := name\<rparr>)
   \<or> (\<exists>r. matching_route cfg path = Some r \<and> r \<in> set (routes cfg) \<and>
        policy_for cfg path policy = (apply_to (ro_overrides r) (default_policy cfg))\<lparr>rp_label := path_prefix r\<rparr>)"
proof (cases "Option.bind policy (\<lambda>name. map_option (Pair name) (map_of (policies cfg) name))")
  case None
  then show ?thesis
    by (cases "matching_route cfg path")
      (auto simp: policy_for_def matching_route_def dest: max_by_key_Some)
next
  case (Some a)
  then have "a \<in> set (policies cfg)" by (auto simp: bind_eq_Some_conv dest: map_of_SomeD)
  with Some show ?thesis by (cases a) (auto simp: policy_for_def)
qed

lemma validated_policy_sound: "config_validate C cfg = Inr () \<Longrightarrow> sound_policy (policy_for cfg path policy)"
  using policy_for_cases[of cfg path policy] config_validate_cases[of C cfg] override_validate_sound by fastforce

section \<open>Properties\<close>

text \<open>C20: a configuration that loads is safe to serve. Whatever path a request names and whatever
  policy the gateway attached, the resolved terms have a nonzero window (so the rate limiter's
  assertion cannot fire), a nonzero quota and duration, the implemented scheme, a nonzero Sui
  address to pay and a price that parses; and the session key is at least 32 bytes.\<close>

theorem loaded_config_is_sound:
  assumes "config_load C env parsed = Inr cfg"
  shows "sound_policy (policy_for cfg path policy) \<and>
    (\<exists>key. config_hmac_key C cfg = Inr key \<and> hex_decode C (session_hmac_secret cfg) = Some key \<and> 32 \<le> length key)"
proof -
  have ok: "config_validate C cfg = Inr ()" using assms by (auto simp: config_load_def Let_def)
  have "sound_policy (policy_for cfg path policy)" using ok by (rule validated_policy_sound)
  moreover obtain key where "config_hmac_key C cfg = Inr key" using config_validate_cases(4)[OF ok] ..
  ultimately show ?thesis
    by (auto simp: config_hmac_key_def MIN_HMAC_KEY_BYTES_def split: if_splits option.splits)
qed

definition demo_config :: Config where
  "demo_config =
     \<lparr>listen_addr = (V4 0 0 0 0, 50051), metrics_listen_addr = None, facilitator_api_listen_addr = None,
      sui_grpc_url = ''https://fullnode'', sui_chain = ''testnet'', verification_mode = SuiGrpc,
      cfg_payment = \<lparr>pc_scheme = ''exact'', pc_network = ''sui:testnet'', pc_amount = ''10000'',
        pc_asset = ''0x2::usdc::USDC'', pc_asset_decimals = 6,
        pc_pay_to = ''0x00000000000000000000000000000000000000000000000000000000000000a1'',
        pc_max_timeout_seconds = 120, pc_description = ''rpc'', pc_service_name = Some ''rpc'',
        pc_tags = [''sui''], pc_icon_url = Some ''https://icon'', pc_gas_station = None\<rparr>,
      policies = [(''grpc'', \<lparr>po_pay_to = None, po_amount = Some ''50000'', po_asset = None,
        po_asset_decimals = None, po_description = None,
        po_free_tier = Some \<lparr>max_requests = 1, window_secs = 60\<rparr>, po_paid_tier = None\<rparr>)],
      routes = [\<lparr>path_prefix = ''/'', ro_overrides = \<lparr>po_pay_to = None, po_amount = Some ''1'', po_asset = None,
          po_asset_decimals = None, po_description = None, po_free_tier = None, po_paid_tier = None\<rparr>\<rparr>,
        \<lparr>path_prefix = ''/sui'', ro_overrides = \<lparr>po_pay_to = None, po_amount = Some ''20000'', po_asset = None,
          po_asset_decimals = None, po_description = None, po_free_tier = None,
          po_paid_tier = Some \<lparr>pt_quota = 50, pt_duration_secs = 600\<rparr>\<rparr>\<rparr>],
      cfg_free_tier = \<lparr>max_requests = 2, window_secs = 60\<rparr>,
      cfg_paid_tier = \<lparr>pt_quota = 2, pt_duration_secs = 3600\<rparr>,
      cfg_store = \<lparr>backend = StoreMemory, redis_url = []\<rparr>,
      session_hmac_secret = ''000102030405060708090a0b0c0d0e0f101112131415161718191a1b1c1d1e1f''\<rparr>"

lemma demo_config_key: "\<exists>key. config_hmac_key demo_crypto demo_config = Inr key"
proof -
  have s: "trim (session_hmac_secret demo_config) = session_hmac_secret demo_config"
    by (intro trim_graphic) (simp add: demo_config_def graphic_def)
  show ?thesis
    unfolding config_hmac_key_def s
    by (simp add: demo_config_def demo_crypto_def hex_value_def PLACEHOLDER_HMAC_SECRET_def MIN_HMAC_KEY_BYTES_def)
qed

lemma demo_config_amounts:
  "parse_unsigned 128 ''10000'' = Some 10000" "parse_unsigned 128 ''50000'' = Some 50000"
  "parse_unsigned 128 ''1'' = Some 1" "parse_unsigned 128 ''20000'' = Some 20000"
  by (simp_all add: parse_unsigned_def parse_digits_def digits_value_def is_digit_def)

lemma demo_config_address:
  "validate_pay_to ctxt ''0x00000000000000000000000000000000000000000000000000000000000000a1'' = Inr ()"
  by (simp add: validate_pay_to_def strip_prefix_def starts_with_def SUI_ADDRESS_HEX_LEN_def
      is_ascii_hexdigit_def to_ascii_lower_def is_hex_lower_def is_digit_def)

lemma demo_config_metadata: "validate_discovery_metadata demo_config = Inr ()"
  by (simp add: validate_discovery_metadata_def demo_config_def is_ascii_def starts_with_def)

lemma demo_config_loads: "config_load demo_crypto (\<lambda>_. None) demo_config = Inr demo_config"
proof -
  have "config_validate demo_crypto demo_config = Inr ()"
    using demo_config_key demo_config_metadata unfolding config_validate_def
    by (auto simp: demo_config_def demo_config_amounts demo_config_address override_validate_def)
  moreover have "apply_env (\<lambda>_. None) demo_config = demo_config"
    by (simp add: apply_env_def demo_config_def)
  ultimately show ?thesis by (simp add: config_load_def)
qed

theorem loaded_config_is_sound_witness:
  "sound_policy (policy_for demo_config ''/sui.rpc.v2'' (Some ''nope''))"
  using loaded_config_is_sound[OF demo_config_loads] by blast

text \<open>The longest matching prefix wins. For a request that names no configured policy, the
  terms are those of the route with the longest prefix of its path, and the rate-limit label is
  that prefix, in whatever order the file lists the routes.\<close>

lemma longest_prefix_wins:
  assumes "distinct (map path_prefix (routes cfg))" "r \<in> set (routes cfg)" "starts_with path (path_prefix r)"
    and "\<And>r'. r' \<in> set (routes cfg) \<Longrightarrow> starts_with path (path_prefix r') \<Longrightarrow>
          length (path_prefix r') \<le> length (path_prefix r)"
    and "case policy of None \<Rightarrow> True | Some name \<Rightarrow> is_unknown_policy cfg name"
  shows "policy_for cfg path policy =
    (apply_to (ro_overrides r) (default_policy cfg))\<lparr>rp_label := path_prefix r\<rparr>"
proof -
  have same: "r' = r" if "r' \<in> set (routes cfg)" "path_prefix r' = path_prefix r" for r'
    using that assms(1,2) by (metis distinct_map inj_onD)
  have "matching_route cfg path = Some r"
    unfolding matching_route_def
    using assms(2-4) same starts_with_same_length[of path _ "path_prefix r"]
    by (intro max_by_key_unique) auto
  moreover have "Option.bind policy (\<lambda>name. map_option (Pair name) (map_of (policies cfg) name)) = None"
    using assms(5) by (auto simp: is_unknown_policy_def split: option.splits)
  ultimately show ?thesis by (simp add: policy_for_def)
qed

text \<open>The refusal of the published placeholder key is a comparison of spellings, not of keys.
  With the hex codec, which reads digits of either case, the secret \<open>ABAB...\<close> decodes to the very
  key that \<open>abab...\<close> decodes to and is accepted.\<close>

lemma placeholder_key_accepted_in_upper_case:
  assumes "\<And>s. hex_decode C (to_ascii_uppercase s) = hex_decode C s"
    and "hex_decode C PLACEHOLDER_HMAC_SECRET = Some public_key" "32 \<le> length public_key"
  shows "config_hmac_key C (cfg\<lparr>session_hmac_secret := PLACEHOLDER_HMAC_SECRET\<rparr>) = Inl HmacSecretPlaceholder
    \<and> config_hmac_key C (cfg\<lparr>session_hmac_secret := to_ascii_uppercase PLACEHOLDER_HMAC_SECRET\<rparr>) = Inr public_key"
proof -
  have lower: "trim PLACEHOLDER_HMAC_SECRET = PLACEHOLDER_HMAC_SECRET" "PLACEHOLDER_HMAC_SECRET \<noteq> []"
    by (intro trim_graphic) (simp_all add: PLACEHOLDER_HMAC_SECRET_def graphic_def)
  have up: "to_ascii_upper CHR ''a'' = CHR ''A''" "to_ascii_upper CHR ''b'' = CHR ''B''"
    by code_simp+
  have upper: "trim (to_ascii_uppercase PLACEHOLDER_HMAC_SECRET) = to_ascii_uppercase PLACEHOLDER_HMAC_SECRET"
    "to_ascii_uppercase PLACEHOLDER_HMAC_SECRET \<noteq> PLACEHOLDER_HMAC_SECRET"
    "to_ascii_uppercase PLACEHOLDER_HMAC_SECRET \<noteq> []"
    by (intro trim_graphic) (simp_all add: up PLACEHOLDER_HMAC_SECRET_def graphic_def to_ascii_uppercase_def)
  show ?thesis using assms lower upper by (simp add: config_hmac_key_def MIN_HMAC_KEY_BYTES_def)
qed


lemma hex_value_upper [simp]: "hex_value (to_ascii_upper c) = hex_value c"
  using of_char_less_256[of c] by (auto simp: hex_value_def to_ascii_upper_def Let_def)

lemma hex_dec_upper: "hex_dec (to_ascii_uppercase s) = hex_dec s"
  by (induction s rule: hex_dec.induct) (simp_all add: to_ascii_uppercase_def)

lemma placeholder_key_accepted_in_upper_case_example:
  "config_hmac_key demo_crypto (demo_config\<lparr>session_hmac_secret := to_ascii_uppercase PLACEHOLDER_HMAC_SECRET\<rparr>) =
    Inr (replicate 32 (CHR 0xAB))"
proof -
  have d: "hex_decode demo_crypto (to_ascii_uppercase s) = hex_decode demo_crypto s" for s
    by (simp add: demo_crypto_def hex_dec_upper)
  have p: "hex_decode demo_crypto PLACEHOLDER_HMAC_SECRET = Some (replicate 32 (CHR 0xAB))"
    by (simp add: demo_crypto_def PLACEHOLDER_HMAC_SECRET_def hex_value_def numeral_eq_Suc) code_simp
  show ?thesis using placeholder_key_accepted_in_upper_case[OF d p] by simp
qed

end
