(* ===== verification/X402.thy ===== *)
theory X402
  imports Config
begin

text \<open>
  The x402 v2 wire types, the session extension, header codecs and error codes (first half of
  src/x402.rs). JSON values are the variants of \<open>serde_json::Value\<close> with its object maps as
  association lists; the numbers the service writes are integers.

  The base64 and serde crates, SHA-256, and the two string functions that consult Unicode tables
  (\<open>Debug\<close> formatting and the replacement of invalid UTF-8) are fields of \<open>wire\<close>, an argument of the
  definitions that use them.
\<close>

section \<open>JSON values\<close>

datatype json =
    JNull | JBool bool | JNumber int | JString string
  | JArray "json list" | JObject "(string \<times> json) list"

fun json_get :: "string \<Rightarrow> json \<Rightarrow> json option" where
  "json_get k (JObject kvs) = map_of kvs k"
| "json_get k _ = None"

fun json_as_str :: "json \<Rightarrow> string option" where
  "json_as_str (JString s) = Some s"
| "json_as_str _ = None"

abbreviation json_u64 :: "u64 \<Rightarrow> json" where
  "json_u64 n \<equiv> JNumber (uint n)"

section \<open>Wire types\<close>

definition X402_VERSION :: u32 where "X402_VERSION = 2"
definition HEADER_PAYMENT_SIGNATURE :: string where "HEADER_PAYMENT_SIGNATURE = ''payment-signature''"
definition HEADER_PAYMENT_SESSION :: string where "HEADER_PAYMENT_SESSION = ''x-payment-session''"
definition HEADER_PAYMENT_REQUIRED :: string where "HEADER_PAYMENT_REQUIRED = ''PAYMENT-REQUIRED''"
definition HEADER_PAYMENT_RESPONSE :: string where "HEADER_PAYMENT_RESPONSE = ''PAYMENT-RESPONSE''"

record ResourceInfo =
  ri_url :: string
  ri_description :: "string option"
  ri_mime_type :: "string option"
  ri_service_name :: "string option"
  ri_tags :: "string list option"
  ri_icon_url :: "string option"

record PaymentRequirements =
  pr_scheme :: string
  pr_network :: string
  pr_amount :: string
  pr_asset :: string
  pr_pay_to :: string
  pr_max_timeout_seconds :: u64
  pr_extra :: "json option"

definition from_config :: "PaymentConfig \<Rightarrow> PaymentRequirements" where
  "from_config payment =
     \<lparr>pr_scheme = pc_scheme payment, pr_network = pc_network payment, pr_amount = pc_amount payment,
      pr_asset = pc_asset payment, pr_pay_to = pc_pay_to payment,
      pr_max_timeout_seconds = pc_max_timeout_seconds payment,
      pr_extra = map_option (\<lambda>url. JObject [(''gasStation'', JString url)]) (pc_gas_station payment)\<rparr>"

record PaymentRequired =
  pq_x402_version :: u32
  pq_error :: "string option"
  pq_resource :: ResourceInfo
  pq_accepts :: "PaymentRequirements list"
  pq_extensions :: "json option"

definition payment_required_new :: "string \<Rightarrow> ResourceInfo \<Rightarrow> PaymentRequirements list \<Rightarrow> PaymentRequired" where
  "payment_required_new err resource accepts =
     \<lparr>pq_x402_version = X402_VERSION, pq_error = Some err, pq_resource = resource,
      pq_accepts = accepts, pq_extensions = None\<rparr>"

record SuiExactPayload =
  sp_signature :: string
  sp_transaction :: string

record PaymentPayload =
  pp_x402_version :: u32
  pp_resource :: "ResourceInfo option"
  pp_accepted :: PaymentRequirements
  pp_payload :: json
  pp_extensions :: "json option"

record SettlementResponse =
  sr_success :: bool
  sr_error_reason :: "string option"
  sr_payer :: "string option"
  sr_transaction :: string
  sr_network :: string
  sr_amount :: "string option"
  sr_extensions :: "json option"

record VerifyResponse =
  vr_is_valid :: bool
  vr_invalid_reason :: "string option"
  vr_payer :: "string option"

record SupportedKind =
  sk_x402_version :: u32
  sk_scheme :: string
  sk_network :: string
  sk_extra :: "json option"

record SupportedResponse =
  sup_kinds :: "SupportedKind list"
  sup_extensions :: "string list"
  sup_signers :: "(string \<times> string list) list"

record FacilitatorRequest =
  fr_x402_version :: u32
  fr_payment_payload :: PaymentPayload
  fr_payment_requirements :: PaymentRequirements

section \<open>Reading wire types from JSON\<close>

text \<open>
  What the derived \<open>Deserialize\<close> instances read from a value: fields under their camel-case names, in
  any order, unknown ones ignored, a repeated one refused; an optional field may be absent or null.
\<close>

fun json_fields :: "json \<Rightarrow> (string \<times> json) list option" where
  "json_fields (JObject kvs) = (if distinct (map fst kvs) then Some kvs else None)"
| "json_fields _ = None"

fun json_as_uint :: "nat \<Rightarrow> json \<Rightarrow> int option" where
  "json_as_uint bits (JNumber n) = (if 0 \<le> n \<and> n < 2 ^ bits then Some n else None)"
| "json_as_uint bits _ = None"

fun json_as_strs :: "json \<Rightarrow> string list option" where
  "json_as_strs (JArray js) = those (map json_as_str js)"
| "json_as_strs _ = None"

definition req_field :: "(json \<Rightarrow> 'a option) \<Rightarrow> (string \<times> json) list \<Rightarrow> string \<Rightarrow> 'a option" where
  "req_field read kvs k = Option.bind (map_of kvs k) read"

definition opt_field :: "(json \<Rightarrow> 'a option) \<Rightarrow> (string \<times> json) list \<Rightarrow> string \<Rightarrow> 'a option option" where
  "opt_field read kvs k =
     (case map_of kvs k of None \<Rightarrow> Some None | Some JNull \<Rightarrow> Some None | Some v \<Rightarrow> map_option Some (read v))"

definition resource_of_json :: "json \<Rightarrow> ResourceInfo option" where
  "resource_of_json j =
     Option.bind (json_fields j) (\<lambda>kvs.
     Option.bind (req_field json_as_str kvs ''url'') (\<lambda>url.
     Option.bind (opt_field json_as_str kvs ''description'') (\<lambda>description.
     Option.bind (opt_field json_as_str kvs ''mimeType'') (\<lambda>mime_type.
     Option.bind (opt_field json_as_str kvs ''serviceName'') (\<lambda>service_name.
     Option.bind (opt_field json_as_strs kvs ''tags'') (\<lambda>tags.
     Option.bind (opt_field json_as_str kvs ''iconUrl'') (\<lambda>icon_url.
     Some \<lparr>ri_url = url, ri_description = description, ri_mime_type = mime_type, ri_service_name = service_name,
           ri_tags = tags, ri_icon_url = icon_url\<rparr>)))))))"

definition requirements_of_json :: "json \<Rightarrow> PaymentRequirements option" where
  "requirements_of_json j =
     Option.bind (json_fields j) (\<lambda>kvs.
     Option.bind (req_field json_as_str kvs ''scheme'') (\<lambda>scheme.
     Option.bind (req_field json_as_str kvs ''network'') (\<lambda>network.
     Option.bind (req_field json_as_str kvs ''amount'') (\<lambda>amount.
     Option.bind (req_field json_as_str kvs ''asset'') (\<lambda>asset.
     Option.bind (req_field json_as_str kvs ''payTo'') (\<lambda>pay_to.
     Option.bind (req_field (json_as_uint 64) kvs ''maxTimeoutSeconds'') (\<lambda>timeout.
     Option.bind (opt_field Some kvs ''extra'') (\<lambda>extra.
     Some \<lparr>pr_scheme = scheme, pr_network = network, pr_amount = amount, pr_asset = asset, pr_pay_to = pay_to,
           pr_max_timeout_seconds = word_of_int timeout, pr_extra = extra\<rparr>))))))))"

definition payload_of_json :: "json \<Rightarrow> PaymentPayload option" where
  "payload_of_json j =
     Option.bind (json_fields j) (\<lambda>kvs.
     Option.bind (req_field (json_as_uint 32) kvs ''x402Version'') (\<lambda>version.
     Option.bind (opt_field resource_of_json kvs ''resource'') (\<lambda>resource.
     Option.bind (req_field requirements_of_json kvs ''accepted'') (\<lambda>accepted.
     Option.bind (req_field Some kvs ''payload'') (\<lambda>payload.
     Option.bind (opt_field Some kvs ''extensions'') (\<lambda>extensions.
     Some \<lparr>pp_x402_version = word_of_int version, pp_resource = resource, pp_accepted = accepted,
           pp_payload = payload, pp_extensions = extensions\<rparr>))))))"

definition sui_of_json :: "json \<Rightarrow> SuiExactPayload option" where
  "sui_of_json j =
     Option.bind (json_fields j) (\<lambda>kvs.
     Option.bind (req_field json_as_str kvs ''signature'') (\<lambda>signature.
     Option.bind (req_field json_as_str kvs ''transaction'') (\<lambda>transaction.
     Some \<lparr>sp_signature = signature, sp_transaction = transaction\<rparr>)))"

section \<open>The session extension\<close>

definition SESSION_EXTENSION :: string where "SESSION_EXTENSION = ''sui-x402-verifier.session.v1''"

definition session_extension_advertisement :: "u64 \<Rightarrow> u64 \<Rightarrow> string \<Rightarrow> json" where
  "session_extension_advertisement quota duration_secs header =
     JObject [(SESSION_EXTENSION, JObject
       [(''info'', JObject
          [(''description'', JString ''A settled payment mints a reusable session token                                 covering many requests, returned in the                                 PAYMENT-RESPONSE extensions and presented on                                 subsequent requests.''),
           (''header'', JString header), (''quota'', json_u64 quota),
           (''durationSeconds'', json_u64 duration_secs)]),
        (''schema'', JObject
          [(''$schema'', JString ''https://json-schema.org/draft/2020-12/schema''),
           (''type'', JString ''object''), (''required'', JArray [JString ''token'']),
           (''properties'', JObject
             [(''token'', JObject [(''type'', JString ''string''),
                (''description'', JString ''Opaque session token. Present it on later                                         requests to reuse the paid tier.'')]),
              (''quota'', JObject [(''type'', JString ''integer''), (''minimum'', JNumber 0)]),
              (''durationSeconds'', JObject [(''type'', JString ''integer''), (''minimum'', JNumber 0)])])])])]"

definition session_extension_grant :: "string \<Rightarrow> u64 \<Rightarrow> u64 \<Rightarrow> json" where
  "session_extension_grant token quota duration_secs =
     JObject [(SESSION_EXTENSION, JObject
       [(''info'', JObject [(''token'', JString token), (''quota'', json_u64 quota),
          (''durationSeconds'', json_u64 duration_secs)])])]"

definition session_token_from_extensions :: "json option \<Rightarrow> string option" where
  "session_token_from_extensions extensions =
     Option.bind extensions (\<lambda>e.
     Option.bind (json_get SESSION_EXTENSION e) (\<lambda>x.
     Option.bind (json_get ''info'' x) (\<lambda>i.
     Option.bind (json_get ''token'' i) json_as_str)))"

section \<open>Header codecs\<close>

record wire =
  hashing :: crypto
  sha256 :: "bytes \<Rightarrow> bytes"
  b64_encode :: "bytes \<Rightarrow> string"
  b64_decode :: "string \<Rightarrow> string + bytes"
  sui_from_value :: "json \<Rightarrow> string + SuiExactPayload"
  payload_from_slice :: "bytes \<Rightarrow> string + PaymentPayload"
  settlement_to_vec :: "SettlementResponse \<Rightarrow> string + bytes"
  required_to_vec :: "PaymentRequired \<Rightarrow> string + bytes"
  json_to_vec :: "json \<Rightarrow> string + bytes"
  fmt_debug :: "string \<Rightarrow> string"
  utf8_lossy :: "bytes \<Rightarrow> string"

datatype HeaderDecodeError = Base64 string | Json string

fun header_error_display :: "HeaderDecodeError \<Rightarrow> string" where
  "header_error_display (Base64 e) = ''header is not valid base64: '' @ e"
| "header_error_display (Json e) = ''header is not valid JSON: '' @ e"

definition encode_header :: "wire \<Rightarrow> ('a \<Rightarrow> string + bytes) \<Rightarrow> 'a \<Rightarrow> string + string" where
  "encode_header W to_vec v = and_then (to_vec v) (\<lambda>json. Inr (b64_encode W json))"

definition decode_header :: "wire \<Rightarrow> (bytes \<Rightarrow> string + 'a) \<Rightarrow> string \<Rightarrow> HeaderDecodeError + 'a" where
  "decode_header W from_slice raw =
     (case b64_decode W (trim raw) of
        Inl e \<Rightarrow> Inl (Base64 e)
      | Inr bytes \<Rightarrow> (case from_slice bytes of Inl e \<Rightarrow> Inl (Json e) | Inr v \<Rightarrow> Inr v))"

section \<open>Errors\<close>

datatype FacilitatorError =
    VersionMismatch u32 u32
  | SchemeMismatch string string
  | NetworkMismatch string string
  | ChainMismatch string string
  | AmountMismatch string string
  | AssetMismatch string string
  | RecipientMismatch string string
  | MalformedPayload string string
  | EmptyTransaction
  | MissingSignature
  | Replay u64
  | ReplayCacheUnavailable
  | Rpc string
  | InvalidSignature string
  | SimulationFailed string
  | StaleInput string u64 "u64 option"
  | SettlementFailed string
  | InvalidRequirements string
  | AmountNotCredited string string string string
  | AuthorizationExpired u64 u64

definition debug_opt_u64 :: "u64 option \<Rightarrow> string" where
  "debug_opt_u64 v = (case v of None \<Rightarrow> ''None'' | Some n \<Rightarrow> ''Some('' @ show_u64 n @ '')'')"

fun error_display :: "wire \<Rightarrow> FacilitatorError \<Rightarrow> string" where
  "error_display W (VersionMismatch got expected) =
     ''unsupported x402 version '' @ show_nat (unat got) @ '', expected '' @ show_nat (unat expected)"
| "error_display W (SchemeMismatch got expected) =
     ''scheme mismatch: payment is '' @ fmt_debug W got @ '', resource requires '' @ fmt_debug W expected"
| "error_display W (NetworkMismatch got expected) =
     ''network mismatch: payment is '' @ fmt_debug W got @ '', resource requires '' @ fmt_debug W expected"
| "error_display W (ChainMismatch reported configured) =
     ''the fullnode reports it is serving '' @ fmt_debug W reported @ '', but sui_chain says '' @ fmt_debug W configured"
| "error_display W (AmountMismatch got expected) =
     ''amount mismatch: payment offers '' @ fmt_debug W got @ '', resource costs '' @ fmt_debug W expected"
| "error_display W (AssetMismatch got expected) =
     ''asset mismatch: payment is in '' @ fmt_debug W got @ '', resource requires '' @ fmt_debug W expected"
| "error_display W (RecipientMismatch got expected) =
     ''recipient mismatch: payment pays '' @ fmt_debug W got @ '', resource requires '' @ fmt_debug W expected"
| "error_display W (MalformedPayload scheme detail) =
     ''payment payload is not a valid '' @ scheme @ '' payload: '' @ detail"
| "error_display W EmptyTransaction = ''payment payload is missing the transaction''"
| "error_display W MissingSignature = ''payment payload carries no signature''"
| "error_display W (Replay first_seen) =
     ''this payment has already been used (first seen '' @ show_u64 first_seen @ '')''"
| "error_display W ReplayCacheUnavailable = ''the replay cache is unavailable; refusing the payment''"
| "error_display W (Rpc detail) = ''could not reach the Sui fullnode: '' @ detail"
| "error_display W (InvalidSignature detail) = ''signature is not valid over the transaction: '' @ detail"
| "error_display W (SimulationFailed detail) = ''transaction would not execute: '' @ detail"
| "error_display W (StaleInput object_id pinned current) =
     ''input object '' @ object_id @ '' is pinned at version '' @ show_u64 pinned @
     '' but the chain is at '' @ debug_opt_u64 current @
     '';          the payment authorization is no longer executable''"
| "error_display W (SettlementFailed detail) = ''settlement failed on chain: '' @ detail"
| "error_display W (InvalidRequirements detail) = ''payment requirements are unusable: '' @ detail"
| "error_display W (AmountNotCredited expected credited pay_to asset) =
     ''transaction credits '' @ pay_to @ '' with '' @ credited @ '' of '' @ asset @
     '', but the resource costs exactly '' @ expected"
| "error_display W (AuthorizationExpired first_seen window) =
     ''the payment authorization has expired (first seen '' @ show_u64 first_seen @ '', window '' @
     show_u64 window @ ''s)''"

fun error_code :: "FacilitatorError \<Rightarrow> string" where
  "error_code (VersionMismatch _ _) = ''invalid_x402_version''"
| "error_code (SchemeMismatch _ _) = ''invalid_scheme''"
| "error_code (NetworkMismatch _ _) = ''invalid_network''"
| "error_code (ChainMismatch _ _) = ''invalid_network''"
| "error_code (AmountMismatch _ _) = ''invalid_payment_requirements''"
| "error_code (AssetMismatch _ _) = ''invalid_payment_requirements''"
| "error_code (RecipientMismatch _ _) = ''invalid_payment_requirements''"
| "error_code (MalformedPayload _ _) = ''invalid_payload''"
| "error_code EmptyTransaction = ''invalid_payload''"
| "error_code MissingSignature = ''invalid_payload''"
| "error_code (Replay _) = ''invalid_transaction_state''"
| "error_code ReplayCacheUnavailable = ''unexpected_verify_error''"
| "error_code (Rpc _) = ''unexpected_verify_error''"
| "error_code (InvalidSignature _) = ''invalid_payload''"
| "error_code (SimulationFailed _) = ''invalid_transaction_state''"
| "error_code (StaleInput _ _ _) = ''invalid_transaction_state''"
| "error_code (SettlementFailed _) = ''unexpected_settle_error''"
| "error_code (InvalidRequirements _) = ''invalid_payment_requirements''"
| "error_code (AmountNotCredited _ _ _ _) = ''invalid_payment_requirements''"
| "error_code (AuthorizationExpired _ _) = ''invalid_transaction_state''"

section \<open>Payment identity\<close>

definition payment_id :: "wire \<Rightarrow> PaymentPayload \<Rightarrow> string option" where
  "payment_id W payload =
     Option.bind (r_ok (sui_from_value W (pp_payload payload))) (\<lambda>sui.
     Option.bind (r_ok (b64_decode W (trim (sp_transaction sui)))) (\<lambda>bytes.
     Some (hex_encode (hashing W) (sha256 W bytes))))"

definition stub_payer :: "wire \<Rightarrow> string \<Rightarrow> string" where
  "stub_payer W transaction_b64 =
     (let canonical = (case b64_decode W (trim transaction_b64) of
          Inl e \<Rightarrow> trim transaction_b64 | Inr bytes \<Rightarrow> bytes) in
      ''0x'' @ hex_encode (hashing W) (sha256 W canonical))"

section \<open>Facts on the wire types\<close>

lemma session_token_of_grant [simp]:
  "session_token_from_extensions (Some (session_extension_grant token quota duration_secs)) = Some token"
  by (simp add: session_token_from_extensions_def session_extension_grant_def)

lemma payment_id_Some_iff:
  "payment_id W payload = Some pid \<longleftrightarrow>
   (\<exists>sui bytes. sui_from_value W (pp_payload payload) = Inr sui \<and>
      b64_decode W (trim (sp_transaction sui)) = Inr bytes \<and> pid = hex_encode (hashing W) (sha256 W bytes))"
  by (auto simp: payment_id_def bind_eq_Some_conv)

end
