(* ===== verification/Sui.thy ===== *)
theory Sui
  imports X402
begin

text \<open>
  On-chain verification and settlement (src/sui.rs).

  The fullnode's gRPC interface, BCS and the Sui SDK types are outside the repository: they are
  the fields of \<open>fullnode\<close>, over a node state of any type \<open>'n\<close> that every call may change, so the
  chain moves freely between two calls. A transaction is what the code reads of it: sender,
  inputs and gas coins.

  \<open>logged\<close> wraps a node so that it records every call with its answer; the lemmas state the exact
  calls that verification and settlement make.
\<close>

section \<open>The fullnode\<close>

record GrpcStatus =
  gs_code :: nat
  gs_display :: string

record ObjectReference =
  or_object_id :: string
  or_version :: u64

datatype TxInput = ImmutableOrOwned ObjectReference | Receiving ObjectReference | Shared | OtherInput

datatype TransactionKind = ProgrammableTransaction "TxInput list" | OtherKind

record Transaction =
  tx_sender :: string
  tx_kind :: TransactionKind
  tx_gas_objects :: "ObjectReference list"

record VerifySignatureResponse =
  vs_is_valid :: "bool option"
  vs_reason :: "string option"

record ExecutionStatus =
  es_success :: "bool option"
  es_error :: "string option option"

record BalanceChange =
  bc_address :: "string option"
  bc_coin_type :: "string option"
  bc_amount :: "string option"

record ExecutedTransaction =
  et_digest :: "string option"
  et_effects :: "ExecutionStatus option option"
  et_balance_changes :: "BalanceChange list"

record 'n fullnode =
  fn_bcs_transaction :: "bytes \<Rightarrow> string + Transaction"
  fn_user_signature :: "bytes \<Rightarrow> string + bytes"
  fn_connect :: "string \<Rightarrow> string + unit"
  fn_verify_signature :: "bytes \<Rightarrow> bytes \<Rightarrow> string \<Rightarrow> ('n, GrpcStatus, VerifySignatureResponse) eff"
  fn_simulate :: "bytes \<Rightarrow> ('n, GrpcStatus, ExecutedTransaction option) eff"
  fn_get_object :: "string \<Rightarrow> ('n, GrpcStatus, u64 option option) eff"
  fn_execute :: "bytes \<Rightarrow> bytes \<Rightarrow> ('n, GrpcStatus, ExecutedTransaction option) eff"
  fn_service_chain :: "('n, GrpcStatus, string option) eff"

definition GRPC_NOT_FOUND :: nat where "GRPC_NOT_FOUND = 5"

section \<open>Model\<close>

record VerifiedPayment =
  vp_payer :: string
  vp_digest :: string

record SuiVerifier =
  sv_network :: string

definition sui_connect :: "'n fullnode \<Rightarrow> string \<Rightarrow> string \<Rightarrow> FacilitatorError + SuiVerifier" where
  "sui_connect N grpc_url network =
     (case fn_connect N grpc_url of
        Inl e \<Rightarrow> Inl (Rpc (''connecting to '' @ grpc_url @ '': '' @ e))
      | Inr _ \<Rightarrow> Inr \<lparr>sv_network = network\<rparr>)"

definition sui_decode :: "wire \<Rightarrow> SuiExactPayload \<Rightarrow> FacilitatorError + bytes \<times> bytes" where
  "sui_decode W payload =
     (case b64_decode W (trim (sp_transaction payload)) of
        Inl e \<Rightarrow> Inl (MalformedPayload ''exact'' (''transaction is not valid base64: '' @ e))
      | Inr transaction \<Rightarrow>
          (case b64_decode W (trim (sp_signature payload)) of
             Inl e \<Rightarrow> Inl (MalformedPayload ''exact'' (''signature is not valid base64: '' @ e))
           | Inr signature \<Rightarrow> Inr (transaction, signature)))"

definition parse_signature :: "'n fullnode \<Rightarrow> bytes \<Rightarrow> FacilitatorError + bytes" where
  "parse_signature N signature_bytes =
     (case fn_user_signature N signature_bytes of
        Inl e \<Rightarrow> Inl (MalformedPayload ''exact'' (''signature is not a valid Sui user signature: '' @ e))
      | Inr signature \<Rightarrow> Inr signature)"

text \<open>The failure a reported status stands for, if it stands for one.\<close>

definition status_failure :: "string \<Rightarrow> ExecutedTransaction \<Rightarrow> string option" where
  "status_failure dflt executed =
     (case et_effects executed of
        Some (Some status) \<Rightarrow>
          if es_success status \<noteq> Some True
          then Some (case Option.bind (es_error status) (\<lambda>e. e) of None \<Rightarrow> dflt | Some d \<Rightarrow> d)
          else None
      | _ \<Rightarrow> None)"

definition wrap_i128 :: "int \<Rightarrow> int" where
  "wrap_i128 x = (x + 2 ^ 127) mod 2 ^ 128 - 2 ^ 127"

definition credited_amounts :: "BalanceChange list \<Rightarrow> PaymentRequirements \<Rightarrow> int list" where
  "credited_amounts balance_changes requirements =
     List.map_filter (\<lambda>change.
       if bc_address change = Some (pr_pay_to requirements) \<and> bc_coin_type change = Some (pr_asset requirements)
       then Option.bind (bc_amount change) (parse_signed 128) else None) balance_changes"

definition assert_credits :: "wire \<Rightarrow> BalanceChange list \<Rightarrow> PaymentRequirements \<Rightarrow> FacilitatorError + unit" where
  "assert_credits W balance_changes requirements =
     (case parse_signed 128 (pr_amount requirements) of
        None \<Rightarrow> Inl (InvalidRequirements (''amount '' @ fmt_debug W (pr_amount requirements) @ '' is not an integer''))
      | Some expected \<Rightarrow>
          (let credited = foldl (\<lambda>acc v. wrap_i128 (acc + v)) 0 (credited_amounts balance_changes requirements) in
           if credited \<noteq> expected
           then Inl (AmountNotCredited (pr_amount requirements) (show_int credited)
                  (pr_pay_to requirements) (pr_asset requirements))
           else Inr ()))"

fun pinned_input :: "TxInput \<Rightarrow> (string \<times> u64) option" where
  "pinned_input (ImmutableOrOwned r) = Some (or_object_id r, or_version r)"
| "pinned_input (Receiving r) = Some (or_object_id r, or_version r)"
| "pinned_input Shared = None"
| "pinned_input OtherInput = None"

definition pinned_objects :: "Transaction \<Rightarrow> (string \<times> u64) list" where
  "pinned_objects transaction =
     (case tx_kind transaction of
        ProgrammableTransaction inputs \<Rightarrow> List.map_filter pinned_input inputs
      | OtherKind \<Rightarrow> []) @
     map (\<lambda>r. (or_object_id r, or_version r)) (tx_gas_objects transaction)"

definition assert_input_is_live :: "'n fullnode \<Rightarrow> string \<times> u64 \<Rightarrow> ('n, FacilitatorError, unit) eff" where
  "assert_input_is_live N pinned n =
     (let (object_id, version) = pinned;
          (response, n1) = fn_get_object N object_id n in
      case (case response of
              Inr object \<Rightarrow> Inr (Option.bind object (\<lambda>v. v))
            | Inl status \<Rightarrow>
                if gs_code status = GRPC_NOT_FOUND then Inr None
                else Inl (Rpc (''GetObject('' @ object_id @ ''): '' @ gs_display status))) of
        Inl e \<Rightarrow> (Inl e, n1)
      | Inr current \<Rightarrow>
          if current = Some version then (Inr (), n1) else (Inl (StaleInput object_id version current), n1))"

definition assert_inputs_are_live :: "'n fullnode \<Rightarrow> Transaction \<Rightarrow> ('n, FacilitatorError, unit) eff" where
  "assert_inputs_are_live N transaction = eff_for_each (assert_input_is_live N) (pinned_objects transaction)"

definition sui_verify ::
  "'n fullnode \<Rightarrow> wire \<Rightarrow> SuiExactPayload \<Rightarrow> PaymentRequirements \<Rightarrow> ('n, FacilitatorError, VerifiedPayment) eff" where
  "sui_verify N W payload requirements =
     eff_bind (eff_lift (sui_decode W payload)) (\<lambda>(transaction_bytes, signature_bytes).
     eff_bind (eff_lift (case fn_bcs_transaction N transaction_bytes of
         Inl e \<Rightarrow> Inl (MalformedPayload ''exact'' (''transaction is not valid BCS TransactionData: '' @ e))
       | Inr transaction \<Rightarrow> Inr transaction)) (\<lambda>transaction.
     let sender = tx_sender transaction in
     eff_bind (eff_lift (parse_signature N signature_bytes)) (\<lambda>signature.
     eff_bind (eff_map_err (\<lambda>e. Rpc (''VerifySignature: '' @ gs_display e))
       (fn_verify_signature N transaction_bytes signature sender)) (\<lambda>response.
     if vs_is_valid response \<noteq> Some True
     then eff_fail (InvalidSignature
       (case vs_reason response of None \<Rightarrow> ''signature did not verify'' | Some r \<Rightarrow> r))
     else
     eff_bind (eff_map_err (\<lambda>e. Rpc (''SimulateTransaction: '' @ gs_display e))
       (fn_simulate N transaction_bytes)) (\<lambda>simulation.
     eff_bind (eff_lift (ok_or (SimulationFailed ''simulation returned no transaction'') simulation)) (\<lambda>executed.
     case status_failure ''transaction would not succeed'' executed of
       Some detail \<Rightarrow> eff_fail (SimulationFailed detail)
     | None \<Rightarrow>
         eff_bind (assert_inputs_are_live N transaction) (\<lambda>_.
         eff_bind (eff_lift (assert_credits W (et_balance_changes executed) requirements)) (\<lambda>_.
         eff_return \<lparr>vp_payer = sender,
           vp_digest = (case et_digest executed of None \<Rightarrow> [] | Some d \<Rightarrow> d)\<rparr>))))))))"

definition sui_settle :: "'n fullnode \<Rightarrow> wire \<Rightarrow> SuiExactPayload \<Rightarrow> ('n, FacilitatorError, string) eff" where
  "sui_settle N W payload =
     eff_bind (eff_lift (sui_decode W payload)) (\<lambda>(transaction_bytes, signature_bytes).
     eff_bind (eff_lift (parse_signature N signature_bytes)) (\<lambda>signature.
     eff_bind (eff_map_err (\<lambda>e. SettlementFailed (''ExecuteTransaction: '' @ gs_display e))
       (fn_execute N transaction_bytes signature)) (\<lambda>response.
     eff_bind (eff_lift (ok_or (SettlementFailed ''execution returned no transaction'') response)) (\<lambda>executed.
     case status_failure ''transaction failed on chain'' executed of
       Some detail \<Rightarrow> eff_fail (SettlementFailed detail)
     | None \<Rightarrow> eff_return (case et_digest executed of None \<Rightarrow> [] | Some d \<Rightarrow> d)))))"

datatype ChainCheck = Matches | NotReported

definition check_chain :: "string \<Rightarrow> string option \<Rightarrow> FacilitatorError + ChainCheck" where
  "check_chain configured reported =
     (case reported of
        None \<Rightarrow> Inr NotReported
      | Some r \<Rightarrow>
          (let reported = trim r in
           if reported = [] then Inr NotReported
           else if eq_ignore_ascii_case reported (trim configured) then Inr Matches
           else Inl (ChainMismatch reported configured)))"

definition reported_chain :: "'n fullnode \<Rightarrow> ('n, FacilitatorError, string option) eff" where
  "reported_chain N = eff_map_err (\<lambda>e. Rpc (''GetServiceInfo: '' @ gs_display e)) (fn_service_chain N)"

section \<open>Recording the calls\<close>

datatype node_call =
    VerifySignatureCall bytes bytes string "GrpcStatus + VerifySignatureResponse"
  | SimulateCall bytes "GrpcStatus + ExecutedTransaction option"
  | GetObjectCall string "GrpcStatus + u64 option option"
  | ExecuteCall bytes bytes "GrpcStatus + ExecutedTransaction option"
  | ServiceInfoCall "GrpcStatus + string option"

definition log_call ::
  "('n, GrpcStatus, 'a) eff \<Rightarrow> (GrpcStatus + 'a \<Rightarrow> node_call) \<Rightarrow> ('n \<times> node_call list, GrpcStatus, 'a) eff" where
  "log_call f mk s = (case f (fst s) of (r, n1) \<Rightarrow> (r, n1, snd s @ [mk r]))"

definition logged :: "'n fullnode \<Rightarrow> ('n \<times> node_call list) fullnode" where
  "logged N =
     \<lparr>fn_bcs_transaction = fn_bcs_transaction N, fn_user_signature = fn_user_signature N,
      fn_connect = fn_connect N,
      fn_verify_signature = (\<lambda>m g a. log_call (fn_verify_signature N m g a) (VerifySignatureCall m g a)),
      fn_simulate = (\<lambda>m. log_call (fn_simulate N m) (SimulateCall m)),
      fn_get_object = (\<lambda>i. log_call (fn_get_object N i) (GetObjectCall i)),
      fn_execute = (\<lambda>m g. log_call (fn_execute N m g) (ExecuteCall m g)),
      fn_service_chain = log_call (fn_service_chain N) ServiceInfoCall\<rparr>"

lemma logged_simps [simp]:
  "fn_bcs_transaction (logged N) = fn_bcs_transaction N"
  "fn_user_signature (logged N) = fn_user_signature N"
  "fn_verify_signature (logged N) m g a = log_call (fn_verify_signature N m g a) (VerifySignatureCall m g a)"
  "fn_simulate (logged N) m = log_call (fn_simulate N m) (SimulateCall m)"
  "fn_get_object (logged N) i = log_call (fn_get_object N i) (GetObjectCall i)"
  "fn_execute (logged N) m g = log_call (fn_execute N m g) (ExecuteCall m g)"
  "parse_signature (logged N) sg = parse_signature N sg"
  by (simp_all add: logged_def parse_signature_def)

lemma log_callE:
  assumes "log_call f mk s = (r, s')"
  obtains "snd s' = snd s @ [mk r]" "f (fst s) = (r, fst s')"
  using assms by (auto simp: log_call_def split: prod.splits)

text \<open>Calls that only read.\<close>

fun is_execute :: "node_call \<Rightarrow> bool" where
  "is_execute (ExecuteCall m g r) = True"
| "is_execute _ = False"

section \<open>Facts on the checks\<close>

lemma wrap_i128_small: "- (2 ^ 127) \<le> x \<Longrightarrow> x < 2 ^ 127 \<Longrightarrow> wrap_i128 x = x"
  by (simp add: wrap_i128_def)

lemma wrap_i128_add_left: "wrap_i128 (wrap_i128 x + y) = wrap_i128 (x + y)"
proof -
  have "((x + 2 ^ 127) mod 2 ^ 128 - 2 ^ 127 + y + 2 ^ 127) mod 2 ^ 128 = (x + y + 2 ^ 127) mod (2 ^ 128 :: int)"
    by (simp add: mod_simps algebra_simps)
  then show ?thesis by (simp add: wrap_i128_def)
qed

lemma wrapped_sum: "foldl (\<lambda>acc v. wrap_i128 (acc + v)) a vs = (if vs = [] then a else wrap_i128 (a + sum_list vs))"
  by (induction vs arbitrary: a) (auto simp: wrap_i128_add_left add.assoc)

lemma parse_signed_bound: "parse_signed 128 s = Some v \<Longrightarrow> - (2 ^ 127) \<le> v \<and> v < 2 ^ 127"
proof -
  assume "parse_signed 128 s = Some v"
  then consider n :: nat where "v = - int n" "n \<le> 2 ^ 127" | n :: nat where "v = int n" "n < 2 ^ 127"
    by (auto simp: parse_signed_def parse_unsigned_def split: list.splits option.splits if_splits char.splits bool.splits)
  then show ?thesis
  proof cases
    case 1
    then have "int n \<le> 2 ^ 127" by (metis of_nat_le_iff of_nat_numeral of_nat_power)
    with 1 show ?thesis by simp
  next
    case 2
    then have "int n < 2 ^ 127" by (metis of_nat_less_iff of_nat_numeral of_nat_power)
    with 2 show ?thesis by simp
  qed
qed

text \<open>The sum of what the recipient is credited with, before any wrap-around.\<close>

definition credited_total :: "BalanceChange list \<Rightarrow> PaymentRequirements \<Rightarrow> int" where
  "credited_total balance_changes requirements = sum_list (credited_amounts balance_changes requirements)"

lemma assert_credits_ok_iff:
  "assert_credits W bc req = Inr () \<longleftrightarrow>
   (\<exists>expected. parse_signed 128 (pr_amount req) = Some expected \<and> wrap_i128 (credited_total bc req) = expected)"
  by (auto simp: assert_credits_def Let_def wrapped_sum credited_total_def wrap_i128_small split: option.splits)

lemma input_is_live_logged:
  assumes "assert_input_is_live (logged N) p s = (r, s')"
  shows "\<exists>resp. snd s' = snd s @ [GetObjectCall (fst p) resp]"
    "r = Inr () \<Longrightarrow> snd s' = snd s @ [GetObjectCall (fst p) (Inr (Some (Some (snd p))))]"
  using assms
  by (auto simp: assert_input_is_live_def Let_def log_call_def bind_eq_Some_conv
      split: prod.splits sum.splits if_splits option.splits)

lemma inputs_are_live_logged:
  assumes "eff_for_each (assert_input_is_live (logged N)) ps s = (r, s')"
  shows "\<exists>calls. snd s' = snd s @ calls \<and> (\<forall>c \<in> set calls. \<not> is_execute c) \<and>
    (r = Inr () \<longrightarrow> calls = map (\<lambda>(i, v). GetObjectCall i (Inr (Some (Some v)))) ps)"
  using assms
proof (induction ps arbitrary: s)
  case (Cons p ps)
  obtain r1 s1 where one: "assert_input_is_live (logged N) p s = (r1, s1)"
    by (cases "assert_input_is_live (logged N) p s")
  note first = input_is_live_logged[OF one]
  show ?case
  proof (cases r1)
    case (Inl e)
    with Cons.prems one first(1) show ?thesis by (auto simp: eff_bind_def)
  next
    case (Inr u)
    with Cons.prems one have "eff_for_each (assert_input_is_live (logged N)) ps s1 = (r, s')"
      by (simp add: eff_bind_def)
    from Cons.IH[OF this] first(2) Inr show ?thesis by (cases p) auto
  qed
qed simp


text \<open>An effect that makes no execute call.\<close>

definition reads_only :: "('n \<times> node_call list, 'e, 'a) eff \<Rightarrow> bool" where
  "reads_only m \<longleftrightarrow> (\<forall>s r s'. m s = (r, s') \<longrightarrow>
     (\<exists>calls. snd s' = snd s @ calls \<and> (\<forall>c \<in> set calls. \<not> is_execute c)))"

lemma reads_only_simple [simp, intro]:
  "reads_only (eff_return a)" "reads_only (eff_fail e)" "reads_only (eff_lift x)"
  by (auto simp: reads_only_def)

lemma reads_only_bind [intro]:
  assumes "reads_only m" "\<And>a. reads_only (f a)"
  shows "reads_only (eff_bind m f)"
  unfolding reads_only_def
proof (intro allI impI)
  fix s r s'
  assume run: "eff_bind m f s = (r, s')"
  obtain x s1 where m: "m s = (x, s1)" by (cases "m s")
  from assms(1) m obtain c1 where c1: "snd s1 = snd s @ c1" "\<forall>c \<in> set c1. \<not> is_execute c"
    unfolding reads_only_def by blast
  show "\<exists>calls. snd s' = snd s @ calls \<and> (\<forall>c \<in> set calls. \<not> is_execute c)"
  proof (cases x)
    case (Inl e)
    with run m c1 show ?thesis by (auto simp: eff_bind_def)
  next
    case (Inr a)
    with run m have "f a s1 = (r, s')" by (simp add: eff_bind_def)
    with assms(2)[of a] obtain c2 where "snd s' = snd s1 @ c2" "\<forall>c \<in> set c2. \<not> is_execute c"
      unfolding reads_only_def by blast
    with c1 show ?thesis by (intro exI[of _ "c1 @ c2"]) auto
  qed
qed

lemma reads_only_map_err [intro]: "reads_only m \<Longrightarrow> reads_only (eff_map_err h m)"
  unfolding reads_only_def eff_map_err_def by (fastforce split: prod.splits sum.splits)

lemma reads_only_log_call [intro]: "(\<And>r. \<not> is_execute (mk r)) \<Longrightarrow> reads_only (log_call f mk)"
  by (auto simp: reads_only_def elim!: log_callE)

lemma reads_only_inputs [intro]: "reads_only (assert_inputs_are_live (logged N) tx)"
  unfolding reads_only_def assert_inputs_are_live_def using inputs_are_live_logged by blast

lemma reads_only_sui_verify: "reads_only (sui_verify (logged N) W payload req)"
  unfolding sui_verify_def Let_def
  by (auto intro!: reads_only_bind reads_only_map_err reads_only_log_call reads_only_inputs split: option.splits)

text \<open>The node did not report a failure.\<close>

definition status_ok :: "ExecutedTransaction \<Rightarrow> bool" where
  "status_ok ex \<longleftrightarrow> (\<forall>status. et_effects ex = Some (Some status) \<longrightarrow> es_success status = Some True)"

lemma status_failure_None: "status_failure d ex = None \<longleftrightarrow> status_ok ex"
  by (auto simp: status_failure_def status_ok_def split: option.splits)

text \<open>The calls and answers of a verification that passes.\<close>

definition passing_checks ::
  "'n fullnode \<Rightarrow> wire \<Rightarrow> SuiExactPayload \<Rightarrow> PaymentRequirements \<Rightarrow> VerifiedPayment \<Rightarrow> bytes \<Rightarrow> bytes
    \<Rightarrow> node_call list \<Rightarrow> bool" where
  "passing_checks N W payload req vp tx sg calls \<longleftrightarrow>
     (\<exists>sgb T vs ex expected.
        sui_decode W payload = Inr (tx, sgb) \<and> fn_bcs_transaction N tx = Inr T \<and> parse_signature N sgb = Inr sg \<and>
        calls = [VerifySignatureCall tx sg (tx_sender T) (Inr vs), SimulateCall tx (Inr (Some ex))] @
          map (\<lambda>(i, v). GetObjectCall i (Inr (Some (Some v)))) (pinned_objects T) \<and>
        vs_is_valid vs = Some True \<and> status_ok ex \<and>
        parse_signed 128 (pr_amount req) = Some expected \<and>
        wrap_i128 (credited_total (et_balance_changes ex) req) = expected \<and>
        vp = \<lparr>vp_payer = tx_sender T, vp_digest = (case et_digest ex of None \<Rightarrow> [] | Some d \<Rightarrow> d)\<rparr>)"

lemma passing_checks_reads: "passing_checks N W payload req vp tx sg calls \<Longrightarrow> \<forall>c \<in> set calls. \<not> is_execute c"
  by (auto simp: passing_checks_def)

lemma sui_verify_passes:
  assumes "sui_verify (logged N) W payload req s = (Inr vp, s')"
  shows "\<exists>tx sg calls. passing_checks N W payload req vp tx sg calls \<and> snd s' = snd s @ calls"
proof -
  from assms obtain tx sgb T sg vs ex s1 s2 where
    d: "sui_decode W payload = Inr (tx, sgb)" "fn_bcs_transaction N tx = Inr T" "parse_signature N sgb = Inr sg"
    and v: "log_call (fn_verify_signature N tx sg (tx_sender T)) (VerifySignatureCall tx sg (tx_sender T)) s = (Inr vs, s1)"
      "vs_is_valid vs = Some True"
    and e: "log_call (fn_simulate N tx) (SimulateCall tx) s1 = (Inr (Some ex), s2)" "status_ok ex"
    and l: "assert_inputs_are_live (logged N) T s2 = (Inr (), s')"
    and c: "assert_credits W (et_balance_changes ex) req = Inr ()"
    and vp: "vp = \<lparr>vp_payer = tx_sender T, vp_digest = (case et_digest ex of None \<Rightarrow> [] | Some d \<Rightarrow> d)\<rparr>"
    by (auto simp: sui_verify_def Let_def status_failure_None)
  have "snd s1 = snd s @ [VerifySignatureCall tx sg (tx_sender T) (Inr vs)]"
    "snd s2 = snd s1 @ [SimulateCall tx (Inr (Some ex))]"
    using v(1) e(1) by (auto elim!: log_callE)
  moreover have "snd s' = snd s2 @ map (\<lambda>(i, v). GetObjectCall i (Inr (Some (Some v)))) (pinned_objects T)"
    using inputs_are_live_logged[OF l[unfolded assert_inputs_are_live_def]] by auto
  ultimately show ?thesis
    using d v(2) e(2) c vp unfolding passing_checks_def assert_credits_ok_iff
    by (intro exI[of _ tx] exI[of _ sg] exI[of _ "drop (length (snd s)) (snd s')"]) auto
qed

text \<open>The answer of an execute call that reports no failure.\<close>

definition executed_ok :: "GrpcStatus + ExecutedTransaction option \<Rightarrow> bool" where
  "executed_ok resp \<longleftrightarrow> (case resp of Inr (Some ex) \<Rightarrow> status_ok ex | _ \<Rightarrow> False)"

lemma sui_settle_calls:
  assumes "sui_settle (logged N) W payload s = (r, s')"
  shows "snd s' = snd s \<and> (\<exists>e. r = Inl e) \<or>
    (\<exists>tx sgb sg resp. sui_decode W payload = Inr (tx, sgb) \<and> parse_signature N sgb = Inr sg \<and>
      snd s' = snd s @ [ExecuteCall tx sg resp] \<and> (executed_ok resp \<longrightarrow> (\<exists>d. r = Inr d)) \<and>
      (\<forall>d. r = Inr d \<longrightarrow> (\<exists>ex. resp = Inr (Some ex) \<and> status_ok ex \<and>
         d = (case et_digest ex of None \<Rightarrow> [] | Some d \<Rightarrow> d))))"
proof (cases "\<exists>tx sgb sg. sui_decode W payload = Inr (tx, sgb) \<and> parse_signature N sgb = Inr sg")
  case False
  then show ?thesis
    using assms by (auto simp: sui_settle_def eff_bind_def eff_lift_def split: sum.splits dest: sym)
next
  case True
  then obtain tx sgb sg where d: "sui_decode W payload = Inr (tx, sgb)" "parse_signature N sgb = Inr sg" by blast
  obtain resp n1 where x: "fn_execute N tx sg (fst s) = (resp, n1)" by (cases "fn_execute N tx sg (fst s)")
  have "snd s' = snd s @ [ExecuteCall tx sg resp] \<and> (executed_ok resp \<longrightarrow> (\<exists>d. r = Inr d)) \<and>
      (\<forall>d. r = Inr d \<longrightarrow> (\<exists>ex. resp = Inr (Some ex) \<and> status_ok ex \<and>
         d = (case et_digest ex of None \<Rightarrow> [] | Some d \<Rightarrow> d)))"
    using assms d x
    by (auto simp: sui_settle_def eff_bind_def eff_lift_def eff_map_err_def log_call_def eff_fail_def
        eff_return_def executed_ok_def status_failure_None[of "''transaction failed on chain''", symmetric]
        split: sum.splits option.splits prod.splits)
  with d show ?thesis by (intro disjI2 exI[of _ tx] exI[of _ sgb] exI[of _ sg] exI[of _ resp]) simp
qed

end
