(* ===== verification/Facilitator.thy ===== *)
theory Facilitator
  imports Sui
begin

text \<open>
  The facilitator (second half of src/x402.rs): the checks every payment passes in either mode,
  verification, settlement and receipts.

  The properties state, over the recorded calls of any fullnode, that nothing is broadcast
  unless every check passed for those very bytes, and that a receipt reports what happened.
\<close>

section \<open>Model\<close>

record Facilitator =
  fac_mode :: VerificationMode
  fac_network :: string
  fac_sui :: "SuiVerifier option"

definition facilitator_new ::
  "'n fullnode \<Rightarrow> VerificationMode \<Rightarrow> string \<Rightarrow> string \<Rightarrow> FacilitatorError + Facilitator" where
  "facilitator_new N mode grpc_url network =
     (case mode of
        StubAcceptAll \<Rightarrow> Inr \<lparr>fac_mode = mode, fac_network = network, fac_sui = None\<rparr>
      | SuiGrpc \<Rightarrow> and_then (sui_connect N grpc_url network)
          (\<lambda>sui. Inr \<lparr>fac_mode = mode, fac_network = network, fac_sui = Some sui\<rparr>))"

definition verify_chain :: "'n fullnode \<Rightarrow> Facilitator \<Rightarrow> string \<Rightarrow> ('n, FacilitatorError, ChainCheck) eff" where
  "verify_chain N F expected =
     (case fac_sui F of
        None \<Rightarrow> eff_return NotReported
      | Some sui \<Rightarrow> eff_bind (reported_chain N) (\<lambda>reported. eff_lift (check_chain expected reported)))"

definition check_terms ::
  "wire \<Rightarrow> Facilitator \<Rightarrow> PaymentPayload \<Rightarrow> PaymentRequirements \<Rightarrow> FacilitatorError + SuiExactPayload" where
  "check_terms W F payload requirements =
     (let accepted = pp_accepted payload in
      if pr_network requirements \<noteq> fac_network F
      then Inl (NetworkMismatch (pr_network requirements) (fac_network F))
      else if pp_x402_version payload \<noteq> X402_VERSION
      then Inl (VersionMismatch (pp_x402_version payload) X402_VERSION)
      else if pr_scheme accepted \<noteq> pr_scheme requirements
      then Inl (SchemeMismatch (pr_scheme accepted) (pr_scheme requirements))
      else if pr_network accepted \<noteq> pr_network requirements
      then Inl (NetworkMismatch (pr_network accepted) (pr_network requirements))
      else if pr_amount accepted \<noteq> pr_amount requirements
      then Inl (AmountMismatch (pr_amount accepted) (pr_amount requirements))
      else if pr_asset accepted \<noteq> pr_asset requirements
      then Inl (AssetMismatch (pr_asset accepted) (pr_asset requirements))
      else if pr_pay_to accepted \<noteq> pr_pay_to requirements
      then Inl (RecipientMismatch (pr_pay_to accepted) (pr_pay_to requirements))
      else case sui_from_value W (pp_payload payload) of
        Inl e \<Rightarrow> Inl (MalformedPayload (pr_scheme requirements) e)
      | Inr sui \<Rightarrow>
          if trim (sp_transaction sui) = [] then Inl EmptyTransaction
          else if trim (sp_signature sui) = [] then Inl MissingSignature
          else Inr sui)"

definition NO_CLIENT :: FacilitatorError where
  "NO_CLIENT = Rpc ''sui-grpc mode selected but no fullnode client was built''"

definition facilitator_verify ::
  "'n fullnode \<Rightarrow> wire \<Rightarrow> Facilitator \<Rightarrow> PaymentPayload \<Rightarrow> PaymentRequirements \<Rightarrow> ('n, FacilitatorError, string) eff" where
  "facilitator_verify N W F payload requirements =
     eff_bind (eff_lift (check_terms W F payload requirements)) (\<lambda>sui.
       case (fac_mode F, fac_sui F) of
         (StubAcceptAll, _) \<Rightarrow> eff_return (stub_payer W (sp_transaction sui))
       | (SuiGrpc, Some verifier) \<Rightarrow>
           eff_bind (sui_verify N W sui requirements) (\<lambda>verified. eff_return (vp_payer verified))
       | (SuiGrpc, None) \<Rightarrow> eff_fail NO_CLIENT)"

definition facilitator_settle ::
  "'n fullnode \<Rightarrow> wire \<Rightarrow> Facilitator \<Rightarrow> PaymentPayload \<Rightarrow> PaymentRequirements
    \<Rightarrow> ('n, FacilitatorError, SettlementResponse) eff" where
  "facilitator_settle N W F payload requirements =
     eff_bind (eff_lift (check_terms W F payload requirements)) (\<lambda>sui.
       case fac_mode F of
         StubAcceptAll \<Rightarrow>
           eff_return \<lparr>sr_success = True, sr_error_reason = None,
             sr_payer = Some (stub_payer W (sp_transaction sui)),
             sr_transaction = ''stub-not-settled-on-chain'', sr_network = fac_network F,
             sr_amount = Some (pr_amount requirements), sr_extensions = None\<rparr>
       | SuiGrpc \<Rightarrow>
           eff_bind (eff_lift (ok_or NO_CLIENT (fac_sui F))) (\<lambda>verifier.
           eff_bind (sui_verify N W sui requirements) (\<lambda>verified.
           eff_bind (sui_settle N W sui) (\<lambda>digest.
           eff_return \<lparr>sr_success = True, sr_error_reason = None, sr_payer = Some (vp_payer verified),
             sr_transaction = digest, sr_network = fac_network F,
             sr_amount = Some (pr_amount requirements), sr_extensions = None\<rparr>))))"

definition verify_and_settle ::
  "'n fullnode \<Rightarrow> wire \<Rightarrow> Facilitator \<Rightarrow> PaymentPayload \<Rightarrow> PaymentRequirements
    \<Rightarrow> ('n, FacilitatorError, SettlementResponse) eff" where
  "verify_and_settle N W F payload requirements = facilitator_settle N W F payload requirements"

definition failure_receipt :: "Facilitator \<Rightarrow> string \<Rightarrow> SettlementResponse" where
  "failure_receipt F code =
     \<lparr>sr_success = False, sr_error_reason = Some code, sr_payer = None, sr_transaction = [],
      sr_network = fac_network F, sr_amount = None, sr_extensions = None\<rparr>"

definition supported :: "Facilitator \<Rightarrow> SupportedResponse" where
  "supported F =
     \<lparr>sup_kinds = [\<lparr>sk_x402_version = X402_VERSION, sk_scheme = ''exact'', sk_network = fac_network F,
        sk_extra = None\<rparr>],
      sup_extensions = [SESSION_EXTENSION], sup_signers = []\<rparr>"

section \<open>Facts on the checks\<close>

text \<open>The fields of the accepted terms that must be the advertised ones.\<close>

definition terms_agree :: "Facilitator \<Rightarrow> PaymentPayload \<Rightarrow> PaymentRequirements \<Rightarrow> bool" where
  "terms_agree F payload req \<longleftrightarrow>
     pr_network req = fac_network F \<and> pp_x402_version payload = 2 \<and>
     pr_scheme (pp_accepted payload) = pr_scheme req \<and> pr_network (pp_accepted payload) = pr_network req \<and>
     pr_amount (pp_accepted payload) = pr_amount req \<and> pr_asset (pp_accepted payload) = pr_asset req \<and>
     pr_pay_to (pp_accepted payload) = pr_pay_to req"

lemma check_terms_ok_iff:
  "check_terms W F payload req = Inr sui \<longleftrightarrow>
   terms_agree F payload req \<and> sui_from_value W (pp_payload payload) = Inr sui \<and>
   trim (sp_transaction sui) \<noteq> [] \<and> trim (sp_signature sui) \<noteq> []"
  by (auto simp: check_terms_def terms_agree_def Let_def X402_VERSION_def split: sum.splits)

lemma reads_only_facilitator_verify: "reads_only (facilitator_verify (logged N) W F payload req)"
  unfolding facilitator_verify_def
  by (auto intro!: reads_only_bind reads_only_sui_verify split: VerificationMode.splits option.splits)

lemma payment_id_of_decoded:
  assumes "sui_from_value W (pp_payload payload) = Inr sui" "sui_decode W sui = Inr (tx, sgb)"
  shows "payment_id W payload = Some (hex_encode (hashing W) (sha256 W tx))"
  using assms by (auto simp: payment_id_Some_iff sui_decode_def split: sum.splits)

text \<open>Settlement after the verification has passed: an execute call is made, or the bytes cannot be read.\<close>

lemma facilitator_settle_verified:
  assumes settle: "facilitator_settle (logged N) W F payload req s = (r, s')"
    and terms: "check_terms W F payload req = Inr sui" and grpc: "fac_mode F = SuiGrpc" "fac_sui F = Some v"
    and verified: "sui_verify (logged N) W sui req s = (Inr vp, s1)"
  shows "(\<exists>calls. snd s' = snd s @ calls \<and> (\<forall>c \<in> set calls. \<not> is_execute c) \<and>
        (\<forall>sr. r = Inr sr \<longrightarrow> fac_mode F = StubAcceptAll)) \<or>
     (\<exists>sui vp tx sg checks resp. fac_mode F = SuiGrpc \<and> check_terms W F payload req = Inr sui \<and>
        passing_checks N W sui req vp tx sg checks \<and> snd s' = snd s @ checks @ [ExecuteCall tx sg resp] \<and>
        (executed_ok resp \<longrightarrow> (\<exists>sr. r = Inr sr)) \<and>
        (\<forall>sr. r = Inr sr \<longrightarrow> (\<exists>ex. resp = Inr (Some ex) \<and> status_ok ex \<and> sr_payer sr = Some (vp_payer vp) \<and>
           sr_transaction sr = (case et_digest ex of None \<Rightarrow> [] | Some d \<Rightarrow> d) \<and>
           sr_amount sr = Some (pr_amount req) \<and> sr_success sr)))"
proof -
  from verified sui_verify_passes obtain tx sg checks where
    c: "passing_checks N W sui req vp tx sg checks" "snd s1 = snd s @ checks" by metis
  obtain d s2 where d: "sui_settle (logged N) W sui s1 = (d, s2)" by (cases "sui_settle (logged N) W sui s1")
  have s2: "s' = s2" using settle terms grpc verified d
    by (auto simp: facilitator_settle_def eff_bind_def eff_lift_def eff_return_def split: sum.splits)
  have r: "\<exists>dg. d = Inr dg \<and> sr_transaction sr = dg \<and> sr_payer sr = Some (vp_payer vp) \<and>
      sr_amount sr = Some (pr_amount req) \<and> sr_success sr" if "r = Inr sr" for sr
    using settle terms grpc verified d that
    by (auto simp: facilitator_settle_def)
  have r': "\<exists>sr. r = Inr sr" if "d = Inr dg" for dg
    using settle terms grpc verified d that
    by (auto simp: facilitator_settle_def eff_bind_def eff_lift_def eff_return_def)
  from c(1) obtain sgb where dec: "sui_decode W sui = Inr (tx, sgb)" "parse_signature N sgb = Inr sg"
    unfolding passing_checks_def by blast
  from sui_settle_calls[OF d] dec show ?thesis
  proof (elim disjE)
    assume "snd s2 = snd s1 \<and> (\<exists>e. d = Inl e)"
    moreover have "\<forall>c \<in> set checks. \<not> is_execute c" using c(1) by (rule passing_checks_reads)
    ultimately show ?thesis using c(2) r s2 by force
  next
    assume "\<exists>tx sgb sg resp. sui_decode W sui = Inr (tx, sgb) \<and> parse_signature N sgb = Inr sg \<and>
      snd s2 = snd s1 @ [ExecuteCall tx sg resp] \<and> (executed_ok resp \<longrightarrow> (\<exists>d'. d = Inr d')) \<and>
      (\<forall>d'. d = Inr d' \<longrightarrow> (\<exists>ex. resp = Inr (Some ex) \<and> status_ok ex \<and>
         d' = (case et_digest ex of None \<Rightarrow> [] | Some d \<Rightarrow> d)))"
    then obtain resp where e: "snd s' = snd s @ checks @ [ExecuteCall tx sg resp]" "executed_ok resp \<longrightarrow> (\<exists>d'. d = Inr d')"
      "\<forall>d'. d = Inr d' \<longrightarrow> (\<exists>ex. resp = Inr (Some ex) \<and> status_ok ex \<and>
         d' = (case et_digest ex of None \<Rightarrow> [] | Some d \<Rightarrow> d))"
      using dec c(2) s2 by auto
    have "executed_ok resp \<longrightarrow> (\<exists>sr. r = Inr sr)" using e(2) r' by blast
    moreover have "\<forall>sr. r = Inr sr \<longrightarrow> (\<exists>ex. resp = Inr (Some ex) \<and> status_ok ex \<and> sr_payer sr = Some (vp_payer vp) \<and>
       sr_transaction sr = (case et_digest ex of None \<Rightarrow> [] | Some d \<Rightarrow> d) \<and>
       sr_amount sr = Some (pr_amount req) \<and> sr_success sr)" using r e(3) by blast
    ultimately show ?thesis
      using grpc(1) terms c(1) e(1) by blast
  qed
qed

lemma facilitator_settle_cases:
  assumes "facilitator_settle (logged N) W F payload req s = (r, s')"
  shows "(\<exists>calls. snd s' = snd s @ calls \<and> (\<forall>c \<in> set calls. \<not> is_execute c) \<and>
        (\<forall>sr. r = Inr sr \<longrightarrow> fac_mode F = StubAcceptAll)) \<or>
     (\<exists>sui vp tx sg checks resp. fac_mode F = SuiGrpc \<and> check_terms W F payload req = Inr sui \<and>
        passing_checks N W sui req vp tx sg checks \<and> snd s' = snd s @ checks @ [ExecuteCall tx sg resp] \<and>
        (executed_ok resp \<longrightarrow> (\<exists>sr. r = Inr sr)) \<and>
        (\<forall>sr. r = Inr sr \<longrightarrow> (\<exists>ex. resp = Inr (Some ex) \<and> status_ok ex \<and> sr_payer sr = Some (vp_payer vp) \<and>
           sr_transaction sr = (case et_digest ex of None \<Rightarrow> [] | Some d \<Rightarrow> d) \<and>
           sr_amount sr = Some (pr_amount req) \<and> sr_success sr)))"
proof (cases "check_terms W F payload req")
  case (Inl e)
  with assms have "r = Inl e" "s' = s" by (auto simp: facilitator_settle_def eff_bind_def eff_lift_def)
  then show ?thesis by simp
next
  case (Inr sui)
  show ?thesis
  proof (cases "fac_mode F = StubAcceptAll \<or> fac_sui F = None")
    case True
    with assms Inr show ?thesis
      by (cases "fac_mode F") (auto simp: facilitator_settle_def eff_bind_def eff_lift_def eff_return_def)
  next
    case False
    then obtain v where grpc: "fac_mode F = SuiGrpc" "fac_sui F = Some v" by (cases "fac_mode F") auto
    obtain x s1 where x: "sui_verify (logged N) W sui req s = (x, s1)" by (cases "sui_verify (logged N) W sui req s")
    show ?thesis
    proof (cases x)
      case (Inl e)
      then have "r = Inl e" "s' = s1" using assms Inr grpc x
        by (auto simp: facilitator_settle_def eff_bind_def eff_lift_def)
      with x reads_only_sui_verify[of N W sui req] show ?thesis unfolding reads_only_def by blast
    next
      case (Inr vp)
      with facilitator_settle_verified[OF assms \<open>check_terms W F payload req = Inr sui\<close> grpc] x show ?thesis by simp
    qed
  qed
qed

section \<open>A concrete node and codec, for the witnesses\<close>

text \<open>
  Base64 that refuses strings with a \<open>!\<close> and is the identity otherwise, an identity hash, a JSON
  decoder for which the bytes \<open>b\<close> are a payment with transaction \<open>b\<close> (\<open>bad\<close>: one that is not base64), and a
  node that knows one transaction: it pays the price of \<open>demo_config\<close> from a coin at version 7.
\<close>

definition demo_requirements :: PaymentRequirements where
  "demo_requirements = from_config (cfg_payment demo_config)"

lemma demo_requirements_simps [simp]:
  "pr_scheme demo_requirements = ''exact''" "pr_network demo_requirements = ''sui:testnet''"
  "pr_amount demo_requirements = ''10000''" "pr_asset demo_requirements = ''0x2::usdc::USDC''"
  "pr_pay_to demo_requirements = ''0x00000000000000000000000000000000000000000000000000000000000000a1''"
  "pr_max_timeout_seconds demo_requirements = 120"
  by (simp_all add: demo_requirements_def from_config_def demo_config_def)

definition demo_payload :: "string \<Rightarrow> PaymentPayload" where
  "demo_payload tx =
     \<lparr>pp_x402_version = 2, pp_resource = None, pp_accepted = demo_requirements,
      pp_payload = JObject [(''signature'', JString ''sig''), (''transaction'', JString tx)],
      pp_extensions = None\<rparr>"

definition demo_wire :: wire where
  "demo_wire =
     \<lparr>hashing = demo_crypto, sha256 = (\<lambda>b. b), b64_encode = (\<lambda>b. b),
      b64_decode = (\<lambda>s. if CHR ''!'' \<in> set s then Inl ''bad symbol'' else Inr s),
      sui_from_value = (\<lambda>v. case (Option.bind (json_get ''signature'' v) json_as_str,
          Option.bind (json_get ''transaction'' v) json_as_str) of
          (Some sg, Some tx) \<Rightarrow> Inr \<lparr>sp_signature = sg, sp_transaction = tx\<rparr> | _ \<Rightarrow> Inl ''bad shape''),
      payload_from_slice = (\<lambda>b. Inr (demo_payload (if b = ''bad'' then ''t!'' else b))),
      settlement_to_vec = (\<lambda>s. Inr (sr_transaction s)), required_to_vec = (\<lambda>s. Inr ''challenge''),
      json_to_vec = (\<lambda>v. Inr ''body''), fmt_debug = (\<lambda>s. s), utf8_lossy = (\<lambda>b. b)\<rparr>"

definition demo_executed :: ExecutedTransaction where
  "demo_executed =
     \<lparr>et_digest = Some ''DIG'', et_effects = Some (Some \<lparr>es_success = Some True, es_error = None\<rparr>),
      et_balance_changes = [\<lparr>bc_address = Some ''0x00000000000000000000000000000000000000000000000000000000000000a1'',
          bc_coin_type = Some ''0x2::usdc::USDC'', bc_amount = Some ''10000''\<rparr>,
        \<lparr>bc_address = Some ''0xb2'', bc_coin_type = Some ''0x2::usdc::USDC'', bc_amount = Some ''-10000''\<rparr>]\<rparr>"

definition demo_transaction :: Transaction where
  "demo_transaction =
     \<lparr>tx_sender = ''0xb2'', tx_kind = ProgrammableTransaction [Shared,
        ImmutableOrOwned \<lparr>or_object_id = ''coin'', or_version = 7\<rparr>], tx_gas_objects = []\<rparr>"

definition demo_node :: "unit fullnode" where
  "demo_node =
     \<lparr>fn_bcs_transaction = (\<lambda>b. if b = ''tx'' then Inr demo_transaction else Inl ''bad bcs''),
      fn_user_signature = (\<lambda>b. Inr b), fn_connect = (\<lambda>u. Inr ()),
      fn_verify_signature = (\<lambda>m g a n. (Inr \<lparr>vs_is_valid = Some (g = ''sig''), vs_reason = None\<rparr>, n)),
      fn_simulate = (\<lambda>m n. (Inr (Some demo_executed), n)),
      fn_get_object = (\<lambda>i n. (Inr (Some (Some 7)), n)),
      fn_execute = (\<lambda>m g n. (Inr (Some demo_executed), n)),
      fn_service_chain = (\<lambda>n. (Inr (Some ''testnet''), n))\<rparr>"

definition demo_facilitator :: Facilitator where
  "demo_facilitator = \<lparr>fac_mode = SuiGrpc, fac_network = ''sui:testnet'', fac_sui = Some \<lparr>sv_network = ''sui:testnet''\<rparr>\<rparr>"

lemma demo_trims [simp]: "trim ''tx'' = ''tx''" "trim ''sig'' = ''sig''" "trim ''t!'' = ''t!''"
  by (intro trim_graphic; simp add: graphic_def)+

lemma demo_amounts [simp]: "parse_signed 128 ''10000'' = Some 10000"
  by (simp add: parse_signed_def parse_unsigned_def parse_digits_def digits_value_def is_digit_def)

lemma demo_terms: "check_terms demo_wire demo_facilitator (demo_payload ''tx'') demo_requirements =
    Inr \<lparr>sp_signature = ''sig'', sp_transaction = ''tx''\<rparr>"
  by (simp add: check_terms_ok_iff terms_agree_def demo_facilitator_def
      demo_payload_def demo_wire_def)

definition demo_checks :: "node_call list" where
  "demo_checks =
     [VerifySignatureCall ''tx'' ''sig'' ''0xb2'' (Inr \<lparr>vs_is_valid = Some True, vs_reason = None\<rparr>),
      SimulateCall ''tx'' (Inr (Some demo_executed)), GetObjectCall ''coin'' (Inr (Some (Some 7)))]"

lemma demo_credits: "assert_credits W (et_balance_changes demo_executed) demo_requirements = Inr ()"
  by (simp add: assert_credits_def demo_executed_def credited_amounts_def
      List.map_filter_simps wrap_i128_def)

lemma demo_verify_decoded:
  assumes d: "sui_decode W p = Inr (''tx'', ''sig'')"
  shows "sui_verify (logged demo_node) W p demo_requirements ((), log0) =
    (Inr \<lparr>vp_payer = ''0xb2'', vp_digest = ''DIG''\<rparr>, (), log0 @ demo_checks)"
proof -
  have l: "assert_inputs_are_live (logged demo_node) demo_transaction ((), c) =
      (Inr (), (), c @ [GetObjectCall ''coin'' (Inr (Some (Some 7)))])" for c
    by (simp add: assert_inputs_are_live_def pinned_objects_def demo_transaction_def List.map_filter_simps
        assert_input_is_live_def log_call_def demo_node_def eff_bind_def eff_return_def)
  have s: "status_failure dflt demo_executed = None" "et_digest demo_executed = Some ''DIG''" for dflt
    by (simp_all add: status_failure_def demo_executed_def)
  have n: "fn_bcs_transaction demo_node ''tx'' = Inr demo_transaction" "tx_sender demo_transaction = ''0xb2''"
    "parse_signature demo_node ''sig'' = Inr ''sig''"
    "fn_verify_signature demo_node ''tx'' ''sig'' a u = (Inr \<lparr>vs_is_valid = Some True, vs_reason = None\<rparr>, u)"
    "fn_simulate demo_node ''tx'' u = (Inr (Some demo_executed), u)" for a u
    by (simp_all add: demo_node_def parse_signature_def demo_transaction_def)
  show ?thesis
    by (simp add: sui_verify_def Let_def eff_bind_def eff_lift_def d n eff_map_err_def log_call_def s l demo_credits
        eff_return_def demo_checks_def)
qed

lemma demo_verify:
  "sui_verify (logged demo_node) demo_wire \<lparr>sp_signature = ''sig'', sp_transaction = ''tx''\<rparr> demo_requirements ((), log0) =
    (Inr \<lparr>vp_payer = ''0xb2'', vp_digest = ''DIG''\<rparr>, (), log0 @ demo_checks)"
  by (rule demo_verify_decoded) (simp add: sui_decode_def demo_wire_def)

lemma demo_facilitator_simps [simp]:
  "fac_mode demo_facilitator = SuiGrpc" "fac_network demo_facilitator = ''sui:testnet''"
  "fac_sui demo_facilitator = Some \<lparr>sv_network = ''sui:testnet''\<rparr>"
  by (simp_all add: demo_facilitator_def)

lemma demo_facilitator_verify:
  "facilitator_verify (logged demo_node) demo_wire demo_facilitator (demo_payload ''tx'') demo_requirements ((), log0) =
    (Inr ''0xb2'', (), log0 @ demo_checks)"
  by (simp add: facilitator_verify_def eff_bind_def eff_lift_def demo_terms demo_verify eff_return_def)

lemma demo_settle:
  "facilitator_settle (logged demo_node) demo_wire demo_facilitator (demo_payload ''tx'') demo_requirements ((), log0) =
    (Inr \<lparr>sr_success = True, sr_error_reason = None, sr_payer = Some ''0xb2'', sr_transaction = ''DIG'',
       sr_network = ''sui:testnet'', sr_amount = Some ''10000'', sr_extensions = None\<rparr>,
     (), log0 @ demo_checks @ [ExecuteCall ''tx'' ''sig'' (Inr (Some demo_executed))])"
proof -

  have x: "sui_settle (logged demo_node) demo_wire \<lparr>sp_signature = ''sig'', sp_transaction = ''tx''\<rparr> ((), c) =
      (Inr ''DIG'', (), c @ [ExecuteCall ''tx'' ''sig'' (Inr (Some demo_executed))])" for c
    by (simp add: sui_settle_def sui_decode_def demo_wire_def eff_bind_def eff_lift_def parse_signature_def
        demo_node_def log_call_def eff_map_err_def status_failure_def demo_executed_def eff_return_def)
  show ?thesis
    by (simp add: facilitator_settle_def eff_bind_def eff_lift_def demo_terms demo_verify x eff_return_def)
qed


section \<open>Properties\<close>

text \<open>C3: nothing is broadcast that was not verified. Against any fullnode, whatever it answers and
  however the chain moves between two calls, if settling a payment makes an execute call then the
  client accepted the advertised network, scheme, amount, asset and recipient; the calls before
  it are exactly the signature check, the simulation and one liveness check per pinned object, all
  passed and all for the very bytes that are executed, with the simulated credit equal to the
  price; it is the last call and the only one; and the replay key of the payment is the hash of
  those bytes.\<close>

theorem only_verified_payments_are_broadcast:
  assumes "facilitator_settle (logged N) W F payload req (n, []) = (r, n', calls)"
    and "ExecuteCall tx sg resp \<in> set calls"
  shows "\<exists>sui vp checks. fac_mode F = SuiGrpc \<and> terms_agree F payload req \<and>
    sui_from_value W (pp_payload payload) = Inr sui \<and> passing_checks N W sui req vp tx sg checks \<and>
    calls = checks @ [ExecuteCall tx sg resp] \<and> (\<forall>c \<in> set checks. \<not> is_execute c) \<and>
    payment_id W payload = Some (hex_encode (hashing W) (sha256 W tx))"
proof -
  from facilitator_settle_cases[OF assms(1)] assms(2)
  obtain sui vp tx' sg' checks resp' where
    g: "fac_mode F = SuiGrpc" "check_terms W F payload req = Inr sui" "passing_checks N W sui req vp tx' sg' checks"
      "calls = checks @ [ExecuteCall tx' sg' resp']"
    by auto
  have reads: "\<forall>c \<in> set checks. \<not> is_execute c" using g(3) by (rule passing_checks_reads)
  with assms(2) g(4) have same: "tx' = tx" "sg' = sg" "resp' = resp" by auto
  from g(3) obtain sgb where "sui_decode W sui = Inr (tx, sgb)" unfolding passing_checks_def same by blast
  with g(2) have "payment_id W payload = Some (hex_encode (hashing W) (sha256 W tx))"
    by (auto simp: check_terms_ok_iff intro: payment_id_of_decoded)
  with g reads same show ?thesis by (auto simp: check_terms_ok_iff)
qed

theorem only_verified_payments_are_broadcast_witness:
  "\<exists>vp. passing_checks demo_node demo_wire \<lparr>sp_signature = ''sig'', sp_transaction = ''tx''\<rparr> demo_requirements vp
     ''tx'' ''sig'' demo_checks"
proof -
  have e: "ExecuteCall ''tx'' ''sig'' (Inr (Some demo_executed)) \<in>
    set (demo_checks @ [ExecuteCall ''tx'' ''sig'' (Inr (Some demo_executed))])" by simp
  have "sui_from_value demo_wire (pp_payload (demo_payload ''tx'')) = Inr \<lparr>sp_signature = ''sig'', sp_transaction = ''tx''\<rparr>"
    by (simp add: demo_wire_def demo_payload_def)
  with only_verified_payments_are_broadcast[OF demo_settle[of "[]", unfolded append_Nil] e] show ?thesis by auto
qed

text \<open>C23: a receipt is honest. In sui-grpc mode a successful settlement names as payer the sender
  inside the signed bytes, the address the signature was checked for, and as transaction the
  digest the node returned for executing those bytes, with no failure status reported.\<close>

theorem receipt_reports_the_executed_payment:
  assumes "facilitator_settle (logged N) W F payload req (n, []) = (Inr sr, n', calls)" "fac_mode F = SuiGrpc"
  shows "\<exists>tx sg T ex vs. fn_bcs_transaction N tx = Inr T \<and> sr_payer sr = Some (tx_sender T) \<and>
    hd calls = VerifySignatureCall tx sg (tx_sender T) (Inr vs) \<and> vs_is_valid vs = Some True \<and>
    last calls = ExecuteCall tx sg (Inr (Some ex)) \<and> status_ok ex \<and>
    sr_transaction sr = (case et_digest ex of None \<Rightarrow> [] | Some d \<Rightarrow> d) \<and>
    sr_success sr \<and> sr_amount sr = Some (pr_amount req)"
  using facilitator_settle_cases[OF assms(1)] assms(2) by (fastforce simp: passing_checks_def)

theorem receipt_reports_the_executed_payment_witness:
  "\<exists>tx T. fn_bcs_transaction demo_node tx = Inr T \<and> tx_sender T = ''0xb2''"
proof -
  have "fac_mode demo_facilitator = SuiGrpc" by (simp add: demo_facilitator_def)
  from receipt_reports_the_executed_payment[OF demo_settle[of "[]", unfolded append_Nil] this] show ?thesis
    by (elim exE conjE) (rule exI, rule exI, erule conjI, simp)
qed

text \<open>C26: verifying moves no funds. No call of a verification executes a transaction, whatever the
  mode, the payload and the answers of the node; and in sui-grpc mode an accepted payment passed
  every check and its payer is the sender inside the signed bytes.\<close>

theorem verification_moves_no_funds:
  assumes "facilitator_verify (logged N) W F payload req (n, []) = (r, n', calls)"
  shows "(\<forall>c \<in> set calls. \<not> is_execute c) \<and>
    (\<forall>payer. r = Inr payer \<longrightarrow> terms_agree F payload req \<and>
      (fac_mode F = SuiGrpc \<longrightarrow> (\<exists>sui vp tx sg. passing_checks N W sui req vp tx sg calls \<and> vp_payer vp = payer)))"
proof -
  note ro = reads_only_facilitator_verify[of N W F payload req]
  have ok: "terms_agree F payload req \<and>
      (fac_mode F = SuiGrpc \<longrightarrow> (\<exists>sui vp tx sg. passing_checks N W sui req vp tx sg calls \<and> vp_payer vp = payer))"
    if r: "r = Inr payer" for payer
  proof -
    from assms r obtain sui where sui: "check_terms W F payload req = Inr sui"
      by (auto simp: facilitator_verify_def)
    have "\<exists>vp. sui_verify (logged N) W sui req (n, []) = (Inr vp, n', calls) \<and> vp_payer vp = payer"
      if "fac_mode F = SuiGrpc"
      using assms r sui that by (cases "fac_sui F") (auto simp: facilitator_verify_def)
    then have "\<exists>sui vp tx sg. passing_checks N W sui req vp tx sg calls \<and> vp_payer vp = payer"
      if "fac_mode F = SuiGrpc"
      using that sui_verify_passes[of N W sui req "(n, [])"] by fastforce
    with sui show ?thesis by (auto simp: check_terms_ok_iff)
  qed
  have "\<exists>cs. calls = cs \<and> (\<forall>c \<in> set cs. \<not> is_execute c)"
    using ro assms unfolding reads_only_def by fastforce
  with ok show ?thesis by simp
qed

theorem verification_moves_no_funds_witness: "filter is_execute demo_checks = []"
proof -
  show ?thesis
    using verification_moves_no_funds[OF demo_facilitator_verify[of "[]", unfolded append_Nil]]
    by (simp add: filter_empty_conv)
qed

text \<open>C27: the price is exact. As long as the credits add up without leaving 128 bits, the credit
  check passes if and only if the price is precisely the sum of the amounts by which the
  simulation changes the recipient's balance in the asset: not less, not more, over however many
  entries, and whatever else the transaction does.\<close>

theorem price_is_exact:
  assumes "credit = sum_list (map (\<lambda>c.
      if bc_address c = Some (pr_pay_to req) \<and> bc_coin_type c = Some (pr_asset req)
      then (case bc_amount c of None \<Rightarrow> 0 | Some a \<Rightarrow> (case parse_signed 128 a of None \<Rightarrow> 0 | Some v \<Rightarrow> v)) else 0)
      changes)"
    and "- (2 ^ 127) \<le> credit" "credit < 2 ^ 127"
  shows "assert_credits W changes req = Inr () \<longleftrightarrow> parse_signed 128 (pr_amount req) = Some credit"
proof -
  have "credited_total changes req = credit"
    unfolding assms(1) credited_total_def credited_amounts_def
    by (induction changes) (auto simp: List.map_filter_simps split: option.splits)
  then show ?thesis using assms(2,3) by (auto simp: assert_credits_ok_iff wrap_i128_small)
qed

theorem price_is_exact_witness:
  "assert_credits demo_wire (et_balance_changes demo_executed) demo_requirements = Inr ()"
  using price_is_exact[of 10000 demo_requirements "et_balance_changes demo_executed" demo_wire]
  by (simp add: demo_executed_def)

end
