(* ===== verification/F64.thy ===== *)
theory F64
  imports Complex_Main Prelude "HOL-Library.Log_Nat"
begin

text \<open>
  IEEE 754 binary64 arithmetic, as far as the source uses it: conversions from unsigned
  integers, division, multiplication and addition of non-negative finite values, comparison,
  \<open>ceil\<close>, and the saturating cast back to \<open>u64\<close>.

  A value is the rational number it denotes. Every operation is the exact rational operation
  followed by \<open>rnd\<close>, rounding to nearest with ties to even at 53 bits of precision. The
  exponent is not bounded: the source only forms values between \<open>2 ^ (- 64)\<close> and \<open>2 ^ 130\<close>
  (and zero), far inside the exponent range of binary64, so no overflow, underflow or NaN
  can arise there.

  The locale \<open>rounding\<close> is what the clients use of \<open>rnd\<close>: it is monotone, idempotent and exact
  on naturals up to \<open>2 ^ 53\<close>.
\<close>

type_synonym f64 = rat

section \<open>Rounding to nearest, ties to even\<close>

definition round_half_even :: "rat \<Rightarrow> int" where
  "round_half_even y =
     (let f = \<lfloor>y\<rfloor>; d = y - of_int f in
      if d < 1 / 2 then f else if d > 1 / 2 then f + 1 else if even f then f else f + 1)"

definition bits :: "nat \<Rightarrow> nat" where
  "bits n = floorlog 2 n"

text \<open>The binary exponent: \<open>2 powi e \<le> x < 2 powi (e + 1)\<close> for positive \<open>x\<close>.\<close>

definition exponent_of :: "rat \<Rightarrow> int" where
  "exponent_of x =
     (let (p, q) = quotient_of x; e = int (bits (nat p)) - int (bits (nat q)) in
      if 2 powi e \<le> x then e else e - 1)"

definition rnd :: "rat \<Rightarrow> rat" where
  "rnd x = (if x \<le> 0 then 0 else
     (let u = 2 powi (exponent_of x - 52) in of_int (round_half_even (x / u)) * u))"

section \<open>Operations\<close>

definition f64_of_u64 :: "u64 \<Rightarrow> f64" where
  "f64_of_u64 n = rnd (of_nat (unat n))"

definition f64_of_nat :: "nat \<Rightarrow> f64" where
  "f64_of_nat n = rnd (of_nat n)"

definition f64_add :: "f64 \<Rightarrow> f64 \<Rightarrow> f64" where
  "f64_add x y = rnd (x + y)"

definition f64_mul :: "f64 \<Rightarrow> f64 \<Rightarrow> f64" where
  "f64_mul x y = rnd (x * y)"

definition f64_div :: "f64 \<Rightarrow> f64 \<Rightarrow> f64" where
  "f64_div x y = rnd (x / y)"

text \<open>\<open>x.ceil().max(0.0) as u64\<close>: the cast saturates at \<open>u64::MAX\<close>.\<close>

definition f64_ceil_u64 :: "f64 \<Rightarrow> u64" where
  "f64_ceil_u64 x = (let n = nat \<lceil>x\<rceil> in if n < 2 ^ 64 then word_of_nat n else - 1)"

section \<open>The contract of rounding\<close>

locale rounding =
  fixes r :: "rat \<Rightarrow> rat"
  assumes mono: "x \<le> y \<Longrightarrow> r x \<le> r y"
    and idem: "r (r x) = r x"
    and exact_nat: "n \<le> 2 ^ 53 \<Longrightarrow> r (of_nat n) = of_nat n"
begin

lemma zero: "r 0 = 0"
  using exact_nat[of 0] by simp

lemma one: "r 1 = 1"
  using exact_nat[of 1] by simp

lemma nonneg: "0 \<le> x \<Longrightarrow> 0 \<le> r x"
  using mono[of 0 x] by (simp add: zero)

text \<open>Adding something non-negative to a representable value never loses that value.\<close>

lemma add_ge: "r a = a \<Longrightarrow> 0 \<le> b \<Longrightarrow> a \<le> r (a + b)"
  using mono[of a "a + b"] by simp

lemma of_nat_le: "m \<le> n \<Longrightarrow> r (of_nat m) \<le> r (of_nat n)"
  by (rule mono) simp

lemma ratio_le_one: "0 \<le> x \<Longrightarrow> x \<le> y \<Longrightarrow> r (x / y) \<le> 1"
proof -
  assume "0 \<le> x" "x \<le> y"
  then have "x / y \<le> 1" by (auto simp: divide_le_eq_1)
  then show ?thesis using mono[of "x / y" 1] by (simp add: one)
qed

end

section \<open>\<open>rnd\<close> satisfies it\<close>

lemma round_half_even_of_int [simp]: "round_half_even (of_int i) = i"
  by (simp add: round_half_even_def)

lemma round_half_even_numeral [simp]: "round_half_even (numeral k) = numeral k"
  using round_half_even_of_int[of "numeral k"] by simp

lemma round_half_even_mono:
  assumes "x \<le> y"
  shows "round_half_even x \<le> round_half_even y"
proof -
  have fl: "\<lfloor>x\<rfloor> \<le> \<lfloor>y\<rfloor>" using assms by (rule floor_mono)
  show ?thesis
  proof (cases "\<lfloor>x\<rfloor> = \<lfloor>y\<rfloor>")
    case True
    with assms show ?thesis by (auto simp: round_half_even_def Let_def)
  next
    case False
    with fl have "\<lfloor>x\<rfloor> + 1 \<le> \<lfloor>y\<rfloor>" by simp
    moreover have "round_half_even x \<le> \<lfloor>x\<rfloor> + 1" "\<lfloor>y\<rfloor> \<le> round_half_even y"
      by (auto simp: round_half_even_def Let_def)
    ultimately show ?thesis by simp
  qed
qed

lemma bits_bounds:
  assumes "0 < n"
  shows "(2 :: nat) ^ (bits n - 1) \<le> n" "n < 2 ^ bits n" "0 < bits n"
  using floorlog_bounds[OF assms, of 2] assms by (auto simp: bits_def floorlog_def)

lemma exponent_of_bounds:
  assumes "0 < x"
  shows "2 powi exponent_of x \<le> x" "x < 2 powi (exponent_of x + 1)"
proof -
  obtain p q where pq: "quotient_of x = (p, q)" by (cases "quotient_of x")
  have q: "0 < q" using quotient_of_denom_pos[OF pq] .
  have x: "x = of_int p / of_int q" using quotient_of_div[OF pq] .
  have p: "0 < p" using assms x q by (simp add: zero_less_divide_iff)
  let ?a = "bits (nat p)" and ?b = "bits (nat q)"
  let ?e = "int ?a - int ?b"
  have A: "2 ^ (?a - 1) \<le> nat p" "nat p < 2 ^ ?a" "0 < ?a"
    and B: "2 ^ (?b - 1) \<le> nat q" "nat q < 2 ^ ?b" "0 < ?b"
    using bits_bounds[of "nat p"] bits_bounds[of "nat q"] p q by auto
  have ra: "(2 :: rat) ^ (?a - 1) \<le> of_int p" "of_int p < (2 :: rat) ^ ?a"
    using A(1,2) p by (metis of_nat_le_iff of_nat_numeral of_nat_power of_nat_nat less_imp_le,
      metis of_nat_less_iff of_nat_numeral of_nat_power of_nat_nat less_imp_le)
  have rb: "(2 :: rat) ^ (?b - 1) \<le> of_int q" "of_int q < (2 :: rat) ^ ?b"
    using B(1,2) q by (metis of_nat_le_iff of_nat_numeral of_nat_power of_nat_nat less_imp_le,
      metis of_nat_less_iff of_nat_numeral of_nat_power of_nat_nat less_imp_le)
  have up: "x < 2 powi (?e + 1)"
  proof -
    have "x < 2 ^ ?a / 2 ^ (?b - 1)"
      unfolding x using ra rb q p by (intro frac_less) auto
    also have "\<dots> = 2 powi (int ?a - int (?b - 1))"
      by (simp add: power_int_diff)
    also have "int ?a - int (?b - 1) = ?e + 1" using B(3) by simp
    finally show ?thesis .
  qed
  have lo: "2 powi (?e - 1) \<le> x"
  proof -
    have "2 powi (?e - 1) = 2 powi (int (?a - 1) - int ?b)" using A(3) by (simp add: algebra_simps)
    also have "\<dots> = (2 :: rat) ^ (?a - 1) / 2 ^ ?b" by (simp add: power_int_diff)
    also have "\<dots> \<le> x" unfolding x using ra rb q p by (intro frac_le) auto
    finally show ?thesis .
  qed
  show "2 powi exponent_of x \<le> x" using lo pq by (simp add: exponent_of_def Let_def)
  show "x < 2 powi (exponent_of x + 1)" using up pq by (auto simp: exponent_of_def Let_def)
qed

lemma scaled_bounds:
  assumes "0 < x"
  shows "2 ^ 52 \<le> x / 2 powi (exponent_of x - 52)" "x / 2 powi (exponent_of x - 52) < 2 ^ 53"
proof -
  let ?u = "2 powi (exponent_of x - 52) :: rat"
  have u: "0 < ?u" by simp
  have "2 ^ 52 * ?u = 2 powi exponent_of x" "2 ^ 53 * ?u = 2 powi (exponent_of x + 1)"
    by (simp_all add: power_int_diff power_int_add)
  with exponent_of_bounds[OF assms] u
  show "2 ^ 52 \<le> x / ?u" "x / ?u < 2 ^ 53"
    by (simp_all only: pos_le_divide_eq pos_divide_less_eq)
qed

lemma mantissa_bounds:
  assumes "0 < x"
  shows "2 ^ 52 \<le> round_half_even (x / 2 powi (exponent_of x - 52))"
    "round_half_even (x / 2 powi (exponent_of x - 52)) \<le> 2 ^ 53"
  using round_half_even_mono[of "of_int (2 ^ 52)" "x / 2 powi (exponent_of x - 52)"]
    round_half_even_mono[of "x / 2 powi (exponent_of x - 52)" "of_int (2 ^ 53)"]
    scaled_bounds[OF assms]
  by (auto simp del: power_int_diff)

lemma rnd_bounds:
  assumes "0 < x"
  shows "2 powi exponent_of x \<le> rnd x" "rnd x \<le> 2 powi (exponent_of x + 1)"
proof -
  let ?u = "2 powi (exponent_of x - 52) :: rat"
  let ?m = "round_half_even (x / ?u)"
  have r: "rnd x = of_int ?m * ?u" using assms by (simp add: rnd_def Let_def)
  have e: "2 ^ 52 * ?u = 2 powi exponent_of x" "2 ^ 53 * ?u = 2 powi (exponent_of x + 1)"
    by (simp_all add: power_int_diff power_int_add)
  have "(2 ^ 52 :: rat) \<le> of_int ?m" "of_int ?m \<le> (2 ^ 53 :: rat)"
    using mantissa_bounds[OF assms]
    by (metis of_int_le_iff of_int_numeral of_int_power)+
  then show "2 powi exponent_of x \<le> rnd x" "rnd x \<le> 2 powi (exponent_of x + 1)"
    unfolding r e[symmetric] by (intro mult_right_mono; simp)+
qed

lemma rnd_nonneg: "0 \<le> rnd x"
proof (cases "0 < x")
  case True
  have "0 < (2 :: rat) powi exponent_of x" by simp
  with rnd_bounds(1)[OF True] show ?thesis by linarith
qed (simp add: rnd_def)

lemma exponent_of_mono:
  assumes "0 < x" "x \<le> y"
  shows "exponent_of x \<le> exponent_of y"
proof -
  have "2 powi exponent_of x < (2 :: rat) powi (exponent_of y + 1)"
    using exponent_of_bounds[of x] exponent_of_bounds[of y] assms by linarith
  moreover have "(2 :: rat) powi (exponent_of y + 1) \<le> 2 powi exponent_of x"
    if "exponent_of y + 1 \<le> exponent_of x"
    using that by (intro power_int_increasing) auto
  ultimately show ?thesis by fastforce
qed

lemma rnd_mono:
  assumes "x \<le> y"
  shows "rnd x \<le> rnd y"
proof (cases "0 < x")
  case False
  then show ?thesis using rnd_nonneg[of y] by (simp add: rnd_def)
next
  case True
  with assms have y: "0 < y" by linarith
  show ?thesis
  proof (cases "exponent_of x = exponent_of y")
    case e: True
    let ?u = "2 powi (exponent_of y - 52) :: rat"
    have "x / ?u \<le> y / ?u" using assms by (intro divide_right_mono) auto
    then have "round_half_even (x / ?u) \<le> round_half_even (y / ?u)" by (rule round_half_even_mono)
    then show ?thesis using True y e by (simp add: rnd_def Let_def)
  next
    case False
    with exponent_of_mono[OF True assms] have "exponent_of x + 1 \<le> exponent_of y" by simp
    then have "(2 :: rat) powi (exponent_of x + 1) \<le> 2 powi exponent_of y"
      by (intro power_int_increasing) auto
    with rnd_bounds(2)[OF True] rnd_bounds(1)[OF y] show ?thesis by linarith
  qed
qed

text \<open>A value with a mantissa of at most 53 bits is representable, hence not changed.\<close>

lemma rnd_representable:
  fixes m :: nat and k :: int
  assumes x: "x = of_nat m * 2 powi k" and m: "m \<le> 2 ^ 53"
  shows "rnd x = x"
proof (cases "m = 0")
  case True
  then show ?thesis by (simp add: x rnd_def)
next
  case False
  then have pos: "0 < x" by (simp add: x)
  let ?e = "exponent_of x"
  let ?u = "2 powi (?e - 52) :: rat"
  have "\<exists>i :: int. x / ?u = of_int i"
  proof (cases "?e - 52 \<le> k")
    case True
    then obtain d where d: "k = ?e - 52 + int d" by (metis zle_iff_zadd)
    have "x / ?u = of_nat m * (2 powi k / ?u)" by (simp add: x)
    also have "2 powi k / ?u = 2 ^ d" by (simp add: d power_int_add power_int_diff)
    finally have "x / ?u = of_int (int m * 2 ^ d)" by simp
    then show ?thesis by blast
  next
    case False
    then have "53 + k \<le> ?e" by simp
    have "of_nat m \<le> (2 ^ 53 :: rat)"
      using m by (metis of_nat_le_iff of_nat_numeral of_nat_power)
    then have "x \<le> 2 ^ 53 * 2 powi k"
      unfolding x by (intro mult_right_mono) simp_all
    also have "\<dots> = 2 powi (53 + k)" by (simp add: power_int_add)
    also have "\<dots> \<le> 2 powi ?e" using \<open>53 + k \<le> ?e\<close> by (intro power_int_increasing) auto
    finally have "x = 2 powi ?e" using exponent_of_bounds(1)[OF pos] by simp
    then have "x / ?u = 2 powi ?e / ?u" by simp
    also have "\<dots> = of_int (2 ^ 52)" by (simp add: power_int_diff)
    finally show ?thesis by blast
  qed
  then obtain i where "x / ?u = of_int i" by blast
  then have "rnd x = (x / ?u) * ?u" using pos by (simp add: rnd_def Let_def)
  then show ?thesis by simp
qed

lemma rnd_of_nat: "n \<le> 2 ^ 53 \<Longrightarrow> rnd (of_nat n) = of_nat n"
  using rnd_representable[of "of_nat n" n 0] by simp

lemma rnd_idem: "rnd (rnd x) = rnd x"
proof (cases "0 < x")
  case False
  then show ?thesis by (simp add: rnd_def)
next
  case True
  let ?m = "round_half_even (x / 2 powi (exponent_of x - 52))"
  have "rnd x = of_nat (nat ?m) * 2 powi (exponent_of x - 52)"
    using True mantissa_bounds[OF True] by (simp add: rnd_def Let_def)
  moreover have "nat ?m \<le> 2 ^ 53" using mantissa_bounds(2)[OF True] by simp
  ultimately show ?thesis by (rule rnd_representable)
qed

interpretation f64: rounding rnd
  by unfold_locales (simp_all add: rnd_mono rnd_idem rnd_of_nat)

section \<open>Derived facts on the operations\<close>

lemma f64_of_u64_mono: "m \<le> n \<Longrightarrow> f64_of_u64 m \<le> f64_of_u64 n"
  unfolding f64_of_u64_def by (rule f64.of_nat_le) (simp add: word_le_nat_alt)

lemma f64_of_u64_nonneg [simp]: "0 \<le> f64_of_u64 n"
  unfolding f64_of_u64_def by (rule rnd_nonneg)

lemma f64_of_u64_small: "unat n \<le> 2 ^ 53 \<Longrightarrow> f64_of_u64 n = of_nat (unat n)"
  unfolding f64_of_u64_def by (rule f64.exact_nat)

lemma f64_div_self: "0 < n \<Longrightarrow> n \<le> 2 ^ 53 \<Longrightarrow> f64_div (f64_of_nat n) (f64_of_nat n) = 1"
  by (simp add: f64_div_def f64_of_nat_def f64.exact_nat f64.one)

lemma f64_add_ge_left: "0 \<le> y \<Longrightarrow> f64_of_u64 n \<le> f64_add (f64_of_u64 n) y"
  unfolding f64_add_def by (rule f64.add_ge) (simp_all add: f64_of_u64_def f64.idem)

lemma f64_nonneg_ops [simp]:
  "0 \<le> x \<Longrightarrow> 0 \<le> y \<Longrightarrow> 0 \<le> f64_add x y"
  "0 \<le> x \<Longrightarrow> 0 \<le> y \<Longrightarrow> 0 \<le> f64_mul x y"
  "0 \<le> x \<Longrightarrow> 0 \<le> y \<Longrightarrow> 0 \<le> f64_div x y"
  by (simp_all add: f64_add_def f64_mul_def f64_div_def f64.nonneg)

end
