(* ===== verification/RateLimit.thy ===== *)
theory RateLimit
  imports F64 IpAddr
begin

text \<open>
  The free tier's sliding-window rate limiter (src/ratelimit.rs), in-process variant: bucket
  keys, the window counters of a key, the check with its floating-point estimate, and the
  sweep of idle keys. Integers are \<open>u64\<close> words and wrap as in a release build; the estimate
  is computed in binary64 (theory F64).

  The lemmas show that keys are exactly (policy, client) pairs, that no aligned window ever
  admits more than the limit whatever the rounding does, what a client sees in its first
  window, and that the sweep changes no answer.
\<close>

section \<open>Model\<close>

record Allowance =
  allowed :: bool
  al_remaining :: u64
  al_limit :: u64
  reset_secs :: u64

fun bucket :: "IpAddr \<Rightarrow> IpAddr" where
  "bucket (V4 a b c d) = V4 a b c d"
| "bucket (V6 a b c d e f g h) = V6 a b c d 0 0 0 0"

record RWindow =
  rw_start :: u64
  rw_current :: u64
  rw_previous :: u64
  rw_window_secs :: u64

definition key_for :: "string \<Rightarrow> IpAddr \<Rightarrow> string" where
  "key_for policy ip = policy @ ''|'' @ show_ip (bucket ip)"

definition remaining_after :: "u64 \<Rightarrow> f64 \<Rightarrow> u64" where
  "remaining_after limit estimated = sat_sub limit (f64_ceil_u64 estimated)"

type_synonym MemoryRateLimiter = "string \<rightharpoonup> RWindow"

definition limiter_new :: MemoryRateLimiter where
  "limiter_new = Map.empty"

definition limiter_len :: "MemoryRateLimiter \<Rightarrow> nat" where
  "limiter_len l = card (dom l)"

definition window_start_of :: "u64 \<Rightarrow> u64 \<Rightarrow> u64" where
  "window_start_of window_secs now = now - now mod window_secs"

text \<open>The entry, rolled over to the window of \<open>now\<close>.\<close>

definition roll_over :: "u64 \<Rightarrow> u64 \<Rightarrow> RWindow \<Rightarrow> RWindow" where
  "roll_over window_secs now e =
     (let ws = window_start_of window_secs now; e = e\<lparr>rw_window_secs := window_secs\<rparr> in
      if ws > rw_start e
      then e\<lparr>rw_previous := (if ws - rw_start e = window_secs then rw_current e else 0),
             rw_current := 0, rw_start := ws\<rparr>
      else e)"

definition estimate :: "u64 \<Rightarrow> u64 \<Rightarrow> RWindow \<Rightarrow> f64" where
  "estimate window_secs elapsed e =
     (let carry_fraction = f64_div (f64_of_u64 (window_secs - elapsed)) (f64_of_u64 window_secs) in
      f64_add (f64_of_u64 (rw_current e)) (f64_mul (f64_of_u64 (rw_previous e)) carry_fraction))"

definition window_check :: "u64 \<Rightarrow> u64 \<Rightarrow> RWindow \<Rightarrow> u64 \<Rightarrow> Allowance \<times> RWindow" where
  "window_check max_requests window_secs entry now =
     (let e = roll_over window_secs now entry;
          elapsed = now - rw_start e;
          estimated = estimate window_secs elapsed e;
          reset = window_secs - elapsed in
      if estimated \<ge> f64_of_u64 max_requests
      then (\<lparr>allowed = False, al_remaining = 0, al_limit = max_requests, reset_secs = reset\<rparr>, e)
      else (\<lparr>allowed = True, al_remaining = remaining_after max_requests (f64_add estimated 1),
              al_limit = max_requests, reset_secs = reset\<rparr>,
            e\<lparr>rw_current := rw_current e + 1\<rparr>))"

definition fresh_window :: "u64 \<Rightarrow> u64 \<Rightarrow> RWindow" where
  "fresh_window window_secs now =
     \<lparr>rw_start = window_start_of window_secs now, rw_current = 0, rw_previous = 0,
      rw_window_secs = window_secs\<rparr>"

text \<open>\<open>None\<close> is the panic of the assertion \<open>window_secs > 0\<close>.\<close>

definition check_at ::
  "MemoryRateLimiter \<Rightarrow> string \<Rightarrow> IpAddr \<Rightarrow> u64 \<Rightarrow> u64 \<Rightarrow> u64 \<Rightarrow> (Allowance \<times> MemoryRateLimiter) option" where
  "check_at l policy ip max_requests window_secs now =
     (if window_secs = 0 then None
      else
        let key = key_for policy ip;
            entry = (case l key of None \<Rightarrow> fresh_window window_secs now | Some e \<Rightarrow> e);
            (a, e) = window_check max_requests window_secs entry now
        in Some (a, l(key \<mapsto> e)))"

definition cleanup_idle_at :: "MemoryRateLimiter \<Rightarrow> u64 \<Rightarrow> nat \<times> MemoryRateLimiter" where
  "cleanup_idle_at l now =
     (let l' = (\<lambda>k. case l k of None \<Rightarrow> None
          | Some w \<Rightarrow> if rw_start w \<ge> sat_sub now (rw_window_secs w * 2) then Some w else None)
      in (limiter_len l - limiter_len l', l'))"

section \<open>Keys\<close>

lemma bar_split: "CHR ''|'' \<notin> set a \<Longrightarrow> CHR ''|'' \<notin> set b \<Longrightarrow>
    p @ ''|'' @ a = q @ ''|'' @ b \<Longrightarrow> p = q \<and> a = b"
proof -
  assume ab: "CHR ''|'' \<notin> set a" "CHR ''|'' \<notin> set b" and eq: "p @ ''|'' @ a = q @ ''|'' @ b"
  have *: "takeWhile (\<lambda>c. c \<noteq> CHR ''|'') (rev (r @ ''|'' @ x)) = rev x" if "CHR ''|'' \<notin> set x" for r x
    using that by (simp add: takeWhile_append)
  from eq have "rev a = rev b" using *[OF ab(1), of p] *[OF ab(2), of q] by metis
  with eq show ?thesis by simp
qed

lemma v4_not_network: "show_v4 a b c d \<noteq> show_v6 [a', b', c', d', 0, 0, 0, 0]"
  using show_v4_no_colon[of a b c d] by (auto simp: show_v6_network)

lemma show_bucket_inj: "show_ip (bucket i) = show_ip (bucket j) \<Longrightarrow> bucket i = bucket j"
proof (cases i; cases j)
  fix a b c d a' b' c' d'
  assume "show_ip (bucket i) = show_ip (bucket j)" "i = V4 a b c d" "j = V4 a' b' c' d'"
  then show ?thesis using show_v4_inj[of a b c d a' b' c' d'] by simp
next
  fix a b c d a' b' c' d' e' f' g' h'
  assume "show_ip (bucket i) = show_ip (bucket j)" "i = V4 a b c d" "j = V6 a' b' c' d' e' f' g' h'"
  then show ?thesis by (simp add: v4_not_network)
next
  fix a b c d a' b' c' d' e' f' g' h'
  assume "show_ip (bucket i) = show_ip (bucket j)" "j = V4 a b c d" "i = V6 a' b' c' d' e' f' g' h'"
  then show ?thesis by (simp add: v4_not_network[symmetric])
next
  fix a b c d e f g h a' b' c' d' e' f' g' h'
  assume eq: "show_ip (bucket i) = show_ip (bucket j)" "i = V6 a b c d e f g h"
    "j = V6 a' b' c' d' e' f' g' h'"
  then have "trailing_zeros_off [a, b, c, d] = trailing_zeros_off [a', b', c', d']"
    by (simp add: show_v6_network) (metis show_segments_network_inj append_Cons append_Nil)
  then have "[a, b, c, d] = [a', b', c', d']"
    by (auto simp: trailing_zeros_off_def split: if_splits)
  with eq show ?thesis by simp
qed

section \<open>One window\<close>

lemma unat_window_start: "unat (window_start_of w now) = unat now - unat now mod unat w"
proof -
  have "unat (now mod w) = unat now mod unat w" by (simp add: unat_mod)
  moreover have "now mod w \<le> now" by (simp add: word_le_nat_alt unat_mod)
  ultimately show ?thesis by (simp add: window_start_of_def unat_sub)
qed

lemma window_start_le: "window_start_of w now \<le> now"
  by (simp add: word_le_nat_alt unat_window_start)

lemma window_start_mono: "s \<le> t \<Longrightarrow> window_start_of w s \<le> window_start_of w t"
proof -
  assume "s \<le> t"
  then have "unat s div unat w * unat w \<le> unat t div unat w * unat w"
    by (simp add: word_le_nat_alt div_le_mono)
  then show ?thesis
    by (simp add: word_le_nat_alt unat_window_start minus_mod_eq_div_mult)
qed

lemma roll_over_same [simp]:
  "rw_start e = window_start_of w now \<Longrightarrow> roll_over w now e = e\<lparr>rw_window_secs := w\<rparr>"
  by (simp add: roll_over_def Let_def)

lemma roll_over_start:
  "rw_start e \<le> window_start_of w now \<Longrightarrow> rw_start (roll_over w now e) = window_start_of w now"
  by (auto simp: roll_over_def Let_def)

lemma roll_over_new_window:
  "rw_start e < window_start_of w now \<Longrightarrow> rw_current (roll_over w now e) = 0"
  by (simp add: roll_over_def Let_def)

lemma estimate_ge_current: "f64_of_u64 (rw_current e) \<le> estimate w elapsed e"
  unfolding estimate_def Let_def by (intro f64_add_ge_left) simp

text \<open>Whatever the rounding does, a window that is full admits nothing.\<close>

lemma window_check_full:
  assumes "max_requests \<le> rw_current (roll_over w now e)"
  shows "\<not> allowed (fst (window_check max_requests w e now))"
proof -
  have "f64_of_u64 max_requests \<le> estimate w (now - rw_start (roll_over w now e)) (roll_over w now e)"
    using f64_of_u64_mono[OF assms] estimate_ge_current by (rule order_trans)
  then show ?thesis by (simp add: window_check_def Let_def)
qed

lemma window_check_allowed:
  assumes "allowed (fst (window_check max_requests w e now))"
  shows "rw_current (roll_over w now e) < max_requests"
    "snd (window_check max_requests w e now) =
       (roll_over w now e)\<lparr>rw_current := rw_current (roll_over w now e) + 1\<rparr>"
  using assms window_check_full[of max_requests w now e] not_le
  by (blast, auto simp: window_check_def Let_def split: if_splits)

lemma window_check_denied:
  "\<not> allowed (fst (window_check max_requests w e now)) \<Longrightarrow>
   snd (window_check max_requests w e now) = roll_over w now e"
  by (auto simp: window_check_def Let_def split: if_splits)

lemma window_check_start:
  "rw_start (snd (window_check max_requests w e now)) = rw_start (roll_over w now e)"
  by (simp add: window_check_def Let_def)

text \<open>The admitted requests of a list that fall into the aligned window starting at \<open>k\<close>.\<close>

definition admitted_in :: "u64 \<Rightarrow> u64 \<Rightarrow> u64 list \<Rightarrow> Allowance list \<Rightarrow> nat" where
  "admitted_in w k ts as =
     length (filter (\<lambda>(t, a). allowed a \<and> window_start_of w t = k) (zip ts as))"

lemma admitted_in_simps [simp]:
  "admitted_in w k [] as = 0"
  "admitted_in w k (t # ts) (a # as) =
     (if allowed a \<and> window_start_of w t = k then 1 else 0) + admitted_in w k ts as"
  by (simp_all add: admitted_in_def)

lemma window_step_count:
  assumes "rw_start e \<le> window_start_of w t" "rw_current e \<le> m"
  defines "e' \<equiv> snd (window_check m w e t)" and "a \<equiv> fst (window_check m w e t)"
  shows "rw_start e' = window_start_of w t" "rw_current e' \<le> m"
    "(if allowed a then 1 else 0) + (if window_start_of w t = rw_start e then unat (rw_current e) else 0)
       \<le> unat (rw_current e')"
proof -
  let ?r = "roll_over w t e"
  have c: "rw_current ?r = (if window_start_of w t = rw_start e then rw_current e else 0)"
    using assms(1) roll_over_same[of e w t] roll_over_new_window[of e w t] by auto
  show "rw_start e' = window_start_of w t"
    using assms(1) by (simp add: e'_def window_check_start roll_over_start)
  show "rw_current e' \<le> m"
    "(if allowed a then 1 else 0) + (if window_start_of w t = rw_start e then unat (rw_current e) else 0)
       \<le> unat (rw_current e')"
    using window_check_allowed[of m w e t] window_check_denied[of m w e t] c assms(2)
      unat_succ_below[of "rw_current ?r" m]
    by (cases "allowed a"; auto simp: a_def e'_def word_le_nat_alt split: if_splits)+
qed

lemma admitted_bounded:
  assumes "sorted ts" "\<forall>t \<in> set ts. rw_start e \<le> window_start_of w t" "rw_current e \<le> m"
  shows "admitted_in w k ts (replies (window_check m w) e ts)
    + (if k = rw_start e then unat (rw_current e) else 0) \<le> unat m"
  using assms
proof (induction ts arbitrary: e)
  case Nil
  then show ?case by (simp add: word_le_nat_alt)
next
  case (Cons t ts)
  let ?e = "snd (window_check m w e t)"
  note step = window_step_count[of e w t m]
  from Cons.prems have s: "rw_start ?e = window_start_of w t" "rw_current ?e \<le> m" using step by auto
  have "\<forall>t' \<in> set ts. rw_start ?e \<le> window_start_of w t'"
    using Cons.prems(1) s by (auto intro: window_start_mono)
  with Cons.IH[of ?e] Cons.prems(1) s
  have IH: "admitted_in w k ts (replies (window_check m w) ?e ts)
    + (if k = window_start_of w t then unat (rw_current ?e) else 0) \<le> unat m" by simp
  have "admitted_in w k ts (replies (window_check m w) ?e ts) = 0"
    if "k < window_start_of w t"
  proof -
    have "\<forall>t' \<in> set ts. window_start_of w t' \<noteq> k"
      using that s \<open>\<forall>t' \<in> set ts. rw_start ?e \<le> window_start_of w t'\<close> by auto
    then show ?thesis by (auto simp: admitted_in_def filter_empty_conv dest: set_zip_leftD)
  qed
  moreover have "unat (rw_current e) \<le> unat m" using Cons.prems(3) by (simp add: word_le_nat_alt)
  ultimately show ?case
    using IH step(3) Cons.prems by (cases "k = window_start_of w t") auto
qed

section \<open>The whole limiter\<close>

text \<open>
  A request names a policy, a client and a time; \<open>tier\<close> gives a policy its limit and window, as
  the configuration does. A reply \<open>None\<close> is the panic on a zero window, before any change.
\<close>

type_synonym rl_request = "string \<times> IpAddr \<times> u64"

fun limiter_serve ::
  "(string \<Rightarrow> u64 \<times> u64) \<Rightarrow> MemoryRateLimiter \<Rightarrow> rl_request \<Rightarrow> Allowance option \<times> MemoryRateLimiter" where
  "limiter_serve tier l (policy, ip, now) =
     (case check_at l policy ip (fst (tier policy)) (snd (tier policy)) now of
        None \<Rightarrow> (None, l)
      | Some (a, l') \<Rightarrow> (Some a, l'))"

fun request_key :: "rl_request \<Rightarrow> string" where
  "request_key (policy, ip, now) = key_for policy ip"

fun request_time :: "rl_request \<Rightarrow> u64" where
  "request_time (policy, ip, now) = now"

fun entry_serve ::
  "(string \<Rightarrow> u64 \<times> u64) \<Rightarrow> RWindow option \<Rightarrow> rl_request \<Rightarrow> Allowance option \<times> RWindow option" where
  "entry_serve tier entry (policy, ip, now) =
     (let w = snd (tier policy) in
      if w = 0 then (None, entry)
      else let (a, e) = window_check (fst (tier policy)) w
             (case entry of None \<Rightarrow> fresh_window w now | Some e \<Rightarrow> e) now
           in (Some a, Some e))"

interpretation rl: keyed_service "\<lambda>l :: MemoryRateLimiter. l" "limiter_serve tier" request_key "entry_serve tier"
  for tier
proof unfold_locales
  show "fst (limiter_serve tier s e) = fst (entry_serve tier (s (request_key e)) e)" for s e
    by (cases e) (auto simp: check_at_def Let_def split: prod.splits)
  show "snd (limiter_serve tier s e) (request_key e) = snd (entry_serve tier (s (request_key e)) e)" for s e
    by (cases e) (auto simp: check_at_def Let_def split: prod.splits)
  show "snd (limiter_serve tier s e) k = s k" if "k \<noteq> request_key e" for k e s
    using that by (cases e) (auto simp: check_at_def Let_def split: prod.splits)
qed

lemma key_for_eq_iff: "key_for p i = key_for q j \<longleftrightarrow> p = q \<and> bucket i = bucket j"
proof
  assume "key_for p i = key_for q j"
  then have "p = q \<and> show_ip (bucket i) = show_ip (bucket j)"
    unfolding key_for_def by (rule bar_split[OF show_ip_no_bar show_ip_no_bar])
  then show "p = q \<and> bucket i = bucket j" using show_bucket_inj by blast
qed (simp add: key_for_def)

text \<open>Along the requests of one key an existing entry is just checked, time after time.\<close>

lemma entry_replies:
  assumes "\<forall>r \<in> set rs. fst r = p" "tier p = (m, w)" "w \<noteq> 0"
  shows "replies (entry_serve tier) (Some e) rs = map Some (replies (window_check m w) e (map request_time rs))"
  using assms
proof (induction rs arbitrary: e)
  case (Cons r rs)
  obtain i t where "r = (p, i, t)" using Cons.prems(1) by (cases r) auto
  with Cons show ?case by (simp add: Let_def split: prod.splits)
qed simp

lemma entry_replies_fresh:
  assumes "\<forall>r \<in> set (r # rs). fst r = p" "tier p = (m, w)" "w \<noteq> 0"
  shows "replies (entry_serve tier) None (r # rs) =
    map Some (replies (window_check m w) (fresh_window w (request_time r)) (map request_time (r # rs)))"
proof -
  have "entry_serve tier None r = entry_serve tier (Some (fresh_window w (request_time r))) r"
    using assms by (cases r) (simp add: Let_def)
  then show ?thesis
    using entry_replies[of "r # rs" p tier m w "fresh_window w (request_time r)"] assms by simp
qed

text \<open>Requests of a key that were admitted in the aligned window starting at \<open>k\<close>.\<close>

definition admitted_requests :: "u64 \<Rightarrow> u64 \<Rightarrow> (rl_request \<times> Allowance option) list \<Rightarrow> nat" where
  "admitted_requests w k hist =
     length (filter (\<lambda>(r, a). (\<exists>x. a = Some x \<and> allowed x) \<and> window_start_of w (request_time r) = k) hist)"

lemma admitted_requests_zip:
  "length as = length rs \<Longrightarrow>
   admitted_requests w k (zip rs (map Some as)) = admitted_in w k (map request_time rs) as"
  by (induction as rs rule: list_induct2) (auto simp: admitted_requests_def admitted_in_def)

lemma admitted_requests_filter:
  "admitted_requests w k (filter P hist) =
   length (filter (\<lambda>(r, a). P (r, a) \<and> (\<exists>x. a = Some x \<and> allowed x) \<and> window_start_of w (request_time r) = k) hist)"
  unfolding admitted_requests_def by (induction hist) auto

lemma sorted_map_filter: "sorted (map f xs) \<Longrightarrow> sorted (map f (filter P xs))"
  by (simp add: sorted_filter)

section \<open>Properties\<close>

text \<open>C15: the free tier never gives away more than its limit. In any history of requests from any
  clients under any policies, with the clock never going backwards, the requests of one
  client under one policy that are admitted within one aligned window are at most the
  policy's limit, whatever the floating-point estimate rounds to.\<close>

theorem free_tier_limit_per_window:
  assumes "tier policy = (max_requests, window_secs)" "window_secs \<noteq> 0"
    and "sorted (map request_time requests)"
  shows "admitted_requests window_secs k
    (filter (\<lambda>(r, a). request_key r = key_for policy ip)
      (zip requests (replies (limiter_serve tier) limiter_new requests))) \<le> unat max_requests"
proof -
  let ?own = "filter (\<lambda>r. request_key r = key_for policy ip) requests"
  have hist: "filter (\<lambda>(r, a). request_key r = key_for policy ip)
      (zip requests (replies (limiter_serve tier) limiter_new requests)) =
      zip ?own (replies (entry_serve tier) None ?own)"
    using rl.replies_of_key[of "key_for policy ip" requests tier limiter_new]
    by (simp add: Let_def limiter_new_def)
  show ?thesis
  proof (cases ?own)
    case Nil
    then show ?thesis unfolding hist by (simp add: admitted_requests_def)
  next
    case (Cons r rs)
    let ?ts = "map request_time (r # rs)" and ?e = "fresh_window window_secs (request_time r)"
    have p: "\<forall>x \<in> set (r # rs). fst x = policy"
      using Cons[symmetric] by (auto simp: key_for_eq_iff)
    have s: "sorted ?ts" using assms(3) Cons[symmetric] by (simp only: sorted_map_filter)
    have ge: "\<forall>t \<in> set ?ts. rw_start ?e \<le> window_start_of window_secs t"
      using s by (auto simp: fresh_window_def intro!: window_start_mono)
    have "replies (entry_serve tier) None (r # rs) =
        map Some (replies (window_check max_requests window_secs) ?e ?ts)"
      using p assms(1,2) by (rule entry_replies_fresh)
    then have "admitted_requests window_secs k (zip ?own (replies (entry_serve tier) None ?own)) =
        admitted_in window_secs k ?ts (replies (window_check max_requests window_secs) ?e ?ts)"
      unfolding Cons by (simp add: admitted_requests_zip del: replies.simps list.map)
    also have "\<dots> \<le> unat max_requests"
      using admitted_bounded[OF s ge, of max_requests k] by (simp add: fresh_window_def)
    finally show ?thesis unfolding hist .
  qed
qed

theorem free_tier_limit_per_window_witness:
  "admitted_requests 60 960
    (filter (\<lambda>(r, a). request_key r = key_for ''grpc'' (V4 10 0 0 1))
      (zip [(''grpc'', V4 10 0 0 1, 1000), (''grpc'', V4 10 0 0 1, 1001), (''grpc'', V4 10 0 0 2, 1002)]
        (replies (limiter_serve (\<lambda>_. (1, 60))) limiter_new
          [(''grpc'', V4 10 0 0 1, 1000), (''grpc'', V4 10 0 0 1, 1001), (''grpc'', V4 10 0 0 2, 1002)]))) \<le> 1"
proof -
  have h: "(\<lambda>_. (1, 60)) ''grpc'' = (1 :: u64, 60 :: u64)" "(60 :: u64) \<noteq> 0"
    "sorted (map request_time [(''grpc'', V4 10 0 0 1, 1000), (''grpc'', V4 10 0 0 1, 1001),
       (''grpc'', V4 10 0 0 2, 1002)])" by simp_all
  have one: "unat (1 :: u64) = 1" by simp
  show ?thesis using free_tier_limit_per_window[where ip = "V4 10 0 0 1" and k = 960, OF h] unfolding one .
qed

text \<open>C33: a bucket is exactly a policy and a client. Two requests share a counter if and only if
  they name the same policy and the same metering unit: the same IPv4 address, or IPv6
  addresses in the same /64, however the policy names and addresses are spelled.\<close>

theorem bucket_key_identifies_policy_and_client:
  "key_for p i = key_for q j \<longleftrightarrow> p = q \<and>
   (case (i, j) of
      (V4 a b c d, V4 a' b' c' d') \<Rightarrow> [a, b, c, d] = [a', b', c', d']
    | (V6 a b c d e f g h, V6 a' b' c' d' e' f' g' h') \<Rightarrow> [a, b, c, d] = [a', b', c', d']
    | _ \<Rightarrow> False)"
  unfolding key_for_eq_iff by (cases i; cases j) auto

lemma f64_exact_add: "m + n \<le> 2 ^ 53 \<Longrightarrow> f64_add (of_nat m) (of_nat n) = of_nat (m + n)"
  unfolding f64_add_def by (metis f64.exact_nat of_nat_add)

lemma estimate_no_previous:
  assumes "rw_previous e = 0" "unat (rw_current e) \<le> 2 ^ 53"
  shows "estimate w elapsed e = of_nat (unat (rw_current e))"
proof -
  have "f64_of_u64 0 = 0" by (simp add: f64_of_u64_def f64.zero)
  then have "estimate w elapsed e = f64_add (of_nat (unat (rw_current e))) 0"
    using assms by (simp add: estimate_def Let_def f64_of_u64_small f64_mul_def f64.zero)
  then show ?thesis using f64_exact_add[of "unat (rw_current e)" 0] assms(2) by simp
qed

lemma f64_ceil_of_nat: "n < 2 ^ 64 \<Longrightarrow> f64_ceil_u64 (of_nat n) = word_of_nat n"
proof -
  assume n: "n < 2 ^ 64"
  have "nat \<lceil>of_nat n :: rat\<rceil> = n" by (metis ceiling_of_nat nat_int)
  with n show ?thesis by (simp add: f64_ceil_u64_def)
qed

lemma window_check_no_previous:
  assumes "rw_previous e = 0" "rw_start e = window_start_of w now" "rw_current e \<le> m" "unat m \<le> 2 ^ 53"
  shows "window_check m w e now =
    (\<lparr>allowed = rw_current e < m, al_remaining = (if rw_current e < m then m - 1 - rw_current e else 0),
      al_limit = m, reset_secs = w - (now - window_start_of w now)\<rparr>,
     e\<lparr>rw_window_secs := w, rw_current := (if rw_current e < m then rw_current e + 1 else rw_current e)\<rparr>)"
proof -
  let ?c = "rw_current e"
  have c: "unat ?c \<le> unat m" "unat ?c \<le> 2 ^ 53" using assms(3,4) by (auto simp: word_le_nat_alt)
  have est: "estimate w (now - window_start_of w now) (e\<lparr>rw_window_secs := w\<rparr>) = of_nat (unat ?c)"
    using assms(1) c by (subst estimate_no_previous) simp_all
  have m: "f64_of_u64 m = of_nat (unat m)" using assms(4) by (rule f64_of_u64_small)
  have cmp: "f64_of_u64 m \<le> of_nat (unat ?c) \<longleftrightarrow> \<not> ?c < m"
    unfolding m by (metis not_le of_nat_le_iff word_less_nat_alt)
  have rem: "remaining_after m (f64_add (of_nat (unat ?c)) 1) = m - 1 - ?c" if "?c < m"
  proof -
    have s: "Suc (unat ?c) \<le> 2 ^ 53" using that assms(4) by (simp add: word_less_nat_alt)
    then have "f64_add (of_nat (unat ?c)) 1 = of_nat (Suc (unat ?c))"
      using f64_exact_add[of "unat ?c" 1] by simp
    then have "f64_ceil_u64 (f64_add (of_nat (unat ?c)) 1) = ?c + 1"
      using s f64_ceil_of_nat[of "Suc (unat ?c)"] by simp
    moreover have "\<not> m < ?c + 1" using unat_succ_below[OF that] by (simp add: word_less_nat_alt)
    ultimately show ?thesis by (simp add: remaining_after_def sat_sub_def)
  qed
  show ?thesis
    using assms(2) est cmp rem by (simp add: window_check_def Let_def del: of_nat_unat)
qed

lemma window_replies_no_previous:
  assumes "rw_previous e = 0" "rw_start e = ws" "rw_current e \<le> m" "unat m \<le> 2 ^ 53"
    and "\<forall>t \<in> set ts. window_start_of w t = ws" "i < length ts"
  shows "replies (window_check m w) e ts ! i =
    \<lparr>allowed = unat (rw_current e) + i < unat m,
     al_remaining = (if unat (rw_current e) + i < unat m then m - 1 - (rw_current e + word_of_nat i) else 0),
     al_limit = m, reset_secs = w - (ts ! i - ws)\<rparr>"
  using assms
proof (induction ts arbitrary: e i)
  case (Cons t ts)
  let ?c = "rw_current e"
  let ?e = "e\<lparr>rw_window_secs := w, rw_current := (if ?c < m then ?c + 1 else ?c)\<rparr>"
  have chk: "window_check m w e t =
    (\<lparr>allowed = ?c < m, al_remaining = (if ?c < m then m - 1 - ?c else 0), al_limit = m,
      reset_secs = w - (t - ws)\<rparr>, ?e)"
    using Cons.prems by (subst window_check_no_previous) auto
  have le: "rw_current ?e \<le> m"
    using Cons.prems(3) unat_succ_below[of ?c m] by (auto simp: word_le_nat_alt)
  show ?case
  proof (cases i)
    case 0
    then show ?thesis by (simp add: chk word_less_nat_alt)
  next
    case (Suc j)
    have "replies (window_check m w) ?e ts ! j =
      \<lparr>allowed = unat (rw_current ?e) + j < unat m,
       al_remaining = (if unat (rw_current ?e) + j < unat m then m - 1 - (rw_current ?e + word_of_nat j) else 0),
       al_limit = m, reset_secs = w - (ts ! j - ws)\<rparr>"
      using Cons.prems Suc le by (intro Cons.IH) auto
    moreover have "unat (?c + 1) = Suc (unat ?c)" if "?c < m" using unat_succ_below[OF that] ..
    moreover have "unat ?c = unat m" if "\<not> ?c < m" using that Cons.prems(3) by (simp add: word_less_nat_alt word_le_nat_alt)
    ultimately show ?thesis
      using Suc by (cases "?c < m") (simp_all add: chk algebra_simps)
  qed
qed simp

text \<open>C32: in its first window a client gets exactly its limit. Among any traffic of other clients
  and policies, a client not seen before whose requests fall into one aligned window has
  precisely its first \<open>max_requests\<close> requests admitted, is told the number it has left after
  each, and the seconds to the end of the window (limits up to 2^53, where binary64 is exact).\<close>

theorem first_window_grants_exactly_the_limit:
  fixes requests :: "rl_request list"
  assumes "tier policy = (max_requests, window_secs)" "window_secs \<noteq> 0" "unat max_requests \<le> 2 ^ 53"
    and "l (key_for policy ip) = None"
  defines "own \<equiv> filter (\<lambda>(r, a). request_key r = key_for policy ip)
      (zip requests (replies (limiter_serve tier) l requests))"
  assumes "\<forall>(r, a) \<in> set own. window_start_of window_secs (request_time r) = ws"
    and "i < length own"
  shows "snd (own ! i) = Some
    \<lparr>allowed = i < unat max_requests,
     al_remaining = (if i < unat max_requests then max_requests - 1 - word_of_nat i else 0),
     al_limit = max_requests,
     reset_secs = window_secs - (request_time (fst (own ! i)) - ws)\<rparr>"
proof -
  let ?mine = "filter (\<lambda>r. request_key r = key_for policy ip) requests"
  have own: "own = zip ?mine (replies (entry_serve tier) None ?mine)"
    unfolding own_def using rl.replies_of_key[of "key_for policy ip" requests tier l] assms(4)
    by (simp add: Let_def)
  have i: "i < length ?mine" using assms(7) unfolding own by simp
  then obtain r rs where mine: "?mine = r # rs" by (cases ?mine) auto
  let ?ts = "map request_time ?mine" and ?e = "fresh_window window_secs (request_time r)"
  have p: "\<forall>x \<in> set (r # rs). fst x = policy"
    using mine[symmetric] by (auto simp: key_for_eq_iff)
  have reps: "replies (entry_serve tier) None ?mine =
      map Some (replies (window_check max_requests window_secs) ?e ?ts)"
    unfolding mine using p assms(1,2) by (rule entry_replies_fresh)
  have ts: "\<forall>t \<in> set ?ts. window_start_of window_secs t = ws"
  proof
    fix t assume "t \<in> set ?ts"
    then obtain x where x: "x \<in> set ?mine" "t = request_time x" by auto
    then obtain a where "(x, a) \<in> set own"
      unfolding own by (metis length_replies in_set_impl_in_set_zip1)
    with assms(6) x show "window_start_of window_secs t = ws" by auto
  qed
  have "rw_start ?e = ws" using ts mine by (simp add: fresh_window_def)
  then have "replies (window_check max_requests window_secs) ?e ?ts ! i =
    \<lparr>allowed = i < unat max_requests,
     al_remaining = (if i < unat max_requests then max_requests - 1 - word_of_nat i else 0),
     al_limit = max_requests, reset_secs = window_secs - (?ts ! i - ws)\<rparr>"
    using window_replies_no_previous[of ?e ws max_requests ?ts window_secs i] assms(3) ts i
    by (simp add: fresh_window_def)
  then show ?thesis unfolding own reps using i by simp
qed

theorem first_window_grants_exactly_the_limit_witness:
  "snd (filter (\<lambda>(r, a). request_key r = key_for ''grpc'' (V4 10 0 0 1))
      (zip [(''grpc'', V4 10 0 0 1, 1000), (''grpc'', V4 10 0 0 1, 1001)]
        (replies (limiter_serve (\<lambda>_. (1, 60))) limiter_new
          [(''grpc'', V4 10 0 0 1, 1000), (''grpc'', V4 10 0 0 1, 1001)])) ! 1) =
   Some \<lparr>allowed = False, al_remaining = 0, al_limit = 1, reset_secs = 19\<rparr>"
proof -
  let ?rs = "[(''grpc'', V4 10 0 0 1, 1000), (''grpc'', V4 10 0 0 1, 1001)] :: rl_request list"
  let ?own = "filter (\<lambda>(r, a). request_key r = key_for ''grpc'' (V4 10 0 0 1))
    (zip ?rs (replies (limiter_serve (\<lambda>_. (1, 60))) limiter_new ?rs))"
  have len: "1 < length ?own" by simp
  have at: "fst (?own ! 1) = (''grpc'', V4 10 0 0 1, 1001)" by simp
  have ws: "\<forall>(r, a) \<in> set ?own. window_start_of 60 (request_time r) = 960"
    by (simp add: window_start_of_def)
  show ?thesis
    using first_window_grants_exactly_the_limit[where tier = "\<lambda>_. (1, 60)" and l = limiter_new
        and requests = ?rs and policy = "''grpc''" and ip = "V4 10 0 0 1", OF _ _ _ _ ws len]
    unfolding at by (simp add: limiter_new_def)
qed

text \<open>
  The sweep removes an entry only once its next check would reset it anyway.
\<close>

lemma stale_entry_resets:
  assumes "unat (rw_start e) + 2 * unat w < unat now" "now \<le> t" "w \<noteq> 0"
  shows "roll_over w t e = fresh_window w t"
proof -
  have "unat w > 0" using assms(3) by (simp add: unat_gt_0)
  then have "unat t mod unat w < unat w" by simp
  then have ws: "unat (rw_start e) + unat w < unat (window_start_of w t)"
    using assms(1,2) unfolding unat_window_start word_le_nat_alt by linarith
  then have gt: "rw_start e < window_start_of w t" by (simp add: word_less_nat_alt)
  then have "unat (window_start_of w t - rw_start e) = unat (window_start_of w t) - unat (rw_start e)"
    by (simp add: unat_sub)
  with ws have "window_start_of w t - rw_start e \<noteq> w" by auto
  with gt show ?thesis by (simp add: roll_over_def fresh_window_def Let_def)
qed

lemma roll_over_fresh [simp]: "roll_over w t (fresh_window w t) = fresh_window w t"
  by (simp add: fresh_window_def)

lemma window_check_stale:
  assumes "unat (rw_start e) + 2 * unat w < unat now" "now \<le> t" "w \<noteq> 0"
  shows "window_check m w e t = window_check m w (fresh_window w t) t"
  unfolding window_check_def by (simp add: stale_entry_resets[OF assms])

text \<open>Two entries of a key with window \<open>w\<close> that no check at or after \<open>now\<close> can tell apart.\<close>

definition sweep_equiv :: "u64 \<Rightarrow> u64 \<Rightarrow> RWindow option \<Rightarrow> RWindow option \<Rightarrow> bool" where
  "sweep_equiv w now x y \<longleftrightarrow> x = y \<or>
     y = None \<and> (\<exists>e. x = Some e \<and> unat (rw_start e) + 2 * unat w < unat now)"

lemma sweep_equiv_serve:
  assumes "sweep_equiv (snd (tier (fst r))) now x y" "now \<le> request_time r"
  shows "fst (entry_serve tier x r) = fst (entry_serve tier y r)"
    "sweep_equiv (snd (tier (fst r))) now (snd (entry_serve tier x r)) (snd (entry_serve tier y r))"
  using assms window_check_stale[of _ "snd (tier (fst r))" now "request_time r" "fst (tier (fst r))"]
  by (cases r; auto simp: sweep_equiv_def Let_def split: prod.splits)+

lemma sweep_equiv_replies:
  assumes "\<And>p i. sweep_equiv (snd (tier p)) now (l (key_for p i)) (l' (key_for p i))"
    and "\<forall>r \<in> set rs. now \<le> request_time r"
  shows "replies (limiter_serve tier) l rs = replies (limiter_serve tier) l' rs"
  using assms
proof (induction rs arbitrary: l l')
  case (Cons r rs)
  let ?n = "snd (limiter_serve tier l r)" and ?n' = "snd (limiter_serve tier l' r)"
  obtain p i t where r: "r = (p, i, t)" by (cases r)
  have own: "sweep_equiv (snd (tier (fst r))) now (l (request_key r)) (l' (request_key r))"
    using Cons.prems(1) r by simp
  have "now \<le> request_time r" using Cons.prems(2) by simp
  note serve = sweep_equiv_serve[of tier r now "l (request_key r)" "l' (request_key r)", OF own this]
  have "sweep_equiv (snd (tier q)) now (?n (key_for q j)) (?n' (key_for q j))" for q j
  proof (cases "key_for q j = request_key r")
    case True
    then have "q = p" using r by (simp add: key_for_eq_iff)
    then show ?thesis unfolding True rl.own_view using serve(2) r by simp
  next
    case False
    then show ?thesis unfolding rl.other_view[OF False] using Cons.prems(1) by simp
  qed
  then have "replies (limiter_serve tier) ?n rs = replies (limiter_serve tier) ?n' rs"
    using Cons.prems(2) by (intro Cons.IH) auto
  then show ?case using serve(1) by (simp add: rl.own_reply)
qed simp

text \<open>Every entry remembers the window of its policy.\<close>

definition windows_match :: "(string \<Rightarrow> u64 \<times> u64) \<Rightarrow> MemoryRateLimiter \<Rightarrow> bool" where
  "windows_match tier l \<longleftrightarrow> (\<forall>p i e. l (key_for p i) = Some e \<longrightarrow> rw_window_secs e = snd (tier p))"

lemma window_check_window_secs: "rw_window_secs (snd (window_check m w e t)) = w"
  by (simp add: window_check_def roll_over_def Let_def)

lemma windows_match_serve: "windows_match tier l \<Longrightarrow> windows_match tier (snd (limiter_serve tier l r))"
proof -
  assume l: "windows_match tier l"
  obtain p i t where r: "r = (p, i, t)" by (cases r)
  have "rw_window_secs e = snd (tier q)" if "snd (limiter_serve tier l r) (key_for q j) = Some e" for q j e
  proof (cases "key_for q j = request_key r")
    case True
    then have q: "q = p" using r by (simp add: key_for_eq_iff)
    have e: "snd (entry_serve tier (l (key_for p i)) r) = Some e"
      using that r unfolding True rl.own_view by simp
    show ?thesis
    proof (cases "snd (tier p) = 0")
      case True
      with e have "l (key_for p i) = Some e" using r by simp
      then show ?thesis using l q by (simp add: windows_match_def)
    next
      case False
      with e obtain x where "e = snd (window_check (fst (tier p)) (snd (tier p)) x t)"
        using r by (auto simp: Let_def split_beta)
      then show ?thesis using q by (simp add: window_check_window_secs)
    qed
  next
    case False
    then show ?thesis using that l unfolding rl.other_view[OF False] windows_match_def by blast
  qed
  then show ?thesis by (simp add: windows_match_def)
qed

lemma windows_match_run: "windows_match tier l \<Longrightarrow> windows_match tier (run_state (limiter_serve tier) l rs)"
  by (induction rs arbitrary: l) (simp_all add: windows_match_serve)

lemma sweep_equiv_cleanup:
  assumes "windows_match tier l" "2 * unat (snd (tier p)) < 2 ^ 64"
  shows "sweep_equiv (snd (tier p)) now (l (key_for p i)) (snd (cleanup_idle_at l now) (key_for p i))"
proof (cases "l (key_for p i)")
  case (Some e)
  have w: "rw_window_secs e = snd (tier p)" using assms(1) Some by (auto simp: windows_match_def)
  have "unat (snd (tier p) * 2) = 2 * unat (snd (tier p))"
    using assms(2) by (simp add: unat_word_ariths mult.commute)
  with Some w show ?thesis
    by (auto simp: cleanup_idle_at_def Let_def sweep_equiv_def word_le_nat_alt)
qed (simp add: cleanup_idle_at_def Let_def sweep_equiv_def)

text \<open>Reaping idle rate-limit entries changes no answer. After any traffic, sweeping at \<open>now\<close>
  and then serving requests made at or after \<open>now\<close> gives the replies that serving them without
  the sweep gives, as long as twice a configured window fits in 64 bits.\<close>

lemma idle_sweep_is_transparent:
  assumes "\<forall>p. 2 * unat (snd (tier p)) < 2 ^ 64" "\<forall>r \<in> set later. now \<le> request_time r"
  shows "let l = run_state (limiter_serve tier) limiter_new earlier in
    replies (limiter_serve tier) (snd (cleanup_idle_at l now)) later = replies (limiter_serve tier) l later"
proof -
  let ?l = "run_state (limiter_serve tier) limiter_new earlier"
  have "windows_match tier ?l"
    by (intro windows_match_run) (simp add: windows_match_def limiter_new_def)
  then have "replies (limiter_serve tier) ?l later =
      replies (limiter_serve tier) (snd (cleanup_idle_at ?l now)) later"
    using assms sweep_equiv_cleanup[of tier ?l] by (intro sweep_equiv_replies[of tier now]) blast+
  then show ?thesis by (simp add: Let_def)
qed

lemma idle_sweep_is_transparent_example:
  "let l = run_state (limiter_serve (\<lambda>_. (1, 60))) limiter_new [(''grpc'', V4 10 0 0 1, 1000)] in
    replies (limiter_serve (\<lambda>_. (1, 60))) (snd (cleanup_idle_at l 2000)) [(''grpc'', V4 10 0 0 1, 2000)] =
    replies (limiter_serve (\<lambda>_. (1, 60))) l [(''grpc'', V4 10 0 0 1, 2000)]"
  by (rule idle_sweep_is_transparent) simp_all

end
