(* ===== verification/RedisStores.thy ===== *)
theory RedisStores
  imports Session RateLimit
begin

text \<open>
  The Redis-backed session store and rate limiter (src/session.rs, src/ratelimit.rs) and the
  two enums that dispatch between the backends.

  Redis is a service: its commands are the fields of \<open>redis\<close>, over a server state of any type
  \<open>'r\<close>, and \<open>rd_link\<close> decides the fate of each round trip (answered, lost after the server ran it,
  or never sent). The Lua scripts are in the source, so they are definitions here, over those
  commands, with Lua's numbers as binary64. A script aborts on the first command error; the
  MULTI/EXEC pipeline of \<open>create_session\<close> runs every command and reports the first error.
\<close>

section \<open>The server\<close>

datatype redis_link = Answered | LostReply string | NotSent string

record 'r redis =
  rd_link :: "'r \<Rightarrow> redis_link \<times> 'r"
  rd_get :: "string \<Rightarrow> ('r, string, string option) eff"
  rd_set_ex :: "string \<Rightarrow> string \<Rightarrow> int \<Rightarrow> ('r, string, unit) eff"
  rd_del :: "string \<Rightarrow> ('r, string, unit) eff"
  rd_incr :: "string \<Rightarrow> ('r, string, unit) eff"
  rd_expire :: "string \<Rightarrow> int \<Rightarrow> ('r, string, unit) eff"
  rd_hget :: "string \<Rightarrow> string \<Rightarrow> ('r, string, string option) eff"
  rd_hset :: "string \<Rightarrow> string \<Rightarrow> string \<Rightarrow> ('r, string, unit) eff"
  rd_hincrby :: "string \<Rightarrow> string \<Rightarrow> int \<Rightarrow> ('r, string, unit) eff"

definition round_trip :: "'r redis \<Rightarrow> ('r, string, 'a) eff \<Rightarrow> ('r, string, 'a) eff" where
  "round_trip R request r =
     (case rd_link R r of
        (Answered, r1) \<Rightarrow> request r1
      | (LostReply e, r1) \<Rightarrow> (Inl e, snd (request r1))
      | (NotSent e, r1) \<Rightarrow> (Inl e, r1))"

fun pipe_atomic :: "('r, string, unit) eff list \<Rightarrow> ('r, string, unit) eff" where
  "pipe_atomic [] r = (Inr (), r)"
| "pipe_atomic (c # cs) r =
     (let (x, r1) = c r; (y, r2) = pipe_atomic cs r1 in (case x of Inl e \<Rightarrow> Inl e | Inr _ \<Rightarrow> y, r2))"

text \<open>
  Lua's \<open>tonumber\<close> on the integers the service stores, and the conversion of a Lua number to an
  integer reply (truncation; the numbers replied are never negative).
\<close>

definition lua_tonumber :: "string \<Rightarrow> f64 option" where
  "lua_tonumber s = map_option (\<lambda>i. rnd (of_int i)) (parse_signed 65 s)"

definition lua_reply :: "f64 \<Rightarrow> int" where
  "lua_reply x = \<lfloor>x\<rfloor>"

section \<open>The session store\<close>

definition REDIS_SESSION_PREFIX :: string where "REDIS_SESSION_PREFIX = ''x402:sess:''"
definition REDIS_REPLAY_PREFIX :: string where "REDIS_REPLAY_PREFIX = ''x402:seen:''"
definition REDIS_RATELIMIT_PREFIX :: string where "REDIS_RATELIMIT_PREFIX = ''x402:rl:''"

definition CLAIM_SCRIPT :: "'r redis \<Rightarrow> string \<Rightarrow> string \<Rightarrow> int \<Rightarrow> ('r, string, int \<times> string) eff" where
  "CLAIM_SCRIPT R key now ttl =
     eff_bind (rd_get R key) (\<lambda>existing.
       case existing of
         Some first_seen \<Rightarrow> eff_return (0, first_seen)
       | None \<Rightarrow> eff_bind (rd_set_ex R key now ttl) (\<lambda>_. eff_return (1, now)))"

definition SPEND_SCRIPT :: "'r redis \<Rightarrow> string \<Rightarrow> string \<Rightarrow> ('r, string, int \<times> string \<times> int) eff" where
  "SPEND_SCRIPT R key policy_arg =
     eff_bind (rd_hget R key ''payer'') (\<lambda>payer. case payer of
       None \<Rightarrow> eff_return (- 2, [], 0)
     | Some payer \<Rightarrow>
         eff_bind (rd_hget R key ''policy'') (\<lambda>policy.
         if (case policy of None \<Rightarrow> [] | Some p \<Rightarrow> p) \<noteq> policy_arg then eff_return (- 3, payer, 0)
         else eff_bind (rd_hget R key ''quota'') (\<lambda>quota. case Option.bind quota lua_tonumber of
           None \<Rightarrow> eff_return (- 1, payer, 0)
         | Some quota \<Rightarrow>
             if quota \<le> 0 then eff_return (- 1, payer, 0)
             else eff_bind (rd_hincrby R key ''quota'' (- 1)) (\<lambda>_.
               eff_bind (rd_hget R key ''granted'') (\<lambda>granted.
               eff_return (lua_reply (rnd (quota - 1)), payer,
                 lua_reply (case Option.bind granted lua_tonumber of None \<Rightarrow> quota | Some g \<Rightarrow> g)))))))"

record RedisSessionStore =
  rs_codec :: TokenCodec

definition redis_key :: "string \<Rightarrow> string" where
  "redis_key session_id = REDIS_SESSION_PREFIX @ session_id"

text \<open>A reply that does not fit the Rust tuple is an error of the client library.\<close>

definition u64_reply :: "int \<Rightarrow> string + u64" where
  "u64_reply i = (if 0 \<le> i \<and> i < 2 ^ 64 then Inr (word_of_int i) else Inl ''not a u64'')"

definition redis_claim_payment ::
  "'r redis \<Rightarrow> string \<Rightarrow> u64 \<Rightarrow> u64 \<Rightarrow> 'r \<Rightarrow> PaymentClaim \<times> 'r" where
  "redis_claim_payment R payment_id ttl_secs now r =
     (case round_trip R (CLAIM_SCRIPT R (REDIS_REPLAY_PREFIX @ payment_id) (show_u64 now) (uint ttl_secs)) r of
        (Inr (flag, seen), r1) \<Rightarrow>
          (case parse_u64 seen of
             None \<Rightarrow> (PaymentClaim.Backend, r1)
           | Some first_seen \<Rightarrow> (if flag = 1 then Fresh else Replay first_seen, r1))
      | (Inl e, r1) \<Rightarrow> (PaymentClaim.Backend, r1))"

definition redis_create_session ::
  "crypto \<Rightarrow> 'r redis \<Rightarrow> bytes \<Rightarrow> RedisSessionStore \<Rightarrow> string \<Rightarrow> string option \<Rightarrow> u64 \<Rightarrow> u64 \<Rightarrow> u64
    \<Rightarrow> ('r, string, string) eff" where
  "redis_create_session C R raw s payer policy quota ttl_secs now =
     (let session_id = new_session_id C raw;
          expires_at = sat_add now ttl_secs;
          key = redis_key session_id in
      eff_bind (round_trip R (pipe_atomic
        [rd_hset R key ''payer'' payer, rd_hset R key ''quota'' (show_u64 quota),
         rd_hset R key ''granted'' (show_u64 quota),
         rd_hset R key ''policy'' (case policy of None \<Rightarrow> [] | Some p \<Rightarrow> p),
         rd_expire R key (sint ttl_secs)]))
        (\<lambda>_. eff_return (mint C (rs_codec s) payer expires_at session_id)))"

definition redis_release_payment :: "'r redis \<Rightarrow> string \<Rightarrow> 'r \<Rightarrow> 'r" where
  "redis_release_payment R payment_id r =
     snd (round_trip R (rd_del R (REDIS_REPLAY_PREFIX @ payment_id)) r)"

definition redis_consume ::
  "crypto \<Rightarrow> 'r redis \<Rightarrow> RedisSessionStore \<Rightarrow> string \<Rightarrow> string option \<Rightarrow> u64 \<Rightarrow> 'r \<Rightarrow> SessionOutcome \<times> 'r" where
  "redis_consume C R s token policy now r =
     (case verify C (rs_codec s) token now of
        Inl rejection \<Rightarrow> (Rejected rejection, r)
      | Inr claims \<Rightarrow>
          (case round_trip R (SPEND_SCRIPT R (redis_key (claim_session_id claims))
                  (case policy of None \<Rightarrow> [] | Some p \<Rightarrow> p)) r of
             (Inl e, r1) \<Rightarrow> (Rejected SessionRejection.Backend, r1)
           | (Inr (remaining, payer, quota), r1) \<Rightarrow>
               (case u64_reply quota of
                  Inl e \<Rightarrow> (Rejected SessionRejection.Backend, r1)
                | Inr granted \<Rightarrow>
                    (if remaining = - 2 then Rejected Unknown
                     else if remaining = - 3 then Rejected WrongPolicy
                     else if remaining = - 1 then Rejected QuotaExhausted
                     else Accepted payer (word_of_int (max remaining 0)) granted (claim_expires_at claims), r1))))"

section \<open>The rate limiter\<close>

definition CHECK_SCRIPT ::
  "'r redis \<Rightarrow> string \<Rightarrow> string \<Rightarrow> u64 \<Rightarrow> u64 \<Rightarrow> f64 \<Rightarrow> ('r, string, int \<times> int) eff" where
  "CHECK_SCRIPT R current_key previous_key limit ttl carry =
     eff_bind (rd_get R current_key) (\<lambda>c.
     eff_bind (rd_get R previous_key) (\<lambda>p.
     case (lua_tonumber (case c of None \<Rightarrow> ''0'' | Some s \<Rightarrow> s), lua_tonumber (case p of None \<Rightarrow> ''0'' | Some s \<Rightarrow> s)) of
       (Some cur, Some prev) \<Rightarrow>
         (let limit_n = f64_of_u64 limit; est = f64_add cur (f64_mul prev carry) in
          if est \<ge> limit_n then eff_return (0, 0)
          else eff_bind (rd_incr R current_key) (\<lambda>_.
            eff_bind (rd_expire R current_key (uint ttl)) (\<lambda>_.
            let remaining = rnd (limit_n - of_int \<lceil>f64_add est 1\<rceil>) in
            eff_return (1, lua_reply (if remaining < 0 then 0 else remaining)))))
     | _ \<Rightarrow> eff_fail ''attempt to perform arithmetic on a nil value''))"

definition redis_check_at ::
  "'r redis \<Rightarrow> string \<Rightarrow> IpAddr \<Rightarrow> u64 \<Rightarrow> u64 \<Rightarrow> u64 \<Rightarrow> 'r \<Rightarrow> (Allowance \<times> 'r) option" where
  "redis_check_at R policy ip max_requests window_secs now r =
     (if window_secs = 0 then None
      else
        let key = key_for policy ip;
            window_start = window_start_of window_secs now;
            previous_start = sat_sub window_start window_secs;
            elapsed = now - window_start;
            carry = f64_div (f64_of_u64 (window_secs - elapsed)) (f64_of_u64 window_secs);
            reset = window_secs - elapsed;
            denied = \<lparr>allowed = False, al_remaining = 0, al_limit = max_requests, reset_secs = reset\<rparr> in
        case round_trip R (CHECK_SCRIPT R
               (REDIS_RATELIMIT_PREFIX @ key @ '':'' @ show_u64 window_start)
               (REDIS_RATELIMIT_PREFIX @ key @ '':'' @ show_u64 previous_start)
               max_requests (window_secs * 2) carry) r of
          (Inl e, r1) \<Rightarrow> Some (denied, r1)
        | (Inr (flag, rem), r1) \<Rightarrow>
            (case u64_reply rem of
               Inl e \<Rightarrow> Some (denied, r1)
             | Inr remaining \<Rightarrow>
                 Some (\<lparr>allowed = (flag = 1), al_remaining = (if flag = 1 then remaining else 0),
                        al_limit = max_requests, reset_secs = reset\<rparr>, r1)))"

section \<open>Backends\<close>

datatype SessionStore = MemoryStore MemorySessionStore | RedisStore RedisSessionStore

datatype RateLimiter = MemoryLimiter MemoryRateLimiter | RedisLimiter

text \<open>
  The operations of the two enums. Each takes and returns the store and the state of the Redis
  server; random bytes and clock are arguments.
\<close>

fun store_create_session ::
  "crypto \<Rightarrow> 'r redis \<Rightarrow> bytes \<Rightarrow> string \<Rightarrow> string option \<Rightarrow> u64 \<Rightarrow> u64 \<Rightarrow> u64 \<Rightarrow> SessionStore \<times> 'r
    \<Rightarrow> (string + string) \<times> SessionStore \<times> 'r" where
  "store_create_session C R raw payer policy quota ttl_secs now (MemoryStore s, r) =
     (let (token, s1) = create_session_at C raw s payer policy quota ttl_secs now in
      (Inr token, MemoryStore s1, r))"
| "store_create_session C R raw payer policy quota ttl_secs now (RedisStore s, r) =
     (let (res, r1) = redis_create_session C R raw s payer policy quota ttl_secs now r in
      (res, RedisStore s, r1))"

fun store_consume ::
  "crypto \<Rightarrow> 'r redis \<Rightarrow> string \<Rightarrow> string option \<Rightarrow> u64 \<Rightarrow> SessionStore \<times> 'r
    \<Rightarrow> SessionOutcome \<times> SessionStore \<times> 'r" where
  "store_consume C R token policy now (MemoryStore s, r) =
     (let (oc, s1) = consume_at C s token policy now in (oc, MemoryStore s1, r))"
| "store_consume C R token policy now (RedisStore s, r) =
     (let (oc, r1) = redis_consume C R s token policy now r in (oc, RedisStore s, r1))"

fun store_claim_payment ::
  "'r redis \<Rightarrow> string \<Rightarrow> u64 \<Rightarrow> u64 \<Rightarrow> SessionStore \<times> 'r \<Rightarrow> PaymentClaim \<times> SessionStore \<times> 'r" where
  "store_claim_payment R payment_id ttl_secs now (MemoryStore s, r) =
     (let (c, s1) = claim_payment_at s payment_id ttl_secs now in (c, MemoryStore s1, r))"
| "store_claim_payment R payment_id ttl_secs now (RedisStore s, r) =
     (let (c, r1) = redis_claim_payment R payment_id ttl_secs now r in (c, RedisStore s, r1))"

fun store_release_payment :: "'r redis \<Rightarrow> string \<Rightarrow> SessionStore \<times> 'r \<Rightarrow> SessionStore \<times> 'r" where
  "store_release_payment R payment_id (MemoryStore s, r) = (MemoryStore (release_payment s payment_id), r)"
| "store_release_payment R payment_id (RedisStore s, r) = (RedisStore s, redis_release_payment R payment_id r)"

fun store_cleanup_expired :: "u64 \<Rightarrow> SessionStore \<Rightarrow> nat \<times> SessionStore" where
  "store_cleanup_expired now (MemoryStore s) = (let (n, s1) = cleanup_expired_at s now in (n, MemoryStore s1))"
| "store_cleanup_expired now (RedisStore s) = (0, RedisStore s)"

fun session_store_len :: "SessionStore \<Rightarrow> nat" where
  "session_store_len (MemoryStore s) = store_len s"
| "session_store_len (RedisStore s) = 0"

fun limiter_check ::
  "'r redis \<Rightarrow> string \<Rightarrow> IpAddr \<Rightarrow> u64 \<Rightarrow> u64 \<Rightarrow> u64 \<Rightarrow> RateLimiter \<times> 'r
    \<Rightarrow> (Allowance \<times> RateLimiter \<times> 'r) option" where
  "limiter_check R policy ip max_requests window_secs now (MemoryLimiter l, r) =
     map_option (\<lambda>(a, l1). (a, MemoryLimiter l1, r)) (check_at l policy ip max_requests window_secs now)"
| "limiter_check R policy ip max_requests window_secs now (RedisLimiter, r) =
     map_option (\<lambda>(a, r1). (a, RedisLimiter, r1)) (redis_check_at R policy ip max_requests window_secs now r)"

fun limiter_cleanup_idle :: "u64 \<Rightarrow> RateLimiter \<Rightarrow> nat \<times> RateLimiter" where
  "limiter_cleanup_idle now (MemoryLimiter l) = (let (n, l1) = cleanup_idle_at l now in (n, MemoryLimiter l1))"
| "limiter_cleanup_idle now RedisLimiter = (0, RedisLimiter)"

fun rate_limiter_len :: "RateLimiter \<Rightarrow> nat" where
  "rate_limiter_len (MemoryLimiter l) = limiter_len l"
| "rate_limiter_len RedisLimiter = 0"

end
