(* ===== verification/Breaker.thy ===== *)
theory Breaker
  imports F64
begin

text \<open>
  The settlement circuit breaker (src/breaker.rs): one window of recent settlement outcomes
  per policy, which opens after repeated failures, lets one probe through per cooldown and
  closes on a success. The clock is an argument, as in \<open>state_at\<close> and \<open>record_at\<close>.

  First the model, then its invariant, the refinement to a counter of consecutive failures,
  the isolation of policies (an instance of the locale \<open>keyed_component\<close>), and what the single
  probe means for an open breaker.
\<close>

section \<open>Model\<close>

definition WINDOW :: nat where "WINDOW = 20"
definition MIN_SAMPLES :: nat where "MIN_SAMPLES = 5"
definition FAILURE_THRESHOLD :: f64 where "FAILURE_THRESHOLD = 1 / 2"
definition COOLDOWN_SECS :: u64 where "COOLDOWN_SECS = 30"

lemmas breaker_consts = WINDOW_def MIN_SAMPLES_def FAILURE_THRESHOLD_def COOLDOWN_SECS_def

datatype BreakerState = Closed | Open | HalfOpen

fun accepts_payment :: "BreakerState \<Rightarrow> bool" where
  "accepts_payment Closed = True"
| "accepts_payment HalfOpen = True"
| "accepts_payment Open = False"

fun breaker_as_str :: "BreakerState \<Rightarrow> string" where
  "breaker_as_str Closed = ''closed''"
| "breaker_as_str Open = ''open''"
| "breaker_as_str HalfOpen = ''half_open''"

record BWindow =
  outcomes :: "bool list"
  opened_at :: "u64 option"
  probing :: bool

definition default_window :: BWindow where
  "default_window = \<lparr>outcomes = [], opened_at = None, probing = False\<rparr>"

type_synonym SettlementBreaker = "string \<rightharpoonup> BWindow"

definition breaker_new :: SettlementBreaker where
  "breaker_new = Map.empty"

text \<open>\<open>policies.entry(policy).or_default()\<close>.\<close>

definition window_of :: "SettlementBreaker \<Rightarrow> string \<Rightarrow> BWindow" where
  "window_of b p = (case b p of None \<Rightarrow> default_window | Some w \<Rightarrow> w)"

definition window_state_at :: "BWindow \<Rightarrow> u64 \<Rightarrow> BreakerState \<times> BWindow" where
  "window_state_at w now =
     (case opened_at w of
        None \<Rightarrow> (Closed, w)
      | Some opened \<Rightarrow>
          if sat_sub now opened < COOLDOWN_SECS then (Open, w)
          else if probing w then (Open, w)
          else (HalfOpen, w\<lparr>probing := True\<rparr>))"

definition state_at :: "SettlementBreaker \<Rightarrow> string \<Rightarrow> u64 \<Rightarrow> BreakerState \<times> SettlementBreaker" where
  "state_at b p now = (case window_state_at (window_of b p) now of (s, w) \<Rightarrow> (s, b(p \<mapsto> w)))"

text \<open>\<open>while outcomes.len() > WINDOW { outcomes.pop_front(); }\<close>\<close>

fun pop_front_to :: "nat \<Rightarrow> bool list \<Rightarrow> bool list" where
  "pop_front_to n [] = []"
| "pop_front_to n (x # xs) = (if length (x # xs) > n then pop_front_to n xs else x # xs)"

definition failure_rate :: "bool list \<Rightarrow> f64" where
  "failure_rate os = f64_div (f64_of_nat (length (filter (\<lambda>f. f) os))) (f64_of_nat (length os))"

definition window_record_at :: "BWindow \<Rightarrow> bool \<Rightarrow> u64 \<Rightarrow> BWindow" where
  "window_record_at w failed now =
     (let w = w\<lparr>probing := False\<rparr> in
      if \<not> failed then w\<lparr>outcomes := [], opened_at := None\<rparr>
      else
        let w = w\<lparr>outcomes := pop_front_to WINDOW (outcomes w @ [True])\<rparr> in
        if opened_at w \<noteq> None then w\<lparr>opened_at := Some now\<rparr>
        else if length (outcomes w) \<ge> MIN_SAMPLES \<and> failure_rate (outcomes w) \<ge> FAILURE_THRESHOLD
          then w\<lparr>opened_at := Some now\<rparr>
        else w)"

definition record_at :: "SettlementBreaker \<Rightarrow> string \<Rightarrow> bool \<Rightarrow> u64 \<Rightarrow> SettlementBreaker" where
  "record_at b p failed now = b(p \<mapsto> window_record_at (window_of b p) failed now)"

definition record_success :: "SettlementBreaker \<Rightarrow> string \<Rightarrow> u64 \<Rightarrow> SettlementBreaker" where
  "record_success b p now = record_at b p False now"

definition record_failure :: "SettlementBreaker \<Rightarrow> string \<Rightarrow> u64 \<Rightarrow> SettlementBreaker" where
  "record_failure b p now = record_at b p True now"

text \<open>Operations as events, to speak about whole histories.\<close>

datatype breaker_event = State string u64 | Record string bool u64

fun event_policy :: "breaker_event \<Rightarrow> string" where
  "event_policy (State p now) = p"
| "event_policy (Record p failed now) = p"

fun breaker_step :: "SettlementBreaker \<Rightarrow> breaker_event \<Rightarrow> SettlementBreaker" where
  "breaker_step b (State p now) = snd (state_at b p now)"
| "breaker_step b (Record p failed now) = record_at b p failed now"

definition breaker_run :: "SettlementBreaker \<Rightarrow> breaker_event list \<Rightarrow> SettlementBreaker" where
  "breaker_run b es = foldl breaker_step b es"

section \<open>Policies are independent\<close>

fun window_step :: "BWindow \<Rightarrow> breaker_event \<Rightarrow> BWindow" where
  "window_step w (State p now) = snd (window_state_at w now)"
| "window_step w (Record p failed now) = window_record_at w failed now"

lemma window_of_upd [simp]: "window_of (b(p \<mapsto> w)) q = (if q = p then w else window_of b q)"
  by (simp add: window_of_def)

lemma fst_state_at [simp]: "fst (state_at b p now) = fst (window_state_at (window_of b p) now)"
  by (simp add: state_at_def split: prod.splits)

lemma snd_state_at [simp]: "snd (state_at b p now) = b(p \<mapsto> snd (window_state_at (window_of b p) now))"
  by (simp add: state_at_def split: prod.splits)

lemma window_of_new [simp]: "window_of breaker_new p = default_window"
  by (simp add: window_of_def breaker_new_def)

interpretation bk: keyed_component window_of breaker_step event_policy window_step
proof unfold_locales
  show "window_of (breaker_step s e) (event_policy e) = window_step (window_of s (event_policy e)) e"
    for s e by (cases e) (auto simp: state_at_def record_at_def split: prod.splits)
  show "window_of (breaker_step s e) k = window_of s k" if "k \<noteq> event_policy e" for k e s
    using that by (cases e) (auto simp: state_at_def record_at_def split: prod.splits)
qed

section \<open>The window invariant\<close>

text \<open>
  A success empties the window, so only failures are ever in it; it is bounded; a probe is
  only in flight while the breaker is open; an open breaker has seen the minimum of samples;
  and a closed one has not.
\<close>

definition window_ok :: "BWindow \<Rightarrow> bool" where
  "window_ok w \<longleftrightarrow>
     list_all (\<lambda>f. f) (outcomes w) \<and> length (outcomes w) \<le> WINDOW \<and>
     (probing w \<longrightarrow> opened_at w \<noteq> None) \<and>
     (opened_at w \<noteq> None \<longleftrightarrow> MIN_SAMPLES \<le> length (outcomes w))"

lemma pop_front_to_length: "length (pop_front_to n xs) = min n (length xs)"
  by (induction xs) auto

lemma pop_front_to_all: "list_all P xs \<Longrightarrow> list_all P (pop_front_to n xs)"
  by (induction xs) auto

lemma failure_rate_all:
  assumes "list_all (\<lambda>f. f) os" "os \<noteq> []" "length os \<le> WINDOW"
  shows "failure_rate os = 1"
proof -
  have "filter (\<lambda>f. f) os = os" using assms(1) by (simp add: list_all_iff)
  with assms show ?thesis
    by (simp add: failure_rate_def f64_div_self breaker_consts)
qed

lemma default_window_ok [simp]: "window_ok default_window"
  by (simp add: window_ok_def default_window_def breaker_consts)

lemma window_state_at_ok: "window_ok w \<Longrightarrow> window_ok (snd (window_state_at w now))"
  by (auto simp: window_ok_def window_state_at_def split: option.splits)

text \<open>With the invariant, recording a failure is: one more outcome, and open at five.\<close>

lemma window_record_failure:
  assumes "window_ok w"
  shows "window_record_at w True now =
    \<lparr>outcomes = pop_front_to WINDOW (outcomes w @ [True]),
     opened_at = (if MIN_SAMPLES \<le> Suc (length (outcomes w)) then Some now else None),
     probing = False\<rparr>"
proof -
  let ?os = "pop_front_to WINDOW (outcomes w @ [True])"
  have len: "length ?os = min WINDOW (Suc (length (outcomes w)))" by (simp add: pop_front_to_length)
  have all: "list_all (\<lambda>f. f) ?os"
    using assms by (intro pop_front_to_all) (simp add: window_ok_def)
  have "?os \<noteq> []" using len by (auto simp: breaker_consts)
  then have "failure_rate ?os = 1" using all len by (intro failure_rate_all) auto
  then show ?thesis
    using assms len
    by (cases w) (auto simp: window_record_at_def window_ok_def Let_def breaker_consts)
qed

lemma window_record_ok: "window_ok w \<Longrightarrow> window_ok (window_record_at w failed now)"
proof (cases failed)
  case True
  assume w: "window_ok w"
  have "list_all (\<lambda>f. f) (pop_front_to WINDOW (outcomes w @ [True]))"
    using w by (intro pop_front_to_all) (simp add: window_ok_def)
  then show ?thesis
    using True w
    by (auto simp: window_record_failure) (auto simp: window_ok_def pop_front_to_length breaker_consts)
qed (simp add: window_record_at_def window_ok_def breaker_consts)

lemma window_step_ok: "window_ok w \<Longrightarrow> window_ok (window_step w e)"
  by (cases e) (simp_all add: window_state_at_ok window_record_ok)

lemma window_run_ok: "window_ok w \<Longrightarrow> window_ok (foldl window_step w es)"
  by (induction es arbitrary: w) (simp_all add: window_step_ok)

lemma breaker_run_ok: "window_ok (window_of (breaker_run breaker_new es) p)"
  by (simp add: breaker_run_def bk.view_run window_run_ok)

section \<open>Refinement: a counter of consecutive failures\<close>

text \<open>
  The abstract breaker keeps the number of failures since the last success and the time of
  the last failure. It is open exactly when that number has reached five.
\<close>

record abs_breaker =
  consecutive :: nat
  last_failure :: u64
  probe_out :: bool

definition abs_init :: abs_breaker where
  "abs_init = \<lparr>consecutive = 0, last_failure = 0, probe_out = False\<rparr>"

fun abs_step :: "abs_breaker \<Rightarrow> breaker_event \<Rightarrow> abs_breaker" where
  "abs_step a (State p now) =
     (if MIN_SAMPLES \<le> consecutive a \<and> COOLDOWN_SECS \<le> sat_sub now (last_failure a)
      then a\<lparr>probe_out := True\<rparr> else a)"
| "abs_step a (Record p failed now) =
     (if failed then \<lparr>consecutive = Suc (consecutive a), last_failure = now, probe_out = False\<rparr>
      else abs_init)"

definition abs_answer :: "abs_breaker \<Rightarrow> u64 \<Rightarrow> BreakerState" where
  "abs_answer a now =
     (if consecutive a < MIN_SAMPLES then Closed
      else if sat_sub now (last_failure a) < COOLDOWN_SECS \<or> probe_out a then Open
      else HalfOpen)"

definition refines :: "BWindow \<Rightarrow> abs_breaker \<Rightarrow> bool" where
  "refines w a \<longleftrightarrow> window_ok w \<and> length (outcomes w) = min WINDOW (consecutive a) \<and>
     probing w = probe_out a \<and>
     (MIN_SAMPLES \<le> consecutive a \<longrightarrow> opened_at w = Some (last_failure a))"

lemma refines_init: "refines default_window abs_init"
  by (auto simp: refines_def abs_init_def default_window_def window_ok_def breaker_consts)

lemma refines_opened:
  "refines w a \<Longrightarrow> opened_at w = (if MIN_SAMPLES \<le> consecutive a then Some (last_failure a) else None)"
  by (auto simp: refines_def window_ok_def breaker_consts)

lemma refines_answer: "refines w a \<Longrightarrow> fst (window_state_at w now) = abs_answer a now"
  by (auto simp: window_state_at_def abs_answer_def refines_opened) (auto simp: refines_def)

lemma refines_step:
  assumes "refines w a"
  shows "refines (window_step w e) (abs_step a e)"
proof (cases e)
  case (State p now)
  have "window_ok (window_step w e)" using assms by (simp add: window_step_ok refines_def)
  with assms State refines_opened[OF assms] show ?thesis
    by (auto simp: refines_def window_state_at_def not_less)
next
  case (Record p failed now)
  have ok: "window_ok (window_step w e)" using assms by (simp add: window_step_ok refines_def)
  show ?thesis
  proof (cases failed)
    case True
    with Record ok assms show ?thesis
      by (auto simp: refines_def window_record_failure pop_front_to_length breaker_consts)
  next
    case False
    with Record ok show ?thesis
      by (auto simp: refines_def window_record_at_def abs_init_def breaker_consts)
  qed
qed

lemma refines_run: "refines w a \<Longrightarrow> refines (foldl window_step w es) (foldl abs_step a es)"
  by (induction es arbitrary: w a) (simp_all add: refines_step)

section \<open>Probes\<close>

text \<open>While a probe is out and nothing is recorded, the breaker answers \<open>Open\<close> for ever.\<close>

definition stuck :: "BWindow \<Rightarrow> bool" where
  "stuck w \<longleftrightarrow> probing w \<and> opened_at w \<noteq> None"

lemma stuck_state: "stuck w \<Longrightarrow> window_state_at w now = (Open, w)"
  by (auto simp: stuck_def window_state_at_def)

lemma half_open_stuck: "fst (window_state_at w now) = HalfOpen \<Longrightarrow> stuck (snd (window_state_at w now))"
  by (auto simp: stuck_def window_state_at_def split: option.splits if_splits)

fun is_state_event :: "breaker_event \<Rightarrow> bool" where
  "is_state_event (State p now) = True"
| "is_state_event (Record p failed now) = False"

lemma stuck_run:
  "stuck w \<Longrightarrow> \<forall>e \<in> set es. is_state_event e \<Longrightarrow> foldl window_step w es = w"
proof (induction es)
  case (Cons e es)
  then show ?case by (cases e) (simp_all add: stuck_state)
qed simp

section \<open>Properties\<close>

text \<open>C17: whatever the history of a breaker, and whichever policies it mixes, the answer it gives
  for a policy is the one of the abstract breaker run on that policy's events alone: closed
  below five consecutive failures, open for the cooldown after the last failure, then one
  probe.\<close>

theorem breaker_refines_counter:
  "fst (state_at (breaker_run breaker_new es) p now) =
   abs_answer (foldl abs_step abs_init (filter (\<lambda>e. event_policy e = p) es)) now"
proof -
  have "refines (window_of (breaker_run breaker_new es) p)
      (foldl abs_step abs_init (filter (\<lambda>e. event_policy e = p) es))"
    by (simp add: breaker_run_def bk.view_run refines_run refines_init)
  then show ?thesis by (simp add: refines_answer)
qed

text \<open>In every reachable breaker a policy's window holds at most twenty outcomes, all of them
  failures (so the failure rate it computes is always one), it is open exactly when five or
  more failures are in it, and a probe is in flight only while it is open.\<close>

lemma breaker_window_invariant:
  "let w = window_of (breaker_run breaker_new es) p in
     length (outcomes w) \<le> 20 \<and> False \<notin> set (outcomes w) \<and>
     (outcomes w = [] \<or> failure_rate (outcomes w) = 1) \<and>
     (opened_at w \<noteq> None) = (5 \<le> length (outcomes w)) \<and>
     (probing w, opened_at w) \<noteq> (True, None)"
proof -
  let ?w = "window_of (breaker_run breaker_new es) p"
  have ok: "window_ok ?w" by (rule breaker_run_ok)
  then have "outcomes ?w = [] \<or> failure_rate (outcomes ?w) = 1"
    unfolding window_ok_def using failure_rate_all by blast
  moreover have "False \<notin> set (outcomes ?w)"
    using ok by (auto simp: window_ok_def list_all_iff)
  ultimately show ?thesis
    using ok unfolding Let_def window_ok_def by (auto simp: breaker_consts)
qed

text \<open>A half-open answer is given once. From the moment a policy's caller receives
  \<open>HalfOpen\<close>, every later caller of that policy is refused, at any time and however long the
  cooldown has passed, until an outcome is recorded for the policy. A caller that takes the
  probe and never reports its outcome therefore keeps the policy refusing payments.\<close>

lemma probe_is_exclusive:
  assumes "state_at b p t = (HalfOpen, b')"
    and "\<forall>e \<in> set es. event_policy e = p \<longrightarrow> is_state_event e"
  shows "fst (state_at (breaker_run b' es) p now) = Open"
proof -
  let ?es = "filter (\<lambda>e. event_policy e = p) es"
  from assms(1) have "fst (window_state_at (window_of b p) t) = HalfOpen"
    and b': "b' = b(p \<mapsto> snd (window_state_at (window_of b p) t))"
    by (auto simp: state_at_def split: prod.splits)
  then have st: "stuck (window_of b' p)" by (simp add: half_open_stuck)
  have "window_of (breaker_run b' es) p = foldl window_step (window_of b' p) ?es"
    by (simp add: breaker_run_def bk.view_run)
  also have "\<dots> = window_of b' p" using st assms(2) by (intro stuck_run) auto
  finally show ?thesis using st by (simp add: state_at_def stuck_state)
qed

definition tripped :: "string \<Rightarrow> u64 \<Rightarrow> SettlementBreaker" where
  "tripped p now = breaker_run breaker_new (replicate 5 (Record p True now))"

lemma tripped_window:
  "window_of (tripped p now) p = \<lparr>outcomes = replicate 5 True, opened_at = Some now, probing = False\<rparr>"
proof -
  have "foldl window_step default_window (replicate 5 (Record p True now)) =
      \<lparr>outcomes = replicate 5 True, opened_at = Some now, probing = False\<rparr>"
    by (simp add: numeral_eq_Suc window_record_failure window_record_ok default_window_def
        window_ok_def breaker_consts)
  then show ?thesis by (simp add: tripped_def breaker_run_def bk.view_run)
qed

end
