(* ===== verification/Auth.thy ===== *)
theory Auth
  imports Facilitator RedisStores Breaker
begin

text \<open>
  The tier decision and the ext_authz service (src/auth.rs).

  \<open>App\<close> is the shared service state together with the states of the two outside systems, the
  fullnode and the Redis server; \<open>platform\<close> bundles the interfaces of those systems and of the
  codec crates. A handler reads the clock several times: \<open>moments\<close> holds each reading, and the
  random bytes and measured durations, so nothing is assumed about how they relate. \<open>None\<close> is the
  panic of the rate limiter's assertion.

  Logging and metrics counters are left out; they do not influence the decision.
\<close>

section \<open>Data\<close>

definition HEADER_TIER :: string where "HEADER_TIER = ''x-x402-tier''"
definition HEADER_PAYER :: string where "HEADER_PAYER = ''x-x402-payer''"

datatype SettlePolicy = Immediate | Deferred

record PendingPayment =
  pn_payload :: PaymentPayload
  pn_requirements :: PaymentRequirements
  pn_payment_id :: "string option"

datatype Tier = Free | Paid

fun tier_as_str :: "Tier \<Rightarrow> string" where
  "tier_as_str Free = ''free''"
| "tier_as_str Paid = ''paid''"

datatype Meter =
    MeterFree (mf_remaining: u64) (mf_limit: u64) (mf_reset_secs: u64)
  | MeterSession (ms_remaining: u64) (ms_quota: u64) (ms_expires_in_secs: u64)
  | MeterUnknown

datatype Decision =
    Allow (al_tier: Tier) (al_payer: "string option") (al_session_token: "string option")
      (al_settlement: "SettlementResponse option") (al_pending: "PendingPayment option") (al_meter: Meter)
  | Deny (dn_challenge: PaymentRequired) (dn_receipt: "SettlementResponse option") (dn_meter: Meter)

record ('n, 'r) App =
  ap_config :: Config
  ap_breaker :: SettlementBreaker
  ap_sessions :: SessionStore
  ap_limiter :: RateLimiter
  ap_facilitator :: Facilitator
  ap_node :: 'n
  ap_redis :: 'r

record ('n, 'r) platform =
  pf_node :: "'n fullnode"
  pf_wire :: wire
  pf_redis :: "'r redis"

record moments =
  at_breaker :: u64
  at_consume :: u64
  at_meter :: u64
  at_claim :: u64
  at_age :: u64
  at_create :: u64
  at_limit :: u64
  rand_bytes :: bytes
  decide_ms_text :: string
  settle_ms_text :: string

text \<open>The store operations on the service state.\<close>

definition on_sessions ::
  "(SessionStore \<times> 'r \<Rightarrow> 'a \<times> SessionStore \<times> 'r) \<Rightarrow> ('n, 'r) App \<Rightarrow> 'a \<times> ('n, 'r) App" where
  "on_sessions f app =
     (let (x, s, r) = f (ap_sessions app, ap_redis app) in (x, app\<lparr>ap_sessions := s, ap_redis := r\<rparr>))"

definition on_node :: "('n, 'e, 'a) eff \<Rightarrow> ('n, 'r) App \<Rightarrow> ('e + 'a) \<times> ('n, 'r) App" where
  "on_node m app = (let (x, n) = m (ap_node app) in (x, app\<lparr>ap_node := n\<rparr>))"

abbreviation pf_crypto :: "('n, 'r) platform \<Rightarrow> crypto" where
  "pf_crypto P \<equiv> hashing (pf_wire P)"

section \<open>Headers\<close>

type_synonym HeaderView = "(string \<times> string) list option"

definition header_get :: "HeaderView \<Rightarrow> string \<Rightarrow> string option" where
  "header_get view name =
     Option.bind view (\<lambda>hs.
     Option.bind (case map_of hs name of
         Some v \<Rightarrow> Some v
       | None \<Rightarrow> map_option snd (find (\<lambda>(key, _). eq_ignore_ascii_case key name) hs)) (\<lambda>value.
     if trim value = [] then None else Some value))"

definition is_grpc_request :: "HeaderView \<Rightarrow> bool" where
  "is_grpc_request headers =
     (case header_get headers ''content-type'' of None \<Rightarrow> False | Some ct \<Rightarrow> starts_with ct ''application/grpc'')"

fun meter_headers :: "Meter \<Rightarrow> (string \<times> string) list" where
  "meter_headers (MeterFree remaining limit reset) =
     [(''x-x402-free-remaining'', show_u64 remaining), (''x-x402-free-limit'', show_u64 limit),
      (''x-x402-free-reset'', show_u64 reset)]"
| "meter_headers (MeterSession remaining quota expires) =
     [(''x-x402-session-remaining'', show_u64 remaining), (''x-x402-session-quota'', show_u64 quota),
      (''x-x402-session-expires'', show_u64 expires)]"
| "meter_headers MeterUnknown = []"

section \<open>Labels\<close>

definition policy_label :: "string option \<Rightarrow> string" where
  "policy_label policy = (case policy of None \<Rightarrow> ''default'' | Some p \<Rightarrow> p)"

fun replay_claim_label :: "PaymentClaim \<Rightarrow> string" where
  "replay_claim_label Fresh = ''fresh''"
| "replay_claim_label (PaymentClaim.Replay _) = ''replay''"
| "replay_claim_label PaymentClaim.Backend = ''backend_error''"

fun mode_label :: "VerificationMode \<Rightarrow> string" where
  "mode_label StubAcceptAll = ''stub''"
| "mode_label SuiGrpc = ''sui-grpc''"

fun session_rejection_label :: "SessionRejection \<Rightarrow> string" where
  "session_rejection_label Malformed = ''malformed''"
| "session_rejection_label Expired = ''expired''"
| "session_rejection_label Unknown = ''unknown''"
| "session_rejection_label WrongPolicy = ''wrong_policy''"
| "session_rejection_label QuotaExhausted = ''quota_exhausted''"
| "session_rejection_label SessionRejection.Backend = ''backend''"

definition replay_ttl :: "u64 \<Rightarrow> u64" where
  "replay_ttl max_timeout_seconds = max (sat_mul max_timeout_seconds 10) 300"

section \<open>The decision\<close>

text \<open>What the decision resolves first and every branch uses.\<close>

record terms =
  tm_resolved :: ResolvedPolicy
  tm_requirements :: PaymentRequirements
  tm_resource :: ResourceInfo
  tm_extensions :: json

definition resolve_terms :: "Config \<Rightarrow> string \<Rightarrow> string option \<Rightarrow> string \<Rightarrow> terms" where
  "resolve_terms cfg path policy resource_url =
     (let resolved = policy_for cfg path policy; payment = rp_payment resolved in
      \<lparr>tm_resolved = resolved,
       tm_requirements = from_config payment,
       tm_resource =
         \<lparr>ri_url = resource_url, ri_description = Some (pc_description payment),
          ri_mime_type = Some ''application/json'', ri_service_name = pc_service_name payment,
          ri_tags = (if pc_tags payment \<noteq> [] then Some (pc_tags payment) else None),
          ri_icon_url = pc_icon_url payment\<rparr>,
       tm_extensions = session_extension_advertisement (pt_quota (rp_paid_tier resolved))
         (pt_duration_secs (rp_paid_tier resolved)) HEADER_PAYMENT_SESSION\<rparr>)"

definition challenge_of :: "terms \<Rightarrow> string \<Rightarrow> PaymentRequired" where
  "challenge_of tm err =
     (payment_required_new err (tm_resource tm) [tm_requirements tm])\<lparr>pq_extensions := Some (tm_extensions tm)\<rparr>"

definition payment_rejected :: "wire \<Rightarrow> Facilitator \<Rightarrow> terms \<Rightarrow> FacilitatorError \<Rightarrow> Decision" where
  "payment_rejected W F tm e =
     Deny (challenge_of tm (''payment rejected: '' @ error_display W e))
       (Some (failure_receipt F (error_code e))) MeterUnknown"

text \<open>1. An existing paid session.\<close>

definition session_stage ::
  "('n, 'r) platform \<Rightarrow> moments \<Rightarrow> string option \<Rightarrow> string option \<Rightarrow> ('n, 'r) App
    \<Rightarrow> Decision option \<times> ('n, 'r) App" where
  "session_stage P mo session_token policy app =
     (case session_token of
        None \<Rightarrow> (None, app)
      | Some token \<Rightarrow>
          (case on_sessions (store_consume (pf_crypto P) (pf_redis P) token policy (at_consume mo)) app of
             (Accepted payer remaining quota expires_at, app1) \<Rightarrow>
               (Some (Allow Paid (Some payer) None None None
                  (MeterSession remaining quota (sat_sub expires_at (at_meter mo)))), app1)
           | (Rejected reason, app1) \<Rightarrow> (None, app1)))"

text \<open>2. A new payment: claim it, then verify or settle it.\<close>

definition claim_error :: "u64 \<Rightarrow> u64 \<Rightarrow> PaymentClaim \<Rightarrow> FacilitatorError option" where
  "claim_error window now claim =
     (case claim of
        Fresh \<Rightarrow> None
      | PaymentClaim.Replay first_seen \<Rightarrow>
          if sat_sub now first_seen > window then Some (AuthorizationExpired first_seen window)
          else Some (FacilitatorError.Replay first_seen)
      | PaymentClaim.Backend \<Rightarrow> Some ReplayCacheUnavailable)"

definition claim_stage ::
  "('n, 'r) platform \<Rightarrow> moments \<Rightarrow> terms \<Rightarrow> PaymentPayload \<Rightarrow> ('n, 'r) App
    \<Rightarrow> FacilitatorError option \<times> ('n, 'r) App" where
  "claim_stage P mo tm payload app =
     (case payment_id (pf_wire P) payload of
        None \<Rightarrow> (None, app)
      | Some pid \<Rightarrow>
          (let window = pr_max_timeout_seconds (tm_requirements tm);
               (claim, app1) = on_sessions (store_claim_payment (pf_redis P) pid (replay_ttl window) (at_claim mo)) app in
           (claim_error window (at_age mo) claim, app1)))"

definition verify_deferred ::
  "('n, 'r) platform \<Rightarrow> terms \<Rightarrow> PaymentPayload \<Rightarrow> ('n, 'r) App \<Rightarrow> Decision \<times> ('n, 'r) App" where
  "verify_deferred P tm payload app =
     (case on_node (facilitator_verify (pf_node P) (pf_wire P) (ap_facilitator app) payload (tm_requirements tm)) app of
        (Inr payer, app1) \<Rightarrow>
          (Allow Paid (Some payer) None None
             (Some \<lparr>pn_payload = payload, pn_requirements = tm_requirements tm,
                pn_payment_id = payment_id (pf_wire P) payload\<rparr>) MeterUnknown, app1)
      | (Inl e, app1) \<Rightarrow> (payment_rejected (pf_wire P) (ap_facilitator app) tm e, app1))"

definition mint_session ::
  "('n, 'r) platform \<Rightarrow> moments \<Rightarrow> string option \<Rightarrow> PaidTierConfig \<Rightarrow> string option \<Rightarrow> ('n, 'r) App
    \<Rightarrow> string option \<times> ('n, 'r) App" where
  "mint_session P mo policy tier payer app =
     (case payer of
        None \<Rightarrow> (None, app)
      | Some payer \<Rightarrow>
          (let (res, app1) = on_sessions (store_create_session (pf_crypto P) (pf_redis P) (rand_bytes mo)
                 payer policy (pt_quota tier) (pt_duration_secs tier) (at_create mo)) app in
           (r_ok res, app1)))"

definition with_grant :: "PaidTierConfig \<Rightarrow> string option \<Rightarrow> SettlementResponse \<Rightarrow> SettlementResponse" where
  "with_grant tier token settlement =
     (case token of
        None \<Rightarrow> settlement
      | Some token \<Rightarrow> settlement\<lparr>sr_extensions :=
          Some (session_extension_grant token (pt_quota tier) (pt_duration_secs tier))\<rparr>)"

definition settle_immediate ::
  "('n, 'r) platform \<Rightarrow> moments \<Rightarrow> terms \<Rightarrow> string option \<Rightarrow> PaymentPayload \<Rightarrow> ('n, 'r) App
    \<Rightarrow> Decision \<times> ('n, 'r) App" where
  "settle_immediate P mo tm policy payload app =
     (case on_node (verify_and_settle (pf_node P) (pf_wire P) (ap_facilitator app) payload (tm_requirements tm)) app of
        (Inr settlement, app1) \<Rightarrow>
          (let tier = rp_paid_tier (tm_resolved tm);
               (token, app2) = mint_session P mo policy tier (sr_payer settlement) app1;
               meter = (if token \<noteq> None
                        then MeterSession (pt_quota tier) (pt_quota tier) (pt_duration_secs tier) else MeterUnknown) in
           (Allow Paid (sr_payer settlement) token (Some (with_grant tier token settlement)) None meter, app2))
      | (Inl e, app1) \<Rightarrow> (payment_rejected (pf_wire P) (ap_facilitator app) tm e, app1))"

definition payment_stage ::
  "('n, 'r) platform \<Rightarrow> moments \<Rightarrow> terms \<Rightarrow> string option \<Rightarrow> SettlePolicy
    \<Rightarrow> HeaderDecodeError + PaymentPayload \<Rightarrow> ('n, 'r) App \<Rightarrow> Decision \<times> ('n, 'r) App" where
  "payment_stage P mo tm policy settle decoded app =
     (case decoded of
        Inl e \<Rightarrow>
          (Deny (challenge_of tm (''malformed payment-signature header: '' @ header_error_display e))
             (Some (failure_receipt (ap_facilitator app) ''invalid_payload'')) MeterUnknown, app)
      | Inr payload \<Rightarrow>
          (case claim_stage P mo tm payload app of
             (Some e, app1) \<Rightarrow> (payment_rejected (pf_wire P) (ap_facilitator app) tm e, app1)
           | (None, app1) \<Rightarrow>
               if settle = Deferred then verify_deferred P tm payload app1
               else settle_immediate P mo tm policy payload app1))"

text \<open>3. The anonymous free tier.\<close>

definition free_stage ::
  "('n, 'r) platform \<Rightarrow> moments \<Rightarrow> terms \<Rightarrow> IpAddr option \<Rightarrow> ('n, 'r) App \<Rightarrow> (Decision \<times> ('n, 'r) App) option" where
  "free_stage P mo tm client_ip app =
     (case client_ip of
        None \<Rightarrow> Some (Deny (challenge_of tm ''client address unavailable; free tier cannot be metered'')
                        None MeterUnknown, app)
      | Some ip \<Rightarrow>
          (let ft = rp_free_tier (tm_resolved tm) in
           case limiter_check (pf_redis P) (rp_label (tm_resolved tm)) ip (max_requests ft) (window_secs ft)
                  (at_limit mo) (ap_limiter app, ap_redis app) of
             None \<Rightarrow> None
           | Some (a, l, r) \<Rightarrow>
               (let app1 = app\<lparr>ap_limiter := l, ap_redis := r\<rparr>;
                    meter = MeterFree (al_remaining a) (al_limit a) (reset_secs a) in
                Some (if allowed a then Allow Free None None None None meter
                      else Deny (challenge_of tm ''free tier rate limit exceeded; pay to unlock a higher limit'')
                             None meter, app1))))"

definition decide ::
  "('n, 'r) platform \<Rightarrow> moments \<Rightarrow> HeaderView \<Rightarrow> IpAddr option \<Rightarrow> string \<Rightarrow> string option \<Rightarrow> string
    \<Rightarrow> SettlePolicy \<Rightarrow> ('n, 'r) App \<Rightarrow> (Decision \<times> ('n, 'r) App) option" where
  "decide P mo headers client_ip path policy resource_url settle app =
     (let tm = resolve_terms (ap_config app) path policy resource_url;
          presented_payment = map_option (decode_header (pf_wire P) (payload_from_slice (pf_wire P)))
            (header_get headers HEADER_PAYMENT_SIGNATURE);
          echoed_token = Option.bind presented_payment (\<lambda>p. Option.bind (r_ok p)
            (\<lambda>p. session_token_from_extensions (pp_extensions p)));
          session_token = (case echoed_token of Some t \<Rightarrow> Some t | None \<Rightarrow> header_get headers HEADER_PAYMENT_SESSION);
          (served, app1) = session_stage P mo session_token policy app in
      case served of
        Some decision \<Rightarrow> Some (decision, app1)
      | None \<Rightarrow>
          (case presented_payment of
             Some decoded \<Rightarrow> Some (payment_stage P mo tm policy settle decoded app1)
           | None \<Rightarrow> free_stage P mo tm client_ip app1))"

section \<open>The ext_authz service\<close>

datatype HeaderAppendAction = AppendIfExistsOrAdd | AddIfAbsent | OverwriteIfExistsOrAdd | OverwriteIfExists

definition AUTHORITATIVE_APPEND :: HeaderAppendAction where
  "AUTHORITATIVE_APPEND = OverwriteIfExistsOrAdd"

record OkHttpResponse =
  okr_headers :: "(string \<times> string \<times> HeaderAppendAction option) list"
  okr_headers_to_remove :: "string list"
  okr_response_headers :: "(string \<times> string \<times> HeaderAppendAction option) list"

record DeniedHttpResponse =
  dr_status :: nat
  dr_headers :: "(string \<times> string) list"
  dr_body :: string

datatype CheckResponse =
    CheckOk OkHttpResponse "(string \<times> string) list"
  | CheckDenied string DeniedHttpResponse

definition hex_upper_digit :: "nat \<Rightarrow> char" where
  "hex_upper_digit n = (if n < 10 then char_of (48 + n) else char_of (55 + n))"

definition grpc_message :: "string \<Rightarrow> string" where
  "grpc_message reason =
     concat (map (\<lambda>b. let n = of_char b :: nat in
       if 32 \<le> n \<and> n \<le> 126 \<and> b \<noteq> CHR ''%'' then [b]
       else [CHR ''%'', hex_upper_digit (n div 16), hex_upper_digit (n mod 16)]) reason)"

definition rate_limit_metadata :: "Tier \<Rightarrow> string option \<Rightarrow> IpAddr option \<Rightarrow> (string \<times> string) list" where
  "rate_limit_metadata tier payer client_ip =
     [(''tier'', tier_as_str tier)] @
     (case payer of None \<Rightarrow> [] | Some p \<Rightarrow> [(''payer'', p)]) @
     (case client_ip of None \<Rightarrow> [] | Some ip \<Rightarrow> [(''source_ip'', show_ip ip)])"

definition allow_response ::
  "wire \<Rightarrow> Tier \<Rightarrow> string option \<Rightarrow> string option \<Rightarrow> SettlementResponse option \<Rightarrow> Meter \<Rightarrow> IpAddr option
    \<Rightarrow> CheckResponse" where
  "allow_response W tier payer session_token settlement meter client_ip =
     CheckOk
       \<lparr>okr_headers =
          [(HEADER_TIER, tier_as_str tier, Some AUTHORITATIVE_APPEND),
           (HEADER_PAYER, case payer of None \<Rightarrow> [] | Some p \<Rightarrow> p, Some AUTHORITATIVE_APPEND)],
        okr_headers_to_remove = [HEADER_PAYMENT_SIGNATURE, HEADER_PAYMENT_SESSION],
        okr_response_headers =
          (case session_token of None \<Rightarrow> []
             | Some token \<Rightarrow> [(HEADER_PAYMENT_SESSION, token, Some AUTHORITATIVE_APPEND)]) @
          (case Option.bind settlement (\<lambda>s. r_ok (encode_header W (settlement_to_vec W) s)) of None \<Rightarrow> []
             | Some encoded \<Rightarrow> [(HEADER_PAYMENT_RESPONSE, encoded, Some AUTHORITATIVE_APPEND)]) @
          map (\<lambda>(name, value). (name, value, Some AUTHORITATIVE_APPEND)) (meter_headers meter)\<rparr>
       (rate_limit_metadata tier payer client_ip)"

definition GRPC_STATUS_RESOURCE_EXHAUSTED :: string where "GRPC_STATUS_RESOURCE_EXHAUSTED = ''8''"

definition deny_response ::
  "wire \<Rightarrow> PaymentRequired \<Rightarrow> SettlementResponse option \<Rightarrow> Meter \<Rightarrow> bool \<Rightarrow> CheckResponse" where
  "deny_response W challenge receipt meter grpc =
     (let err = (case pq_error challenge of None \<Rightarrow> [] | Some e \<Rightarrow> e);
          common =
            (case Option.bind receipt (\<lambda>r. r_ok (encode_header W (settlement_to_vec W) r)) of None \<Rightarrow> []
               | Some encoded \<Rightarrow> [(HEADER_PAYMENT_RESPONSE, encoded)]) @
            (case r_ok (encode_header W (required_to_vec W) challenge) of None \<Rightarrow> []
               | Some encoded \<Rightarrow> [(HEADER_PAYMENT_REQUIRED, encoded)]) @
            meter_headers meter in
      CheckDenied err
        (if grpc
         then \<lparr>dr_status = 200,
                dr_headers = common @ [(''content-type'', ''application/grpc''),
                  (''grpc-status'', GRPC_STATUS_RESOURCE_EXHAUSTED), (''grpc-message'', grpc_message err)],
                dr_body = []\<rparr>
         else case required_to_vec W challenge of
                Inr body \<Rightarrow> \<lparr>dr_status = 402, dr_headers = common @ [(''content-type'', ''application/json'')],
                              dr_body = body\<rparr>
              | Inl e \<Rightarrow> \<lparr>dr_status = 402, dr_headers = common, dr_body = []\<rparr>))"

fun decision_to_response :: "wire \<Rightarrow> Decision \<Rightarrow> IpAddr option \<Rightarrow> bool \<Rightarrow> CheckResponse" where
  "decision_to_response W (Allow tier payer token settlement pending meter) client_ip grpc =
     allow_response W tier payer token settlement meter client_ip"
| "decision_to_response W (Deny challenge receipt meter) client_ip grpc = deny_response W challenge receipt meter grpc"

record HttpRequest =
  hr_scheme :: string
  hr_host :: string
  hr_path :: string

definition authz_resource_url :: "HttpRequest option \<Rightarrow> string" where
  "authz_resource_url http =
     (case http of
        None \<Rightarrow> []
      | Some h \<Rightarrow>
          if hr_host h = [] then hr_path h
          else (if hr_scheme h = [] then ''https'' else hr_scheme h) @ ''://'' @ hr_host h @ hr_path h)"

record CheckRequest =
  cr_headers :: HeaderView
  cr_address :: "string option"
  cr_http :: "HttpRequest option"
  cr_context_extensions :: "(string \<times> string) list"

definition check ::
  "('n, 'r) platform \<Rightarrow> moments \<Rightarrow> CheckRequest \<Rightarrow> ('n, 'r) App \<Rightarrow> (CheckResponse \<times> ('n, 'r) App) option" where
  "check P mo request app =
     (let headers = cr_headers request;
          client_ip = Option.bind (cr_address request) parse_ip;
          http = cr_http request;
          path = (case http of None \<Rightarrow> [] | Some h \<Rightarrow> hr_path h);
          policy = map_of (cr_context_extensions request) POLICY_CONTEXT_KEY in
      map_option (\<lambda>(decision, app1).
          (decision_to_response (pf_wire P) decision client_ip (is_grpc_request headers), app1))
        (decide P mo headers client_ip path policy (authz_resource_url http) Immediate app))"

section \<open>Facts on the decision\<close>

lemma on_sessions_node [simp]: "ap_node (snd (on_sessions f app)) = ap_node app"
  by (simp add: on_sessions_def split: prod.splits)

lemma on_sessions_config: "on_sessions f app = (x, app') \<Longrightarrow> ap_config app' = ap_config app"
  "on_sessions f app = (x, app') \<Longrightarrow> ap_facilitator app' = ap_facilitator app"
  "on_sessions f app = (x, app') \<Longrightarrow> ap_limiter app' = ap_limiter app"
  "on_sessions f app = (x, app') \<Longrightarrow> ap_node app' = ap_node app"
  "on_sessions f app = (x, app') \<Longrightarrow> ap_breaker app' = ap_breaker app"
  by (auto simp: on_sessions_def split: prod.splits)

text \<open>The payment and the session token a request presents.\<close>

definition presented :: "wire \<Rightarrow> HeaderView \<Rightarrow> (HeaderDecodeError + PaymentPayload) option" where
  "presented W headers = map_option (decode_header W (payload_from_slice W)) (header_get headers HEADER_PAYMENT_SIGNATURE)"

definition presented_token :: "wire \<Rightarrow> HeaderView \<Rightarrow> string option" where
  "presented_token W headers =
     (case Option.bind (presented W headers) (\<lambda>p. Option.bind (r_ok p)
        (\<lambda>p. session_token_from_extensions (pp_extensions p))) of
        Some t \<Rightarrow> Some t | None \<Rightarrow> header_get headers HEADER_PAYMENT_SESSION)"

lemma decide_eq:
  "decide P mo headers client_ip path policy url settle app =
     (case session_stage P mo (presented_token (pf_wire P) headers) policy app of
        (Some decision, app1) \<Rightarrow> Some (decision, app1)
      | (None, app1) \<Rightarrow>
          (case presented (pf_wire P) headers of
             Some decoded \<Rightarrow>
               Some (payment_stage P mo (resolve_terms (ap_config app) path policy url) policy settle decoded app1)
           | None \<Rightarrow> free_stage P mo (resolve_terms (ap_config app) path policy url) client_ip app1))"
  unfolding decide_def presented_token_def presented_def Let_def by (auto split: prod.splits)

lemma session_stage_keeps:
  "session_stage P mo token policy app = (d, app1) \<Longrightarrow>
   ap_config app1 = ap_config app \<and> ap_facilitator app1 = ap_facilitator app \<and> ap_node app1 = ap_node app"
  by (auto simp: session_stage_def on_sessions_config split: option.splits prod.splits SessionOutcome.splits)

lemma mint_session_node: "mint_session P mo policy tier payer app = (t, app') \<Longrightarrow> ap_node app' = ap_node app"
  by (auto simp: mint_session_def on_sessions_config Let_def split: option.splits prod.splits)

lemma session_stage_served:
  "session_stage P mo token policy app = (Some d, app1) \<Longrightarrow>
   \<exists>tok payer remaining quota expires_at. token = Some tok \<and>
     on_sessions (store_consume (pf_crypto P) (pf_redis P) tok policy (at_consume mo)) app =
       (Accepted payer remaining quota expires_at, app1) \<and>
     d = Allow Paid (Some payer) None None None (MeterSession remaining quota (sat_sub expires_at (at_meter mo)))"
  by (auto simp: session_stage_def split: option.splits prod.splits SessionOutcome.splits)

lemma claim_error_None_iff [simp]: "claim_error window now claim = None \<longleftrightarrow> claim = Fresh"
  by (auto simp: claim_error_def split: PaymentClaim.splits if_splits)

lemma payment_stage_allow:
  assumes "payment_stage P mo tm policy settle decoded app = (Allow tier payer token settlement pending meter, app')"
  shows "\<exists>payload app1. decoded = Inr payload \<and> tier = Paid \<and> claim_stage P mo tm payload app = (None, app1) \<and>
    (settle = Deferred \<longrightarrow> (\<exists>n. facilitator_verify (pf_node P) (pf_wire P) (ap_facilitator app1) payload
       (tm_requirements tm) (ap_node app1) = (Inr (the payer), n) \<and> token = None \<and> settlement = None)) \<and>
    (settle = Immediate \<longrightarrow> (\<exists>n sr. facilitator_settle (pf_node P) (pf_wire P) (ap_facilitator app1) payload
       (tm_requirements tm) (ap_node app1) = (Inr sr, n) \<and> payer = sr_payer sr \<and> pending = None))"
  using assms
  by (cases settle)
    (auto simp: payment_stage_def payment_rejected_def verify_deferred_def settle_immediate_def on_node_def
      verify_and_settle_def Let_def split: sum.splits prod.splits option.splits)

lemma claim_stage_fresh:
  "claim_stage P mo tm payload app = (None, app1) \<Longrightarrow> payment_id (pf_wire P) payload = Some pid \<Longrightarrow>
   on_sessions (store_claim_payment (pf_redis P) pid (replay_ttl (pr_max_timeout_seconds (tm_requirements tm)))
     (at_claim mo)) app = (Fresh, app1)"
  by (auto simp: claim_stage_def Let_def split: prod.splits)

lemma free_stage_allow:
  assumes "free_stage P mo tm client_ip app = Some (Allow tier payer token settlement pending meter, app')"
  shows "\<exists>ip a l r. client_ip = Some ip \<and> tier = Free \<and> payer = None \<and> token = None \<and> pending = None \<and>
    limiter_check (pf_redis P) (rp_label (tm_resolved tm)) ip (max_requests (rp_free_tier (tm_resolved tm)))
      (window_secs (rp_free_tier (tm_resolved tm))) (at_limit mo) (ap_limiter app, ap_redis app) = Some (a, l, r) \<and>
    allowed a"
  using assms by (auto simp: free_stage_def Let_def split: option.splits if_splits)

lemma payment_stage_keeps:
  "payment_stage P mo tm policy settle decoded app = (d, app') \<Longrightarrow>
   ap_config app' = ap_config app \<and> ap_facilitator app' = ap_facilitator app"
  by (auto simp: payment_stage_def claim_stage_def verify_deferred_def settle_immediate_def mint_session_def
      on_node_def on_sessions_config Let_def split: sum.splits prod.splits option.splits if_splits)

lemma limiter_check_total: "window \<noteq> 0 \<Longrightarrow> \<exists>a l'. limiter_check R label ip m window now l = Some (a, l')"
  by (cases l; cases "fst l")
    (auto simp: check_at_def redis_check_at_def Let_def split: prod.splits sum.splits)

lemma free_stage_total:
  assumes "window_secs (rp_free_tier (tm_resolved tm)) \<noteq> 0"
  shows "\<exists>d app'. free_stage P mo tm client_ip app = Some (d, app') \<and>
    ap_config app' = ap_config app \<and> ap_facilitator app' = ap_facilitator app"
proof (cases client_ip)
  case (Some ip)
  obtain a l r where "limiter_check (pf_redis P) (rp_label (tm_resolved tm)) ip (max_requests (rp_free_tier (tm_resolved tm)))
      (window_secs (rp_free_tier (tm_resolved tm))) (at_limit mo) (ap_limiter app, ap_redis app) = Some (a, l, r)"
    using limiter_check_total[OF assms] by (metis surj_pair)
  with Some show ?thesis by (simp add: free_stage_def Let_def)
qed (simp add: free_stage_def)

lemma decide_total:
  assumes "sound_policy (policy_for (ap_config app) path policy)"
  shows "\<exists>decision app'. decide P mo headers client_ip path policy url settle app = Some (decision, app') \<and>
    ap_config app' = ap_config app \<and> ap_facilitator app' = ap_facilitator app"
proof -
  let ?tm = "resolve_terms (ap_config app) path policy url"
  obtain served app1 where s: "session_stage P mo (presented_token (pf_wire P) headers) policy app = (served, app1)"
    by (cases "session_stage P mo (presented_token (pf_wire P) headers) policy app")
  note keeps = session_stage_keeps[OF s]
  have "window_secs (rp_free_tier (tm_resolved ?tm)) \<noteq> 0"
    using assms by (simp add: sound_policy_def resolve_terms_def Let_def)
  note free = free_stage_total[OF this, of P mo client_ip app1]
  show ?thesis
  proof (cases served)
    case (Some d)
    with s keeps show ?thesis by (simp add: decide_eq)
  next
    case None
    show ?thesis
    proof (cases "presented (pf_wire P) headers")
      case (Some decoded)
      obtain d app2 where "payment_stage P mo ?tm policy settle decoded app1 = (d, app2)"
        by (cases "payment_stage P mo ?tm policy settle decoded app1")
      with payment_stage_keeps[OF this] s keeps Some None show ?thesis by (simp add: decide_eq)
    qed (use s None free keeps in \<open>simp add: decide_eq\<close>)
  qed
qed

section \<open>A concrete service, for the witnesses\<close>

definition demo_redis :: "unit redis" where
  "demo_redis =
     \<lparr>rd_link = (\<lambda>r. (NotSent ''down'', r)), rd_get = (\<lambda>k. eff_return None), rd_set_ex = (\<lambda>k v t. eff_return ()),
      rd_del = (\<lambda>k. eff_return ()), rd_incr = (\<lambda>k. eff_return ()), rd_expire = (\<lambda>k t. eff_return ()),
      rd_hget = (\<lambda>k f. eff_return None), rd_hset = (\<lambda>k f v. eff_return ()), rd_hincrby = (\<lambda>k f d. eff_return ())\<rparr>"

definition demo_platform :: "(unit, unit) platform" where
  "demo_platform = \<lparr>pf_node = demo_node, pf_wire = demo_wire, pf_redis = demo_redis\<rparr>"

definition stub_facilitator :: Facilitator where
  "stub_facilitator = \<lparr>fac_mode = StubAcceptAll, fac_network = ''sui:testnet'', fac_sui = None\<rparr>"

definition demo_app :: "Facilitator \<Rightarrow> (unit, unit) App" where
  "demo_app F =
     \<lparr>ap_config = demo_config, ap_breaker = breaker_new, ap_sessions = MemoryStore demo_store,
      ap_limiter = MemoryLimiter limiter_new, ap_facilitator = F, ap_node = (), ap_redis = ()\<rparr>"

definition demo_moments :: moments where
  "demo_moments =
     \<lparr>at_breaker = 1000, at_consume = 1000, at_meter = 1000, at_claim = 1000, at_age = 1000, at_create = 1000,
      at_limit = 1000, rand_bytes = ''id2'', decide_ms_text = ''1.0'', settle_ms_text = ''1.0''\<rparr>"

lemma demo_free_request:
  assumes "presented demo_wire headers = None" "presented_token demo_wire headers = None"
  shows "decide demo_platform demo_moments headers (Some (V4 10 0 0 1)) path (Some ''grpc'') url settle
      ((demo_app F)\<lparr>ap_breaker := b\<rparr>) =
    Some (Allow Free None None None None (MeterFree 0 1 20),
      (demo_app F)\<lparr>ap_breaker := b, ap_limiter := MemoryLimiter [key_for ''grpc'' (V4 10 0 0 1) \<mapsto>
        (fresh_window 60 1000)\<lparr>rw_current := 1\<rparr>]\<rparr>)"
proof -
  have ft: "rp_free_tier (policy_for demo_config path (Some ''grpc'')) = \<lparr>max_requests = 1, window_secs = 60\<rparr>"
    "rp_label (policy_for demo_config path (Some ''grpc'')) = ''grpc''"
    by (simp_all add: policy_for_def demo_config_def)
  have ws: "window_start_of 60 1000 = 960" by (simp add: window_start_of_def)
  have "window_check 1 60 (fresh_window 60 1000) 1000 =
      (\<lparr>allowed = True, al_remaining = 0, al_limit = 1, reset_secs = 20\<rparr>, (fresh_window 60 1000)\<lparr>rw_current := 1\<rparr>)"
    by (subst window_check_no_previous) (simp_all add: fresh_window_def ws)
  with assms show ?thesis
    by (simp add: decide_eq session_stage_def free_stage_def demo_platform_def
        resolve_terms_def demo_app_def ft demo_moments_def check_at_def limiter_new_def Let_def)
qed

lemma demo_free:
  "decide demo_platform demo_moments None (Some (V4 10 0 0 1)) ''/x'' (Some ''grpc'') ''u'' Immediate (demo_app demo_facilitator) =
    Some (Allow Free None None None None (MeterFree 0 1 20),
      (demo_app demo_facilitator)\<lparr>ap_limiter := MemoryLimiter [key_for ''grpc'' (V4 10 0 0 1) \<mapsto>
        (fresh_window 60 1000)\<lparr>rw_current := 1\<rparr>]\<rparr>)"
  using demo_free_request[of None, where path = "''/x''" and url = "''u''" and settle = Immediate and F = demo_facilitator
      and b = breaker_new]
  by (simp add: presented_def presented_token_def header_get_def demo_app_def)

section \<open>Properties\<close>

text \<open>What a payment that is let through has passed.\<close>

lemma payment_stage_admits:
  assumes "payment_stage P mo tm policy settle decoded app1 = (Allow tier payer token settlement pending meter, app')"
    and keeps: "ap_facilitator app1 = ap_facilitator app" "ap_node app1 = ap_node app"
  shows "\<exists>payload app2. decoded = Inr payload \<and> tier = Paid \<and>
    (\<forall>pid. payment_id (pf_wire P) payload = Some pid \<longrightarrow>
       on_sessions (store_claim_payment (pf_redis P) pid (replay_ttl (pr_max_timeout_seconds (tm_requirements tm))) (at_claim mo))
         app1 = (Fresh, app2)) \<and>
    (if settle = Deferred
     then \<exists>n. facilitator_verify (pf_node P) (pf_wire P) (ap_facilitator app) payload (tm_requirements tm) (ap_node app) =
            (Inr (the payer), n) \<and> token = None
     else \<exists>n sr. facilitator_settle (pf_node P) (pf_wire P) (ap_facilitator app) payload (tm_requirements tm) (ap_node app) =
            (Inr sr, n) \<and> payer = sr_payer sr)"
proof -
  from payment_stage_allow[OF assms(1)] obtain payload app2 where p: "decoded = Inr payload" "tier = Paid"
    "claim_stage P mo tm payload app1 = (None, app2)"
    "settle = Deferred \<longrightarrow> (\<exists>n. facilitator_verify (pf_node P) (pf_wire P) (ap_facilitator app2) payload
       (tm_requirements tm) (ap_node app2) = (Inr (the payer), n) \<and> token = None \<and> settlement = None)"
    "settle = Immediate \<longrightarrow> (\<exists>n sr. facilitator_settle (pf_node P) (pf_wire P) (ap_facilitator app2) payload
       (tm_requirements tm) (ap_node app2) = (Inr sr, n) \<and> payer = sr_payer sr \<and> pending = None)"
    by blast
  have same: "ap_facilitator app2 = ap_facilitator app" "ap_node app2 = ap_node app"
    using p(3) keeps by (auto simp: claim_stage_def on_sessions_config Let_def split: option.splits prod.splits)
  have "if settle = Deferred
     then \<exists>n. facilitator_verify (pf_node P) (pf_wire P) (ap_facilitator app) payload (tm_requirements tm) (ap_node app) =
            (Inr (the payer), n) \<and> token = None
     else \<exists>n sr. facilitator_settle (pf_node P) (pf_wire P) (ap_facilitator app) payload (tm_requirements tm) (ap_node app) =
            (Inr sr, n) \<and> payer = sr_payer sr"
    using p(4,5) same by (cases settle) auto
  with claim_stage_fresh[OF p(3)] p(1,2) show ?thesis by auto
qed

text \<open>C5: access is paid for or metered. A request is let through only if its session token was
  accepted and charged one request of its session; or it presents a payment that the replay
  cache had not seen (whenever the payment has an identity) and that the facilitator verified or
  settled against the terms of the policy in force; or the rate limiter admitted its address
  under that policy's free tier. There is no other way in, in either settlement mode and with
  either store.\<close>

theorem access_is_paid_or_metered:
  assumes "decide P mo headers client_ip path policy url settle app =
      Some (Allow tier payer token settlement pending meter, app')"
  defines "resolved \<equiv> policy_for (ap_config app) path policy"
  defines "req \<equiv> from_config (rp_payment resolved)"
  defines "after_session \<equiv> snd (session_stage P mo (presented_token (pf_wire P) headers) policy app)"
  shows
    "(\<exists>tok p remaining quota expires_at. presented_token (pf_wire P) headers = Some tok \<and> tier = Paid \<and> payer = Some p \<and>
        on_sessions (store_consume (pf_crypto P) (pf_redis P) tok policy (at_consume mo)) app =
          (Accepted p remaining quota expires_at, app')) \<or>
     (\<exists>payload app2. presented (pf_wire P) headers = Some (Inr payload) \<and> tier = Paid \<and>
        (\<forall>pid. payment_id (pf_wire P) payload = Some pid \<longrightarrow>
           on_sessions (store_claim_payment (pf_redis P) pid (replay_ttl (pr_max_timeout_seconds req)) (at_claim mo))
             after_session = (Fresh, app2)) \<and>
        (if settle = Deferred
         then \<exists>n. facilitator_verify (pf_node P) (pf_wire P) (ap_facilitator app) payload req (ap_node app) =
                (Inr (the payer), n) \<and> token = None
         else \<exists>n sr. facilitator_settle (pf_node P) (pf_wire P) (ap_facilitator app) payload req (ap_node app) =
                (Inr sr, n) \<and> payer = sr_payer sr)) \<or>
     (\<exists>ip a l r. client_ip = Some ip \<and> tier = Free \<and> payer = None \<and> allowed a \<and>
        limiter_check (pf_redis P) (rp_label resolved) ip (max_requests (rp_free_tier resolved))
          (window_secs (rp_free_tier resolved)) (at_limit mo) (ap_limiter app, ap_redis after_session) = Some (a, l, r))"
proof -
  let ?tm = "resolve_terms (ap_config app) path policy url"
  have tm: "tm_requirements ?tm = req" "tm_resolved ?tm = resolved"
    by (simp_all add: resolve_terms_def Let_def req_def resolved_def)
  obtain served app1 where s: "session_stage P mo (presented_token (pf_wire P) headers) policy app = (served, app1)"
    by (cases "session_stage P mo (presented_token (pf_wire P) headers) policy app")
  note keeps = session_stage_keeps[OF s]
  have after: "after_session = app1" using s by (simp add: after_session_def)
  show ?thesis
  proof (cases served)
    case (Some d)
    with s assms(1) have "d = Allow tier payer token settlement pending meter" "app1 = app'"
      by (simp_all add: decide_eq)
    with session_stage_served[OF s[unfolded Some]] show ?thesis by (intro disjI1) auto
  next
    case None
    note none = this
    show ?thesis
    proof (cases "presented (pf_wire P) headers")
      case (Some decoded)
      with none s assms(1) have
        "payment_stage P mo ?tm policy settle decoded app1 = (Allow tier payer token settlement pending meter, app')"
        by (simp add: decide_eq)
      from payment_stage_admits[OF this, of app] keeps Some show ?thesis
        unfolding after tm by (intro disjI2[OF disjI1]) auto
    next
      case None
      with none s assms(1) have "free_stage P mo ?tm client_ip app1 = Some (Allow tier payer token settlement pending meter, app')"
        by (simp add: decide_eq)
      moreover have "ap_limiter app1 = ap_limiter app"
        using s by (auto simp: session_stage_def on_sessions_config split: option.splits prod.splits SessionOutcome.splits)
      ultimately show ?thesis
        using free_stage_allow[of P mo ?tm client_ip app1] tm(2) unfolding after by (intro disjI2[OF disjI2]) fastforce
    qed
  qed
qed

theorem access_is_paid_or_metered_witness:
  "\<exists>a l r. allowed a \<and> limiter_check demo_redis ''grpc'' (V4 10 0 0 1) 1 60 1000 (MemoryLimiter limiter_new, ()) = Some (a, l, r)"
proof -
  have ft: "rp_free_tier (policy_for demo_config ''/x'' (Some ''grpc'')) = \<lparr>max_requests = 1, window_secs = 60\<rparr>"
    "rp_label (policy_for demo_config ''/x'' (Some ''grpc'')) = ''grpc''"
    by (simp_all add: policy_for_def demo_config_def)
  show ?thesis
    using access_is_paid_or_metered[OF demo_free] by (simp add: demo_app_def demo_platform_def demo_moments_def ft)
qed

text \<open>In stub mode a transaction that is not base64 is never claimed. The service accepts such
  a payment again and again: in every state of an in-process store, presenting it is allowed in
  the paid tier and mints another session, although its replay was to be refused.\<close>

lemma stub_mode_accepts_undecodable_payment_repeatedly:
  assumes "fac_mode (ap_facilitator app) = StubAcceptAll" "ap_sessions app = MemoryStore store"
    and "presented (pf_wire P) headers = Some (Inr payload)" "presented_token (pf_wire P) headers = None"
    and "sui_from_value (pf_wire P) (pp_payload payload) = Inr sui" "b64_decode (pf_wire P) (trim (sp_transaction sui)) = Inl e"
    and "trim (sp_transaction sui) \<noteq> []" "trim (sp_signature sui) \<noteq> []"
    and "terms_agree (ap_facilitator app) payload (from_config (rp_payment (policy_for (ap_config app) path policy)))"
  shows "\<exists>token settlement meter store' app'.
    decide P mo headers client_ip path policy url Immediate app =
      Some (Allow Paid (Some (stub_payer (pf_wire P) (sp_transaction sui))) (Some token) settlement None meter, app') \<and>
    ap_sessions app' = MemoryStore store' \<and> seen_payments store' = seen_payments store \<and>
    ap_facilitator app' = ap_facilitator app \<and> ap_config app' = ap_config app"
proof -
  let ?tm = "resolve_terms (ap_config app) path policy url"
  have tm: "tm_requirements ?tm = from_config (rp_payment (policy_for (ap_config app) path policy))"
    by (simp add: resolve_terms_def Let_def)
  have "payment_id (pf_wire P) payload = None" using assms(5,6) by (simp add: payment_id_def)
  moreover have "check_terms (pf_wire P) (ap_facilitator app) payload (tm_requirements ?tm) = Inr sui"
    using assms(5,7-9) tm by (simp add: check_terms_ok_iff)
  ultimately have pay: "payment_stage P mo ?tm policy Immediate (Inr payload) app = settle_immediate P mo ?tm policy payload app"
    and settle: "verify_and_settle (pf_node P) (pf_wire P) (ap_facilitator app) payload (tm_requirements ?tm) n =
      (Inr \<lparr>sr_success = True, sr_error_reason = None, sr_payer = Some (stub_payer (pf_wire P) (sp_transaction sui)),
        sr_transaction = ''stub-not-settled-on-chain'', sr_network = fac_network (ap_facilitator app),
        sr_amount = Some (pr_amount (tm_requirements ?tm)), sr_extensions = None\<rparr>, n)" for n
    using assms(1) by (simp_all add: payment_stage_def claim_stage_def verify_and_settle_def facilitator_settle_def
        eff_bind_def eff_lift_def)
  have "decide P mo headers client_ip path policy url Immediate app = Some (settle_immediate P mo ?tm policy payload app)"
    using assms(3,4) pay by (simp add: decide_eq session_stage_def)
  moreover obtain token store' where c: "create_session_at (pf_crypto P) (rand_bytes mo) store
      (stub_payer (pf_wire P) (sp_transaction sui)) policy (pt_quota (rp_paid_tier (tm_resolved ?tm)))
      (pt_duration_secs (rp_paid_tier (tm_resolved ?tm))) (at_create mo) = (token, store')" by fastforce
  moreover have "seen_payments store' = seen_payments store"
    using c by (auto simp: create_session_at_def Let_def)
  ultimately show ?thesis
    using assms(2) by (simp add: settle_immediate_def on_node_def settle Let_def mint_session_def on_sessions_def)
qed


lemma demo_default_terms: "from_config (rp_payment (policy_for demo_config ''x'' None)) = demo_requirements"
  by (simp add: demo_requirements_def policy_for_def matching_route_def demo_config_def default_policy_def starts_with_def)

lemma demo_presented:
  assumes "trim h = h" "h \<noteq> []" "CHR ''!'' \<notin> set h"
  shows "presented (pf_wire demo_platform) (Some [(''payment-signature'', h)]) =
      Some (Inr (demo_payload (if h = ''bad'' then ''t!'' else h)))"
    "presented_token (pf_wire demo_platform) (Some [(''payment-signature'', h)]) = None"
proof -
  have "eq_ignore_ascii_case ''payment-signature'' HEADER_PAYMENT_SESSION = False"
    by (simp add: eq_ignore_ascii_case_def to_ascii_lowercase_def to_ascii_lower_def HEADER_PAYMENT_SESSION_def)
  then show
    "presented (pf_wire demo_platform) (Some [(''payment-signature'', h)]) =
      Some (Inr (demo_payload (if h = ''bad'' then ''t!'' else h)))"
    "presented_token (pf_wire demo_platform) (Some [(''payment-signature'', h)]) = None"
    using assms by (simp_all add: presented_def presented_token_def header_get_def HEADER_PAYMENT_SIGNATURE_def
        HEADER_PAYMENT_SESSION_def decode_header_def demo_platform_def demo_wire_def demo_payload_def
        session_token_from_extensions_def)
qed

lemma stub_mode_accepts_undecodable_payment_repeatedly_example:
  "\<exists>token settlement meter app'.
    decide demo_platform demo_moments (Some [(''payment-signature'', ''bad'')]) None ''x'' None ''u'' Immediate
      (demo_app stub_facilitator) =
    Some (Allow Paid (Some (stub_payer (pf_wire demo_platform) ''t!'')) (Some token) settlement None meter, app')"
proof -
  have bad: "trim ''bad'' = ''bad''" by (intro trim_graphic) (simp add: graphic_def)
  note p = demo_presented[OF bad, simplified]
  show ?thesis
    using stub_mode_accepts_undecodable_payment_repeatedly[where app = "demo_app stub_facilitator"
        and sui = "\<lparr>sp_signature = ''sig'', sp_transaction = ''t!''\<rparr>" and policy = None and path = "''x''"
        and e = "''bad symbol''" and mo = demo_moments and client_ip = None and url = "''u''", OF _ _ p]
    by (simp add: demo_app_def stub_facilitator_def demo_default_terms demo_platform_def demo_wire_def
        demo_payload_def terms_agree_def) blast
qed


text \<open>C39: a session is not tied to the path it was bought on. For requests that carry no policy
  name (gateways priced with path-prefix routes), a token that opens one path opens every other
  path with the same effect, whatever that path costs, although the refusal \<open>WrongPolicy\<close> is
  there so that a cheap route's session does not unlock an expensive one.\<close>

theorem session_opens_every_path_prefix:
  assumes "decide P mo headers client_ip path policy url settle app =
      Some (Allow Paid payer None None None (MeterSession remaining quota expires), app')"
  shows "decide P mo headers client_ip' other_path policy url' settle' app =
      Some (Allow Paid payer None None None (MeterSession remaining quota expires), app')"
proof -
  obtain served app1 where s: "session_stage P mo (presented_token (pf_wire P) headers) policy app = (served, app1)"
    by (cases "session_stage P mo (presented_token (pf_wire P) headers) policy app")
  have "served \<noteq> None"
  proof
    assume none: "served = None"
    show False
    proof (cases "presented (pf_wire P) headers")
      case (Some decoded)
      with none s assms show False
        by (auto simp: decide_eq payment_stage_def payment_rejected_def verify_deferred_def settle_immediate_def
            Let_def split: sum.splits prod.splits option.splits if_splits)
    next
      case None
      with none s assms show False
        by (auto simp: decide_eq free_stage_def Let_def split: prod.splits option.splits if_splits)
    qed
  qed
  with s assms show ?thesis by (auto simp: decide_eq)
qed

lemma demo_session_request:
  "decide demo_platform demo_moments (Some [(''x-payment-session'', demo_token)]) None ''x'' None ''u'' Immediate
     (demo_app demo_facilitator) =
   Some (Allow Paid (Some ''0xa1'') None None None (MeterSession 1 2 3600),
     (demo_app demo_facilitator)\<lparr>ap_sessions :=
        MemoryStore (snd (consume_at demo_crypto demo_store demo_token None 1000))\<rparr>)"
proof -
  have h: "presented (pf_wire demo_platform) (Some [(''x-payment-session'', demo_token)]) = None"
    by (simp add: presented_def header_get_def HEADER_PAYMENT_SIGNATURE_def eq_ignore_ascii_case_def
        to_ascii_lowercase_def to_ascii_lower_def)
  have "trim demo_token \<noteq> []"
  proof
    assume "trim demo_token = []"
    then have "fst (consume_at demo_crypto demo_store demo_token None 1000) = Rejected Malformed"
      by (simp add: consume_at_def verify_def)
    then show False using demo_accepted by simp
  qed
  then have t: "presented_token (pf_wire demo_platform) (Some [(''x-payment-session'', demo_token)]) = Some demo_token"
    by (simp add: presented_token_def h header_get_def HEADER_PAYMENT_SESSION_def)
  obtain s1 where c: "consume_at demo_crypto demo_store demo_token None 1000 = (Accepted ''0xa1'' 1 2 4600, s1)"
    using demo_accepted by (cases "consume_at demo_crypto demo_store demo_token None 1000") simp
  have w: "pf_crypto demo_platform = demo_crypto" by (simp add: demo_platform_def demo_wire_def)
  show ?thesis
    by (simp add: decide_eq t h session_stage_def on_sessions_def demo_app_def w c demo_moments_def sat_sub_def)
qed

theorem session_opens_every_path_prefix_witness:
  "fst (the (decide demo_platform demo_moments (Some [(''x-payment-session'', demo_token)]) None ''/sui.rpc.v2'' None ''u''
     Immediate (demo_app demo_facilitator))) = Allow Paid (Some ''0xa1'') None None None (MeterSession 1 2 3600)"
  using session_opens_every_path_prefix[OF demo_session_request] by simp

text \<open>A claim outlives the window it protects. The replay cache holds a payment for ten times
  the advertised timeout, never less than five minutes and always for more than the timeout
  itself, without wrap-around for any 64-bit timeout below the largest.\<close>

lemma replay_ttl_outlives_window:
  "unat (replay_ttl w) = max (min (10 * unat w) (2 ^ 64 - 1)) 300 \<and> (w < replay_ttl w \<or> w = - 1)"
proof -
  have m: "unat (max a b) = max (unat a) (unat b)" for a b :: u64 by (simp add: max_def word_le_nat_alt)
  have u: "unat (replay_ttl w) = max (min (10 * unat w) (2 ^ 64 - 1)) 300"
    unfolding replay_ttl_def m by (simp add: unat_sat_mul mult.commute)
  have lt: "unat w < 2 ^ 64" using unsigned_less[of w] by simp
  show ?thesis
  proof (cases "unat w = 2 ^ 64 - 1")
    case True
    then have "w = - 1" using unat_minus_one_word_eq[where 'a = 64] by (simp add: word_unat_eq_iff)
    with u show ?thesis by simp
  next
    case False
    with lt have "unat w < unat (replay_ttl w)" unfolding u by simp
    with u show ?thesis by (simp add: word_less_nat_alt)
  qed
qed


text \<open>The percent-decoding a gRPC client applies to \<open>grpc-message\<close>.\<close>

fun percent_decode :: "string \<Rightarrow> string" where
  "percent_decode (p # h # l # cs) =
     (if p = CHR ''%''
      then (case (hex_char_value h, hex_char_value l) of
              (Some a, Some b) \<Rightarrow> char_of (16 * a + b) # percent_decode cs
            | _ \<Rightarrow> p # percent_decode (h # l # cs))
      else p # percent_decode (h # l # cs))"
| "percent_decode cs = cs"

definition printable :: "char \<Rightarrow> bool" where
  "printable c \<longleftrightarrow> (32 :: nat) \<le> of_char c \<and> of_char c \<le> (126 :: nat)"

lemma hex_upper_digit_facts:
  "n < 16 \<Longrightarrow> hex_char_value (hex_upper_digit n) = Some n \<and> printable (hex_upper_digit n)"
  by (auto simp: hex_char_value_def hex_upper_digit_def printable_def Let_def)

lemma percent_decode_plain: "c \<noteq> CHR ''%'' \<Longrightarrow> percent_decode (c # cs) = c # percent_decode cs"
  by (cases cs; cases "tl cs") auto

lemma grpc_message_Cons:
  "grpc_message (c # cs) = (let n = of_char c :: nat in
     if printable c \<and> c \<noteq> CHR ''%'' then [c]
     else [CHR ''%'', hex_upper_digit (n div 16), hex_upper_digit (n mod 16)]) @ grpc_message cs"
  by (simp add: grpc_message_def printable_def Let_def)

text \<open>C31: a refusal reaches a gRPC client intact. The \<open>grpc-message\<close> header holds only printable
  ASCII, as gRPC demands, and percent-decoding it gives back the reason byte for byte, whatever
  bytes the reason contains.\<close>

theorem grpc_message_roundtrip:
  "percent_decode (grpc_message reason) = reason \<and> list_all printable (grpc_message reason)"
proof (induction reason)
  case Nil
  then show ?case by (simp add: grpc_message_def)
next
  case (Cons c cs)
  let ?n = "of_char c :: nat"
  show ?case
  proof (cases "printable c \<and> c \<noteq> CHR ''%''")
    case True
    with Cons show ?thesis by (simp add: grpc_message_Cons percent_decode_plain)
  next
    case False
    have d: "?n div 16 < 16" "?n mod 16 < 16" using nibble[of c] by simp_all
    have "16 * (?n div 16) + ?n mod 16 = ?n" by simp
    with False Cons hex_upper_digit_facts[OF d(1)] hex_upper_digit_facts[OF d(2)] show ?thesis
      by (auto simp: grpc_message_Cons Let_def printable_def)
  qed
qed

section \<open>An unreachable Redis server\<close>

definition unreachable :: "'r redis \<Rightarrow> bool" where
  "unreachable R \<longleftrightarrow> (\<forall>r. \<exists>e r'. rd_link R r = (NotSent e, r') \<or> rd_link R r = (LostReply e, r'))"

lemma round_trip_unreachable:
  assumes "unreachable R"
  shows "\<exists>e r'. round_trip R request r = (Inl e, r')"
proof -
  from assms obtain e r' where "rd_link R r = (NotSent e, r') \<or> rd_link R r = (LostReply e, r')"
    unfolding unreachable_def by blast
  then show ?thesis by (auto simp: round_trip_def)
qed

lemma store_consume_unreachable:
  assumes "unreachable R"
  shows "\<exists>reason r'. store_consume C R token policy now (RedisStore s, r) = (Rejected reason, RedisStore s, r')"
proof (cases "verify C (rs_codec s) token now")
  case (Inr claims)
  obtain e r' where "round_trip R (SPEND_SCRIPT R (redis_key (claim_session_id claims))
      (case policy of None \<Rightarrow> [] | Some p \<Rightarrow> p)) r = (Inl e, r')"
    using round_trip_unreachable[OF assms] by blast
  with Inr show ?thesis by (simp add: redis_consume_def)
qed (simp add: redis_consume_def)

lemma store_claim_unreachable:
  assumes "unreachable R"
  shows "\<exists>r'. store_claim_payment R pid ttl now (RedisStore s, r) = (PaymentClaim.Backend, RedisStore s, r')"
proof -
  obtain e r' where "round_trip R (CLAIM_SCRIPT R (REDIS_REPLAY_PREFIX @ pid) (show_u64 now) (uint ttl)) r = (Inl e, r')"
    using round_trip_unreachable[OF assms] by blast
  then show ?thesis by (simp add: redis_claim_payment_def)
qed

lemma limiter_unreachable:
  assumes "unreachable R" "window \<noteq> 0"
  shows "\<exists>a r'. limiter_check R label ip m window now (RedisLimiter, r) = Some (a, RedisLimiter, r') \<and> \<not> allowed a"
proof -
  note def = redis_check_at_def[of R label ip m window now r, unfolded Let_def]
  obtain e r' where "round_trip R (CHECK_SCRIPT R
      (REDIS_RATELIMIT_PREFIX @ key_for label ip @ '':'' @ show_u64 (window_start_of window now))
      (REDIS_RATELIMIT_PREFIX @ key_for label ip @ '':'' @ show_u64 (sat_sub (window_start_of window now) window)) m (window * 2)
      (f64_div (f64_of_u64 (window - (now - window_start_of window now))) (f64_of_u64 window))) r = (Inl e, r')"
    using round_trip_unreachable[OF assms(1)] by blast
  with assms(2) def show ?thesis by simp
qed

lemma nameless_payment_fails:
  assumes "fac_mode F = SuiGrpc" "payment_id W payload = None"
  shows "\<exists>e. facilitator_verify N W F payload req n = (Inl e, n) \<and> facilitator_settle N W F payload req n = (Inl e, n)"
proof (cases "check_terms W F payload req")
  case (Inl e)
  then show ?thesis by (simp add: facilitator_verify_def facilitator_settle_def eff_bind_def eff_lift_def)
next
  case (Inr sui)
  then have "sui_from_value W (pp_payload payload) = Inr sui" by (simp add: check_terms_ok_iff)
  with assms(2) obtain e where "b64_decode W (trim (sp_transaction sui)) = Inl e"
    by (auto simp: payment_id_def split: sum.splits) (metis sum.exhaust r_ok.simps(2) bind.simps(2) option.distinct(1))
  then obtain e' where "sui_decode W sui = Inl e'" by (simp add: sui_decode_def)
  with Inr assms(1) show ?thesis
    by (cases "fac_sui F") (auto simp: facilitator_verify_def facilitator_settle_def sui_verify_def eff_bind_def eff_lift_def
        eff_fail_def)
qed

lemma session_stage_unreachable:
  assumes "unreachable (pf_redis P)" "ap_sessions app = RedisStore s"
  shows "\<exists>app1. session_stage P mo token policy app = (None, app1) \<and> ap_sessions app1 = RedisStore s \<and>
    ap_limiter app1 = ap_limiter app"
proof (cases token)
  case (Some tok)
  obtain reason r' where "store_consume (pf_crypto P) (pf_redis P) tok policy (at_consume mo) (RedisStore s, ap_redis app) =
      (Rejected reason, RedisStore s, r')"
    using store_consume_unreachable[OF assms(1)] by blast
  with assms(2) Some show ?thesis by (simp add: session_stage_def on_sessions_def)
qed (use assms(2) in \<open>simp add: session_stage_def\<close>)

text \<open>In the stub mode the fullnode is not asked.\<close>

lemma stub_asks_no_node:
  assumes "fac_mode F = StubAcceptAll"
  shows "snd (facilitator_verify N W F payload req n) = n" "snd (facilitator_settle N W F payload req n) = n"
  using assms by (auto simp: facilitator_verify_def facilitator_settle_def eff_bind_def eff_lift_def eff_return_def
      split: sum.splits)

lemma stub_payment_node:
  assumes "fac_mode (ap_facilitator app) = StubAcceptAll" "payment_id (pf_wire P) payload = None"
    "payment_stage P mo tm policy settle (Inr payload) app = (d, app')"
  shows "ap_node app' = ap_node app"
proof (cases settle)
  case Deferred
  with assms stub_asks_no_node(1)[OF assms(1), of "pf_node P" "pf_wire P" payload "tm_requirements tm" "ap_node app"]
  show ?thesis
    by (auto simp: payment_stage_def claim_stage_def verify_deferred_def on_node_def split: prod.splits sum.splits)
next
  case Immediate
  with assms stub_asks_no_node(2)[OF assms(1), of "pf_node P" "pf_wire P" payload "tm_requirements tm" "ap_node app"]
  show ?thesis
    by (auto simp: payment_stage_def claim_stage_def settle_immediate_def verify_and_settle_def on_node_def Let_def
        split: prod.splits sum.splits dest: mint_session_node)
qed

lemma payment_stage_unreachable:
  assumes "unreachable (pf_redis P)" "ap_sessions app = RedisStore s" "payment_stage P mo tm policy settle decoded app = (d, app')"
  shows "ap_node app' = ap_node app \<and> ((\<exists>c r m. d = Deny c r m) \<or> fac_mode (ap_facilitator app) = StubAcceptAll \<and>
    (\<exists>payload. decoded = Inr payload \<and> payment_id (pf_wire P) payload = None))"
proof (cases decoded)
  case (Inl e)
  with assms(3) show ?thesis by (auto simp: payment_stage_def)
next
  case decoded: (Inr payload)
  show ?thesis
  proof (cases "payment_id (pf_wire P) payload")
    case None
    show ?thesis
    proof (cases "fac_mode (ap_facilitator app)")
      case StubAcceptAll
      from stub_payment_node[OF this None] assms(3) decoded StubAcceptAll None show ?thesis by auto
    next
      case SuiGrpc
      from None have "claim_stage P mo tm payload app = (None, app)" by (simp add: claim_stage_def)
      moreover obtain e where "facilitator_verify (pf_node P) (pf_wire P) (ap_facilitator app) payload (tm_requirements tm) (ap_node app) =
          (Inl e, ap_node app) \<and> facilitator_settle (pf_node P) (pf_wire P) (ap_facilitator app) payload (tm_requirements tm)
          (ap_node app) = (Inl e, ap_node app)"
        by (rule exE[OF nameless_payment_fails[OF SuiGrpc None]])
      ultimately show ?thesis
        using decoded assms(3) by (cases settle) (auto simp: payment_stage_def verify_deferred_def settle_immediate_def
            verify_and_settle_def on_node_def payment_rejected_def)
    qed
  next
    case (Some pid)
    obtain r' where "store_claim_payment (pf_redis P) pid (replay_ttl (pr_max_timeout_seconds (tm_requirements tm))) (at_claim mo)
        (RedisStore s, ap_redis app) = (PaymentClaim.Backend, RedisStore s, r')"
      using store_claim_unreachable[OF assms(1)] by blast
    with Some assms(2,3) decoded show ?thesis
      by (auto simp: payment_stage_def claim_stage_def on_sessions_def claim_error_def payment_rejected_def)
  qed
qed

text \<open>C14: without its store the gateway refuses. When no round trip to Redis is answered, no token is
  accepted, no payment that can be claimed and no anonymous request is let through, in both settlement
  modes, and not one call is made to the fullnode, so that no client pays for an access it does not
  get. In the \<open>sui-grpc\<close> mode every request is denied. In the \<open>stub-accept-all\<close> mode, which verifies
  nothing, there is one exception and the property names it: a payment whose transaction does not
  decode has no identity to claim, so it does not need the store.\<close>

theorem unreachable_redis_fails_closed:
  assumes "unreachable (pf_redis P)" "ap_sessions app = RedisStore s" "ap_limiter app = RedisLimiter"
    and "sound_policy (policy_for (ap_config app) path policy)"
  shows "\<exists>decision app'. decide P mo headers client_ip path policy url settle app = Some (decision, app') \<and>
    ap_node app' = ap_node app \<and>
    ((\<exists>challenge receipt meter. decision = Deny challenge receipt meter) \<or>
     fac_mode (ap_facilitator app) = StubAcceptAll \<and>
     (\<exists>payload. presented (pf_wire P) headers = Some (Inr payload) \<and> payment_id (pf_wire P) payload = None))"
proof -
  let ?tm = "resolve_terms (ap_config app) path policy url"
  obtain app1 where s: "session_stage P mo (presented_token (pf_wire P) headers) policy app = (None, app1)"
    "ap_sessions app1 = RedisStore s" "ap_limiter app1 = RedisLimiter"
    using session_stage_unreachable[OF assms(1,2)] assms(3) by metis
  note keeps = session_stage_keeps[OF s(1)]
  show ?thesis
  proof (cases "presented (pf_wire P) headers")
    case (Some decoded)
    obtain d app' where p: "payment_stage P mo ?tm policy settle decoded app1 = (d, app')" by fastforce
    from payment_stage_unreachable[OF assms(1) s(2) p] s(1) Some keeps p show ?thesis by (simp add: decide_eq)
  next
    case None
    have "window_secs (rp_free_tier (tm_resolved ?tm)) \<noteq> 0"
      using assms(4) by (simp add: sound_policy_def resolve_terms_def Let_def)
    note limit = limiter_unreachable[OF assms(1) this]
    have "\<exists>c r m app'. free_stage P mo ?tm client_ip app1 = Some (Deny c r m, app') \<and> ap_node app' = ap_node app1"
    proof (cases client_ip)
      case (Some ip)
      obtain a r' where "limiter_check (pf_redis P) (rp_label (tm_resolved ?tm)) ip (max_requests (rp_free_tier (tm_resolved ?tm)))
          (window_secs (rp_free_tier (tm_resolved ?tm))) (at_limit mo) (RedisLimiter, ap_redis app1) = Some (a, RedisLimiter, r')"
        "\<not> allowed a"
        using limit by blast
      with Some s(3) show ?thesis by (simp add: free_stage_def Let_def)
    qed (simp add: free_stage_def)
    with s(1) None keeps show ?thesis by (auto simp: decide_eq)
  qed
qed

theorem unreachable_redis_fails_closed_witness:
  "\<exists>challenge receipt meter app'.
    decide demo_platform demo_moments (Some [(''payment-signature'', ''tx'')]) None ''x'' None ''u'' Immediate
      ((demo_app demo_facilitator)\<lparr>ap_sessions := RedisStore \<lparr>rs_codec = codec_new ''key''\<rparr>, ap_limiter := RedisLimiter\<rparr>) =
    Some (Deny challenge receipt meter, app')"
proof -
  let ?app = "(demo_app demo_facilitator)\<lparr>ap_sessions := RedisStore \<lparr>rs_codec = codec_new ''key''\<rparr>, ap_limiter := RedisLimiter\<rparr>"
  have u: "unreachable (pf_redis demo_platform)" by (simp add: unreachable_def demo_platform_def demo_redis_def)
  have s: "ap_sessions ?app = RedisStore \<lparr>rs_codec = codec_new ''key''\<rparr>" "ap_limiter ?app = RedisLimiter" by simp_all
  have "sound_policy (policy_for demo_config ''x'' None)"
    using demo_config_loads validated_policy_sound by (auto simp: config_load_def Let_def)
  then have p: "sound_policy (policy_for (ap_config ?app) ''x'' None)" by (simp add: demo_app_def)
  have "fac_mode (ap_facilitator ?app) = SuiGrpc" by (simp add: demo_app_def demo_facilitator_def)
  with unreachable_redis_fails_closed[OF u s p, of demo_moments "Some [(''payment-signature'', ''tx'')]" None "''u''" Immediate]
  show ?thesis by auto
qed

end
