(* ===== verification/ExtProc.thy ===== *)
theory ExtProc
  imports Auth "HOL-Library.AList"
begin

text \<open>
  The ext_proc service (src/ext_proc.rs): one stream per HTTP request, on which a payment is
  verified with the request headers and settled with the response headers, only if the upstream
  succeeded.

  A handler takes and returns the stream state and the service state. Durations are the texts
  they are printed as. A \<open>HashMap\<close> built from a list is an association list in which a later
  entry replaces an earlier one.
\<close>

section \<open>Responses\<close>

record HeaderValueOption =
  hv_key :: string
  hv_raw_value :: bytes
  hv_append_action :: HeaderAppendAction

definition header :: "string \<Rightarrow> string \<Rightarrow> HeaderValueOption" where
  "header key value = \<lparr>hv_key = key, hv_raw_value = value, hv_append_action = OverwriteIfExistsOrAdd\<rparr>"

record HeaderMutation =
  set_headers :: "HeaderValueOption list"
  remove_headers :: "string list"

datatype ProcessingResponse =
    RequestHeadersReply "HeaderMutation option"
  | ResponseHeadersReply "HeaderMutation option"
  | ImmediateResponse (ir_status: nat) (ir_headers: "HeaderValueOption list") (ir_body: bytes)
  | EmptyReply

definition continue_with_removals :: "HeaderValueOption list \<Rightarrow> string list \<Rightarrow> HeaderMutation option" where
  "continue_with_removals headers remove =
     (if headers \<noteq> [] \<or> remove \<noteq> [] then Some \<lparr>set_headers = headers, remove_headers = remove\<rparr> else None)"

definition continue_with :: "HeaderValueOption list \<Rightarrow> HeaderMutation option" where
  "continue_with headers = continue_with_removals headers []"

definition HEADER_SERVER_TIMING :: string where "HEADER_SERVER_TIMING = ''server-timing''"

fun server_timing :: "(string \<times> string) list \<Rightarrow> string" where
  "server_timing [] = []"
| "server_timing [(name, ms)] = name @ '';dur='' @ ms"
| "server_timing ((name, ms) # p # ps) = name @ '';dur='' @ ms @ '', '' @ server_timing (p # ps)"

definition settlement_unavailable :: "wire \<Rightarrow> string \<Rightarrow> ProcessingResponse" where
  "settlement_unavailable W path =
     (let grpc = starts_with path ''/sui.rpc.v2.'' \<or> starts_with path ''/grpc.'';
          body = JObject [(''error'', JString ''settlement_unavailable''),
            (''message'', JString ''Payments are temporarily refused because settlement is failing. The free tier is unaffected. Try again shortly.'')] in
      ImmediateResponse (if grpc then 200 else 503)
        ([header ''retry-after'' ''30'',
          header ''content-type'' (if grpc then ''application/grpc'' else ''application/json'')] @
         (if grpc then [header ''grpc-status'' ''14'', header ''grpc-message'' ''settlement%20unavailable''] else []))
        (case json_to_vec W body of Inl e \<Rightarrow> [] | Inr b \<Rightarrow> b))"

section \<open>Reading the request\<close>

record RawHeader =
  rh_key :: string
  rh_value :: string
  rh_raw_value :: bytes

type_synonym HashMap = "(string \<times> string) list"

definition header_map :: "wire \<Rightarrow> RawHeader list option \<Rightarrow> HashMap" where
  "header_map W headers =
     (case headers of
        None \<Rightarrow> []
      | Some hs \<Rightarrow> foldl (\<lambda>m h. AList.update (to_ascii_lowercase (rh_key h))
          (if rh_raw_value h = [] then rh_value h else utf8_lossy W (rh_raw_value h)) m) [] hs)"

definition grpc_timeout_for :: "Meter \<Rightarrow> HeaderView \<Rightarrow> string option" where
  "grpc_timeout_for meter view =
     (case meter of
        MeterSession remaining quota expires_in_secs \<Rightarrow>
          if \<not> is_grpc_request view then None
          else Some (show_u64 (max expires_in_secs 1) @ ''S'')
      | _ \<Rightarrow> None)"

definition resource_url :: "HashMap \<Rightarrow> string \<Rightarrow> string" where
  "resource_url m path =
     (let authority = (case map_of m ''x-forwarded-host'' of Some a \<Rightarrow> a
            | None \<Rightarrow> (case map_of m '':authority'' of Some a \<Rightarrow> a | None \<Rightarrow> [])) in
      if authority = [] then path
      else
        let scheme = (case (case map_of m ''x-forwarded-proto'' of Some s \<Rightarrow> Some s | None \<Rightarrow> map_of m '':scheme'') of
              Some s \<Rightarrow> if s \<noteq> [] then s else ''https''
            | None \<Rightarrow> ''https'') in
        scheme @ ''://'' @ authority @ path)"

datatype ProtoKind = StringValue string | OtherValue

type_synonym Attributes = "(string \<times> (string \<times> ProtoKind option) list) list"

definition string_attribute :: "string \<Rightarrow> Attributes \<Rightarrow> string option" where
  "string_attribute name attributes =
     Option.bind (find (\<lambda>(_, fields). case map_of fields name of Some (Some (StringValue _)) \<Rightarrow> True | _ \<Rightarrow> False) attributes)
       (\<lambda>(_, fields). case map_of fields name of Some (Some (StringValue s)) \<Rightarrow> Some s | _ \<Rightarrow> None)"

definition rsplit_host :: "string \<Rightarrow> string" where
  "rsplit_host address =
     (if CHR '':'' \<in> set address
      then rev (tl (dropWhile (\<lambda>c. c \<noteq> CHR '':'') (rev address))) else address)"

definition parse_host :: "string \<Rightarrow> IpAddr option" where
  "parse_host address =
     parse_ip (rev (dropWhile (\<lambda>c. c = CHR '']'') (rev (dropWhile (\<lambda>c. c = CHR ''['') (rsplit_host address)))))"

definition client_ip_from_attributes :: "Attributes \<Rightarrow> IpAddr option" where
  "client_ip_from_attributes attributes = Option.bind (string_attribute ''source.address'' attributes) parse_host"

text \<open>\<open>text.split(pattern).nth(1)\<close>: what lies between the first two occurrences.\<close>

fun split_once_str :: "string \<Rightarrow> string \<Rightarrow> (string \<times> string) option" where
  "split_once_str p [] = None"
| "split_once_str p (c # cs) =
     (if starts_with (c # cs) p then Some ([], drop (length p) (c # cs))
      else map_option (\<lambda>(l, r). (c # l, r)) (split_once_str p cs))"

definition split_nth1 :: "string \<Rightarrow> string \<Rightarrow> string option" where
  "split_nth1 p s =
     map_option (\<lambda>(_, r). case split_once_str p r of None \<Rightarrow> r | Some (m, _) \<Rightarrow> m) (split_once_str p s)"

definition parse_policy_from_text_format :: "string \<Rightarrow> string option" where
  "parse_policy_from_text_format text =
     Option.bind (split_nth1 ''key: \"x402_policy\"'' text) (\<lambda>after_key.
     Option.bind (split_nth1 ''string_value:'' after_key) (\<lambda>after_marker.
     Option.bind (split_once_str ''\"'' after_marker) (\<lambda>(_, rest).
     Option.bind (split_once_str ''\"'' rest) (\<lambda>(value, _).
     if value = [] then None else Some value))))"

definition policy_from_attributes :: "Attributes \<Rightarrow> string option" where
  "policy_from_attributes attributes =
     Option.bind (string_attribute ''xds.route_metadata'' attributes) parse_policy_from_text_format"

definition is_success :: "string \<Rightarrow> bool" where
  "is_success status = (case parse_unsigned 16 status of None \<Rightarrow> False | Some code \<Rightarrow> 200 \<le> code \<and> code < 300)"

section \<open>The stream\<close>

record StreamState =
  ss_pending :: "PendingPayment option"
  ss_policy :: "string option"
  ss_path :: string
  ss_meter :: Meter
  ss_decide_ms :: string

definition stream_default :: StreamState where
  "stream_default = \<lparr>ss_pending = None, ss_policy = None, ss_path = [], ss_meter = MeterUnknown, ss_decide_ms = ''0.0''\<rparr>"

text \<open>The filter decides with settlement deferred.\<close>

definition decider_decide ::
  "('n, 'r) platform \<Rightarrow> moments \<Rightarrow> HeaderView \<Rightarrow> IpAddr option \<Rightarrow> string \<Rightarrow> string option \<Rightarrow> string
    \<Rightarrow> ('n, 'r) App \<Rightarrow> (Decision \<times> ('n, 'r) App) option" where
  "decider_decide P mo headers client_ip path policy url app =
     decide P mo headers client_ip path policy url Deferred app"

definition allow_mutations :: "Tier \<Rightarrow> string option \<Rightarrow> Meter \<Rightarrow> HeaderView \<Rightarrow> HeaderValueOption list" where
  "allow_mutations tier payer meter view =
     [header HEADER_TIER (tier_as_str tier)] @
     (case payer of None \<Rightarrow> [] | Some p \<Rightarrow> [header HEADER_PAYER p]) @
     (case grpc_timeout_for meter view of None \<Rightarrow> [] | Some timeout \<Rightarrow> [header ''grpc-timeout'' timeout])"

definition deny_reply ::
  "wire \<Rightarrow> PaymentRequired \<Rightarrow> SettlementResponse option \<Rightarrow> Meter \<Rightarrow> string \<Rightarrow> ProcessingResponse" where
  "deny_reply W challenge receipt meter decide_ms =
     ImmediateResponse 402
       ((case r_ok (encode_header W (required_to_vec W) challenge) of None \<Rightarrow> []
           | Some encoded \<Rightarrow> [header HEADER_PAYMENT_REQUIRED encoded]) @
        (case Option.bind receipt (\<lambda>r. r_ok (encode_header W (settlement_to_vec W) r)) of None \<Rightarrow> []
           | Some encoded \<Rightarrow> [header HEADER_PAYMENT_RESPONSE encoded]) @
        map (\<lambda>(name, value). header name value) (meter_headers meter) @
        [header HEADER_SERVER_TIMING (server_timing [(''x402-decide'', decide_ms)]),
         header ''content-type'' ''application/json''])
       (case required_to_vec W challenge of Inl e \<Rightarrow> [] | Inr b \<Rightarrow> b)"

definition breaker_label :: "string option \<Rightarrow> string" where
  "breaker_label policy = (case policy of None \<Rightarrow> DEFAULT_POLICY_LABEL | Some p \<Rightarrow> p)"

definition handle_request_headers ::
  "('n, 'r) platform \<Rightarrow> moments \<Rightarrow> StreamState \<Rightarrow> RawHeader list option \<Rightarrow> IpAddr option \<Rightarrow> string option
    \<Rightarrow> ('n, 'r) App \<Rightarrow> (ProcessingResponse \<times> StreamState \<times> ('n, 'r) App) option" where
  "handle_request_headers P mo ss headers client_ip policy app =
     (let m = header_map (pf_wire P) headers;
          view = Some m;
          path = (case map_of m '':path'' of Some p \<Rightarrow> p | None \<Rightarrow> []);
          url = resource_url m path;
          (breaker, b1) = state_at (ap_breaker app) (breaker_label policy) (at_breaker mo);
          app1 = app\<lparr>ap_breaker := b1\<rparr> in
      if \<not> accepts_payment breaker \<and> header_get view HEADER_PAYMENT_SIGNATURE \<noteq> None
      then Some (settlement_unavailable (pf_wire P) path, ss, app1)
      else
        case decider_decide P mo view client_ip path policy url app1 of
          None \<Rightarrow> None
        | Some (Allow tier payer token settlement pending meter, app2) \<Rightarrow>
            Some (RequestHeadersReply (continue_with_removals (allow_mutations tier payer meter view)
                    [HEADER_PAYMENT_SIGNATURE, HEADER_PAYMENT_SESSION]),
                  ss\<lparr>ss_pending := pending, ss_policy := policy, ss_path := path, ss_meter := meter,
                     ss_decide_ms := decide_ms_text mo\<rparr>, app2)
        | Some (Deny challenge receipt meter, app2) \<Rightarrow>
            Some (deny_reply (pf_wire P) challenge receipt meter (decide_ms_text mo), ss, app2))"

text \<open>The reply when nothing is settled: the meter and the decision's share of the latency.\<close>

definition unsettled_reply :: "StreamState \<Rightarrow> ProcessingResponse" where
  "unsettled_reply ss =
     ResponseHeadersReply (continue_with (map (\<lambda>(name, value). header name value) (meter_headers (ss_meter ss)) @
       [header HEADER_SERVER_TIMING (server_timing [(''x402-decide'', ss_decide_ms ss)])]))"

text \<open>A settled payment: the session is minted and replaces the free-tier meter.\<close>

definition settled_mutations ::
  "wire \<Rightarrow> PaidTierConfig \<Rightarrow> string option \<Rightarrow> SettlementResponse \<Rightarrow> HeaderValueOption list \<Rightarrow> HeaderValueOption list" where
  "settled_mutations W tier token settlement mutations =
     (case token of
        None \<Rightarrow> mutations
      | Some token \<Rightarrow>
          filter (\<lambda>h. \<not> starts_with (hv_key h) ''x-x402-free-'') (mutations @ [header HEADER_PAYMENT_SESSION token]) @
          map (\<lambda>(name, value). header name value)
            (meter_headers (MeterSession (pt_quota tier) (pt_quota tier) (pt_duration_secs tier)))) @
     (case r_ok (encode_header W (settlement_to_vec W) (with_grant tier token settlement)) of None \<Rightarrow> []
        | Some encoded \<Rightarrow> [header HEADER_PAYMENT_RESPONSE encoded])"

definition settle_pending ::
  "('n, 'r) platform \<Rightarrow> moments \<Rightarrow> StreamState \<Rightarrow> PendingPayment \<Rightarrow> ('n, 'r) App \<Rightarrow> ProcessingResponse \<times> ('n, 'r) App" where
  "settle_pending P mo ss pending app =
     (let W = pf_wire P;
          tier = rp_paid_tier (policy_for (ap_config app) (ss_path ss) (ss_policy ss));
          (settled, app1) = on_node (facilitator_settle (pf_node P) W (ap_facilitator app)
             (pn_payload pending) (pn_requirements pending)) app;
          mutations = map (\<lambda>(name, value). header name value) (meter_headers (ss_meter ss)) @
            [header HEADER_SERVER_TIMING (server_timing [(''x402-decide'', ss_decide_ms ss), (''x402-settle'', settle_ms_text mo)])];
          label = breaker_label (ss_policy ss) in
      case settled of
        Inr settlement \<Rightarrow>
          (let app2 = app1\<lparr>ap_breaker := record_success (ap_breaker app1) label (at_breaker mo)\<rparr>;
               (token, app3) = mint_session P mo (ss_policy ss) tier (sr_payer settlement) app2 in
           (ResponseHeadersReply (continue_with (settled_mutations W tier token settlement mutations)), app3))
      | Inl e \<Rightarrow>
          (let app2 = app1\<lparr>ap_breaker := record_failure (ap_breaker app1) label (at_breaker mo)\<rparr>;
               receipt = failure_receipt (ap_facilitator app) (error_code e) in
           (ResponseHeadersReply (continue_with (mutations @
              (case r_ok (encode_header W (settlement_to_vec W) receipt) of None \<Rightarrow> []
                 | Some encoded \<Rightarrow> [header HEADER_PAYMENT_RESPONSE encoded]))), app2)))"

definition handle_response_headers ::
  "('n, 'r) platform \<Rightarrow> moments \<Rightarrow> StreamState \<Rightarrow> RawHeader list option \<Rightarrow> ('n, 'r) App
    \<Rightarrow> ProcessingResponse \<times> StreamState \<times> ('n, 'r) App" where
  "handle_response_headers P mo ss headers app =
     (case ss_pending ss of
        None \<Rightarrow> (unsettled_reply ss, ss, app)
      | Some pending \<Rightarrow>
          (let ss1 = ss\<lparr>ss_pending := None\<rparr>;
               m = header_map (pf_wire P) headers;
               status = (case map_of m '':status'' of Some s \<Rightarrow> s | None \<Rightarrow> []) in
           if \<not> is_success status
           then
             let app1 = (case pn_payment_id pending of
                   None \<Rightarrow> app
                 | Some pid \<Rightarrow> snd (on_sessions (\<lambda>s. ((), store_release_payment (pf_redis P) pid s)) app)) in
             (unsettled_reply ss, ss1, app1)
           else let (reply, app1) = settle_pending P mo ss pending app in (reply, ss1, app1)))"

datatype ProcessingPhase = RequestHeaders "RawHeader list option" | ResponseHeaders "RawHeader list option" | OtherPhase

record ProcessingRequest =
  pq_attributes :: Attributes
  pq_phase :: ProcessingPhase

definition process_message ::
  "('n, 'r) platform \<Rightarrow> moments \<Rightarrow> ProcessingRequest \<Rightarrow> StreamState \<Rightarrow> ('n, 'r) App
    \<Rightarrow> (ProcessingResponse \<times> StreamState \<times> ('n, 'r) App) option" where
  "process_message P mo message ss app =
     (case pq_phase message of
        RequestHeaders headers \<Rightarrow>
          handle_request_headers P mo ss headers (client_ip_from_attributes (pq_attributes message))
            (policy_from_attributes (pq_attributes message)) app
      | ResponseHeaders headers \<Rightarrow> Some (handle_response_headers P mo ss headers app)
      | OtherPhase \<Rightarrow> Some (EmptyReply, ss, app))"

text \<open>
  The loop of one stream: the messages that arrive, each with the readings made while it is
  handled and whether its reply could still be delivered. An undeliverable reply ends it.
\<close>

fun process ::
  "('n, 'r) platform \<Rightarrow> (moments \<times> ProcessingRequest \<times> bool) list \<Rightarrow> StreamState \<Rightarrow> ('n, 'r) App
    \<Rightarrow> (ProcessingResponse list \<times> StreamState \<times> ('n, 'r) App) option" where
  "process P [] ss app = Some ([], ss, app)"
| "process P ((mo, message, delivered) # ms) ss app =
     (case process_message P mo message ss app of
        None \<Rightarrow> None
      | Some (reply, ss1, app1) \<Rightarrow>
          if \<not> delivered then Some ([], ss1, app1)
          else map_option (\<lambda>(replies, ss2, app2). (reply # replies, ss2, app2)) (process P ms ss1 app1))"

section \<open>Charging\<close>

text \<open>The execute calls recorded so far, and the payments that still wait to be settled.\<close>

definition executes :: "node_call list \<Rightarrow> nat" where
  "executes calls = length (filter is_execute calls)"

abbreviation executed_by :: "('n \<times> node_call list, 'r) App \<Rightarrow> nat" where
  "executed_by app \<equiv> executes (snd (ap_node app))"

definition waiting :: "StreamState \<Rightarrow> nat" where
  "waiting ss = (if ss_pending ss = None then 0 else 1)"

lemma executes_append [simp]: "executes (xs @ ys) = executes xs + executes ys"
  by (simp add: executes_def)

lemma executes_reads [simp]: "\<forall>c \<in> set calls. \<not> is_execute c \<Longrightarrow> executes calls = 0"
  by (simp add: executes_def filter_empty_conv)

lemma session_stage_node: "session_stage P mo token policy app = (d, app1) \<Longrightarrow> ap_node app1 = ap_node app"
  using session_stage_keeps by blast

lemma claim_stage_node: "claim_stage P mo tm payload app = (e, app1) \<Longrightarrow> ap_node app1 = ap_node app"
  by (auto simp: claim_stage_def on_sessions_config Let_def split: option.splits prod.splits)

lemma free_stage_node: "free_stage P mo tm ip app = Some (d, app1) \<Longrightarrow> ap_node app1 = ap_node app"
  by (auto simp: free_stage_def Let_def split: option.splits)

lemma verify_deferred_executes:
  assumes "pf_node P = logged N" "verify_deferred P tm payload app = (d, app')"
  shows "executed_by app' = executed_by app"
proof -
  let ?v = "facilitator_verify (logged N) (pf_wire P) (ap_facilitator app) payload (tm_requirements tm)"
  obtain r n where v: "?v (ap_node app) = (r, n)" by (cases "?v (ap_node app)")
  from reads_only_facilitator_verify[of N "pf_wire P" "ap_facilitator app" payload "tm_requirements tm"] v
  obtain calls where "snd n = snd (ap_node app) @ calls" "\<forall>c \<in> set calls. \<not> is_execute c"
    unfolding reads_only_def by blast
  moreover have "ap_node app' = n"
    using assms v by (auto simp: verify_deferred_def on_node_def split: sum.splits)
  ultimately show ?thesis by simp
qed

lemma payment_stage_deferred_executes:
  assumes "pf_node P = logged N" "payment_stage P mo tm policy Deferred decoded app = (d, app')"
  shows "executed_by app' = executed_by app"
proof (cases decoded)
  case (Inl e)
  with assms(2) show ?thesis by (auto simp: payment_stage_def)
next
  case (Inr payload)
  obtain e app1 where c: "claim_stage P mo tm payload app = (e, app1)" by (cases "claim_stage P mo tm payload app")
  with assms(2) Inr claim_stage_node[OF c] show ?thesis
    by (cases e) (auto simp: payment_stage_def dest: verify_deferred_executes[OF assms(1)])
qed

lemma decide_deferred_executes:
  assumes "pf_node P = logged N" "decide P mo headers ip path policy url Deferred app = Some (d, app')"
  shows "executed_by app' = executed_by app"
proof -
  obtain served app1 where s: "session_stage P mo (presented_token (pf_wire P) headers) policy app = (served, app1)"
    by (cases "session_stage P mo (presented_token (pf_wire P) headers) policy app")
  note node = session_stage_node[OF s]
  show ?thesis
  proof (cases served)
    case (Some x)
    with s assms(2) node show ?thesis by (simp add: decide_eq)
  next
    case None
    with s assms(2) node show ?thesis
      by (cases "presented (pf_wire P) headers")
        (auto simp: decide_eq dest: free_stage_node payment_stage_deferred_executes[OF assms(1)])
  qed
qed

lemma request_headers_executes:
  assumes "pf_node P = logged N" "handle_request_headers P mo ss headers ip policy app = Some (reply, ss', app')"
  shows "executed_by app' = executed_by app"
  using assms(2)
  by (auto simp: handle_request_headers_def decider_decide_def Let_def split: prod.splits if_splits option.splits
      Decision.splits dest: decide_deferred_executes[OF assms(1)])

lemma settle_pending_executes:
  assumes "pf_node P = logged N" "settle_pending P mo ss pending app = (reply, app')"
  shows "executed_by app' \<le> executed_by app + 1"
proof -
  let ?f = "facilitator_settle (logged N) (pf_wire P) (ap_facilitator app) (pn_payload pending) (pn_requirements pending)"
  obtain r n where f: "?f (ap_node app) = (r, n)" by (cases "?f (ap_node app)")
  have "executes (snd n) \<le> executed_by app + 1"
    using facilitator_settle_cases[OF f] by (auto dest!: passing_checks_reads simp: executes_def filter_empty_conv)
  moreover have "ap_node app' = n"
    using assms f
    by (auto simp: settle_pending_def on_node_def Let_def split: sum.splits prod.splits dest: mint_session_node)
  ultimately show ?thesis by simp
qed


text \<open>What a message can lead to: a payment to verify, or an upstream success to charge for.\<close>

definition opens_request :: "ProcessingRequest \<Rightarrow> bool" where
  "opens_request message \<longleftrightarrow> (\<exists>headers. pq_phase message = RequestHeaders headers)"

definition reports_success :: "wire \<Rightarrow> ProcessingRequest \<Rightarrow> bool" where
  "reports_success W message \<longleftrightarrow>
     (\<exists>headers status. pq_phase message = ResponseHeaders headers \<and>
        map_of (header_map W headers) '':status'' = Some status \<and> is_success status)"

lemma is_success_Nil [simp]: "\<not> is_success []"
  by (simp add: is_success_def parse_unsigned_def parse_digits_def)

lemma response_headers_executes:
  assumes "pf_node P = logged N" "handle_response_headers P mo ss headers app = (reply, ss', app')"
    "pq_phase message = ResponseHeaders headers"
  shows "waiting ss' = 0"
    "executed_by app' \<le> executed_by app + (if reports_success (pf_wire P) message then waiting ss else 0)"
proof -
  let ?status = "case map_of (header_map (pf_wire P) headers) '':status'' of Some s \<Rightarrow> s | None \<Rightarrow> []"
  show "waiting ss' = 0"
    using assms(2) by (auto simp: handle_response_headers_def waiting_def Let_def split: option.splits if_splits prod.splits)
  have ok: "reports_success (pf_wire P) message" if "is_success ?status"
    using that assms(3) by (auto simp: reports_success_def split: option.splits)
  show "executed_by app' \<le> executed_by app + (if reports_success (pf_wire P) message then waiting ss else 0)"
  proof (cases "ss_pending ss = None \<or> \<not> is_success ?status")
    case True
    then have "ap_node app' = ap_node app"
      using assms(2) by (auto simp: handle_response_headers_def Let_def split: option.splits if_splits)
    then show ?thesis by simp
  next
    case False
    then obtain pending where "ss_pending ss = Some pending" "is_success ?status" by auto
    with assms(2) have "settle_pending P mo ss pending app = (reply, app')"
      by (auto simp: handle_response_headers_def Let_def split: prod.splits)
    with settle_pending_executes[OF assms(1) this] ok False show ?thesis by (auto simp: waiting_def)
  qed
qed

lemma process_message_executes:
  assumes "pf_node P = logged N" "process_message P mo message ss app = Some (reply, ss', app')"
  shows "executed_by app' + waiting ss' \<le> executed_by app + waiting ss + (if opens_request message then 1 else 0)"
    "executed_by app' \<le> executed_by app + (if reports_success (pf_wire P) message then 1 else 0)"
proof -
  have w: "waiting s \<le> 1" for s by (simp add: waiting_def)
  show "executed_by app' + waiting ss' \<le> executed_by app + waiting ss + (if opens_request message then 1 else 0)"
    "executed_by app' \<le> executed_by app + (if reports_success (pf_wire P) message then 1 else 0)"
  proof (atomize (full), cases "pq_phase message")
    case (RequestHeaders headers)
    with assms(2) request_headers_executes[OF assms(1)] have "executed_by app' = executed_by app"
      by (auto simp: process_message_def)
    with RequestHeaders w[of ss'] show "executed_by app' + waiting ss' \<le> executed_by app + waiting ss +
        (if opens_request message then 1 else 0) \<and>
        executed_by app' \<le> executed_by app + (if reports_success (pf_wire P) message then 1 else 0)"
      by (simp add: opens_request_def reports_success_def)
  next
    case (ResponseHeaders headers)
    with assms(2) have "handle_response_headers P mo ss headers app = (reply, ss', app')" by (simp add: process_message_def)
    from response_headers_executes[OF assms(1) this ResponseHeaders] w[of ss]
    show "executed_by app' + waiting ss' \<le> executed_by app + waiting ss +
        (if opens_request message then 1 else 0) \<and>
        executed_by app' \<le> executed_by app + (if reports_success (pf_wire P) message then 1 else 0)"
      by (simp split: if_splits)
  qed (use assms(2) in \<open>simp_all add: process_message_def\<close>)
qed

lemma process_executes:
  assumes "pf_node P = logged N" "process P ms ss app = Some (sent, ss', app')"
  shows "executed_by app' + waiting ss' \<le> executed_by app + waiting ss + length (filter (\<lambda>(mo, m, d). opens_request m) ms) \<and>
    executed_by app' \<le> executed_by app + length (filter (\<lambda>(mo, m, d). reports_success (pf_wire P) m) ms)"
  using assms(2)
proof (induction ms arbitrary: ss app sent)
  case (Cons x ms)
  obtain mo message delivered where x: "x = (mo, message, delivered)" by (cases x)
  with Cons.prems obtain reply ss1 app1 where m: "process_message P mo message ss app = Some (reply, ss1, app1)"
    by (auto split: option.splits)
  note step = process_message_executes[OF assms(1) m]
  show ?case
  proof (cases delivered)
    case True
    with Cons.prems x m obtain rs where "process P ms ss1 app1 = Some (rs, ss', app')" by auto
    from Cons.IH[OF this] step x show ?thesis by (auto split: if_splits)
  next
    case False
    with Cons.prems x m step show ?thesis by (auto split: if_splits)
  qed
qed simp

section \<open>Properties\<close>

text \<open>C4: a client is charged at most once, and only for what it received. On one stream, whatever
  messages Envoy sends and in whatever order, whatever the node answers and wherever the stream
  breaks off, the number of transactions broadcast is at most the number of requests opened on
  it and at most the number of response headers that report a 2xx status; a stream whose
  upstream failed broadcasts nothing.\<close>

theorem charged_once_and_only_after_success:
  assumes "process (P\<lparr>pf_node := logged N\<rparr>) messages stream_default app = Some (sent, ss, app')"
    and "snd (ap_node app) = []"
  shows "length (filter is_execute (snd (ap_node app'))) \<le>
    min (length (filter (\<lambda>(mo, m, d). opens_request m) messages))
        (length (filter (\<lambda>(mo, m, d). reports_success (pf_wire P) m) messages))"
  using process_executes[OF _ assms(1), of N] assms(2) by (simp add: executes_def stream_default_def waiting_def)


text \<open>A paid request that the upstream answers with 200: verified, served, charged.\<close>

definition logged_platform :: "(unit \<times> node_call list, unit) platform" where
  "logged_platform = \<lparr>pf_node = logged demo_node, pf_wire = demo_wire, pf_redis = demo_redis\<rparr>"

definition logged_app :: "(unit \<times> node_call list, unit) App" where
  "logged_app =
     \<lparr>ap_config = demo_config, ap_breaker = breaker_new, ap_sessions = MemoryStore demo_store,
      ap_limiter = MemoryLimiter limiter_new, ap_facilitator = demo_facilitator, ap_node = ((), []), ap_redis = ()\<rparr>"

definition paid_headers :: "RawHeader list option" where
  "paid_headers = Some [\<lparr>rh_key = ''Payment-Signature'', rh_value = [], rh_raw_value = ''tx''\<rparr>]"

definition ok_headers :: "RawHeader list option" where
  "ok_headers = Some [\<lparr>rh_key = '':status'', rh_value = ''200'', rh_raw_value = []\<rparr>]"

lemma demo_header_maps:
  "header_map demo_wire paid_headers = [(''payment-signature'', ''tx'')]"
  "header_map demo_wire ok_headers = [('':status'', ''200'')]"
  by (simp add: header_map_def paid_headers_def to_ascii_lowercase_def to_ascii_lower_def demo_wire_def, code_simp)
    (simp add: header_map_def ok_headers_def to_ascii_lowercase_def to_ascii_lower_def)

lemma demo_root_terms: "from_config (rp_payment (policy_for demo_config [] None)) = demo_requirements"
  by (simp add: demo_requirements_def policy_for_def matching_route_def demo_config_def default_policy_def starts_with_def)

lemma demo_request_phase:
  "\<exists>reply app1. handle_request_headers logged_platform demo_moments stream_default paid_headers None None logged_app =
     Some (reply, stream_default\<lparr>ss_pending := Some \<lparr>pn_payload = demo_payload ''tx'', pn_requirements = demo_requirements,
       pn_payment_id = Some (hex_enc ''tx'')\<rparr>, ss_decide_ms := ''1.0''\<rparr>, app1) \<and>
     ap_node app1 = ((), demo_checks) \<and> ap_config app1 = demo_config \<and> ap_facilitator app1 = demo_facilitator"
proof -
  note p = demo_presented[of "''tx''", simplified demo_trims, simplified, unfolded demo_platform_def, simplified]
  have b: "fst (state_at breaker_new l t) = Closed" for l t
    by (simp add: state_at_def window_of_def breaker_new_def window_state_at_def default_window_def)
  have pid: "payment_id demo_wire (demo_payload ''tx'') = Some (hex_enc ''tx'')"
    by (simp add: payment_id_def demo_wire_def demo_payload_def demo_crypto_def)
  have fresh: "claim_payment_at demo_store i t n = (Fresh, demo_store\<lparr>seen_payments := (seen_payments demo_store)(i \<mapsto> n)\<rparr>)" for i t n
    by (simp add: claim_payment_at_def demo_store_def create_session_at_def store_new_def Let_def)
  have tm: "tm_requirements (resolve_terms demo_config [] None url) = demo_requirements" for url
    by (simp add: resolve_terms_def Let_def demo_root_terms)
  show ?thesis
    using b[of "''default''" 1000] p
    by (simp add: handle_request_headers_def logged_platform_def demo_header_maps Let_def logged_app_def split_beta
        breaker_label_def DEFAULT_POLICY_LABEL_def demo_moments_def decider_decide_def decide_eq session_stage_def
        payment_stage_def claim_stage_def claim_error_def pid tm on_sessions_def fresh verify_deferred_def
        on_node_def demo_facilitator_verify stream_default_def)
qed


lemma decide_free_payer:
  assumes "decide P mo headers ip path policy url settle app = Some (Allow Free payer token settlement pending meter, app')"
  shows "payer = None"
proof -
  obtain served app1 where s: "session_stage P mo (presented_token (pf_wire P) headers) policy app = (served, app1)"
    by (cases "session_stage P mo (presented_token (pf_wire P) headers) policy app")
  show ?thesis
  proof (cases served)
    case (Some d)
    with assms s session_stage_served[OF s[unfolded Some]] show ?thesis by (auto simp: decide_eq)
  next
    case None
    note none = this
    show ?thesis
    proof (cases "presented (pf_wire P) headers")
      case (Some decoded)
      let ?tm = "resolve_terms (ap_config app) path policy url"
      have "payment_stage P mo ?tm policy settle decoded app1 = (Allow Free payer token settlement pending meter, app')"
        using assms s none Some by (simp add: decide_eq)
      from payment_stage_allow[OF this] show ?thesis by simp
    qed (use assms s none free_stage_allow in \<open>fastforce simp: decide_eq\<close>)
  qed
qed

definition paid_stream :: "(moments \<times> ProcessingRequest \<times> bool) list" where
  "paid_stream = [(demo_moments, \<lparr>pq_attributes = [], pq_phase = RequestHeaders paid_headers\<rparr>, True),
     (demo_moments, \<lparr>pq_attributes = [], pq_phase = ResponseHeaders ok_headers\<rparr>, True)]"

lemma demo_stream:
  "\<exists>sent ss app'. process logged_platform paid_stream stream_default logged_app = Some (sent, ss, app') \<and>
     snd (ap_node app') = demo_checks @ demo_checks @ [ExecuteCall ''tx'' ''sig'' (Inr (Some demo_executed))]"
proof -
  obtain reply app1 where r: "handle_request_headers logged_platform demo_moments stream_default paid_headers None None logged_app =
     Some (reply, stream_default\<lparr>ss_pending := Some \<lparr>pn_payload = demo_payload ''tx'', pn_requirements = demo_requirements,
       pn_payment_id = Some (hex_enc ''tx'')\<rparr>, ss_decide_ms := ''1.0''\<rparr>, app1)"
    and a: "ap_node app1 = ((), demo_checks)" "ap_config app1 = demo_config" "ap_facilitator app1 = demo_facilitator"
    using demo_request_phase by blast
  have s200: "is_success ''200''"
    by (simp add: is_success_def parse_unsigned_def parse_digits_def digits_value_def is_digit_def)
  obtain sent app2 where h: "settle_pending logged_platform demo_moments
     (stream_default\<lparr>ss_pending := Some \<lparr>pn_payload = demo_payload ''tx'', pn_requirements = demo_requirements,
        pn_payment_id = Some (hex_enc ''tx'')\<rparr>, ss_decide_ms := ''1.0''\<rparr>)
     \<lparr>pn_payload = demo_payload ''tx'', pn_requirements = demo_requirements, pn_payment_id = Some (hex_enc ''tx'')\<rparr> app1 =
     (sent, app2)" by fastforce
  then have "ap_node app2 = ((), demo_checks @ demo_checks @ [ExecuteCall ''tx'' ''sig'' (Inr (Some demo_executed))])"
    using a by (auto simp: settle_pending_def on_node_def logged_platform_def demo_settle Let_def split: prod.splits
        dest: mint_session_node)
  with h show ?thesis
    by (simp add: paid_stream_def process_message_def client_ip_from_attributes_def policy_from_attributes_def
        string_attribute_def r handle_response_headers_def Let_def s200 demo_header_maps logged_platform_def[THEN arg_cong[where f = pf_wire]])
qed

theorem charged_once_and_only_after_success_witness:
  "length (filter is_execute (demo_checks @ demo_checks @ [ExecuteCall ''tx'' ''sig'' (Inr (Some demo_executed))])) \<le>
    min (length (filter (\<lambda>(mo, m, d). opens_request m) paid_stream))
        (length (filter (\<lambda>(mo, m, d). reports_success (pf_wire logged_platform) m) paid_stream))"
proof -
  have p: "logged_platform\<lparr>pf_node := logged demo_node\<rparr> = logged_platform" by (simp add: logged_platform_def)
  have n: "snd (ap_node logged_app) = []" by (simp add: logged_app_def)
  obtain sent ss app' where s: "process (logged_platform\<lparr>pf_node := logged demo_node\<rparr>) paid_stream stream_default logged_app =
      Some (sent, ss, app')" "snd (ap_node app') = demo_checks @ demo_checks @ [ExecuteCall ''tx'' ''sig'' (Inr (Some demo_executed))]"
    using demo_stream p by auto
  show ?thesis using charged_once_and_only_after_success[OF s(1) n] unfolding s(2) .
qed

text \<open>C19: a failed upstream costs the client nothing. When the upstream does not answer with a 2xx
  status, the payment that waited on the stream is dropped: the node is not contacted, no session
  and no breaker outcome is recorded, the replay cache forgets the payment, so the same signed
  transaction is accepted as fresh at once, and a repeated response phase has nothing to settle.\<close>

theorem failed_upstream_releases_the_payment:
  assumes "ss_pending ss = Some pending" "pn_payment_id pending = Some pid" "ap_sessions app = MemoryStore store"
    and "\<not> (\<exists>status. map_of (header_map (pf_wire P) headers) '':status'' = Some status \<and> is_success status)"
    and "handle_response_headers P mo ss headers app = (reply, ss', app')"
  shows "ss_pending ss' = None \<and> ap_node app' = ap_node app \<and> ap_breaker app' = ap_breaker app \<and>
    (\<exists>store'. ap_sessions app' = MemoryStore store' \<and> sessions store' = sessions store \<and>
       (\<forall>ttl now. fst (claim_payment_at store' pid ttl now) = Fresh) \<and>
       (\<forall>other. other \<noteq> pid \<longrightarrow> seen_payments store' other = seen_payments store other))"
proof -
  have "\<not> is_success (case map_of (header_map (pf_wire P) headers) '':status'' of Some s \<Rightarrow> s | None \<Rightarrow> [])"
    using assms(4) by (auto split: option.splits)
  with assms(1-3,5) show ?thesis
    by (auto simp: handle_response_headers_def Let_def on_sessions_def release_payment_def claim_payment_at_def)
qed

theorem failed_upstream_releases_the_payment_witness:
  "ap_node (snd (snd (handle_response_headers logged_platform demo_moments
     (stream_default\<lparr>ss_pending := Some \<lparr>pn_payload = demo_payload ''tx'', pn_requirements = demo_requirements,
        pn_payment_id = Some ''id''\<rparr>\<rparr>) None logged_app))) = ((), [])"
proof -
  let ?ss = "stream_default\<lparr>ss_pending := Some \<lparr>pn_payload = demo_payload ''tx'', pn_requirements = demo_requirements,
        pn_payment_id = Some ''id''\<rparr>\<rparr>"
  obtain reply ss' app' where h: "handle_response_headers logged_platform demo_moments ?ss None logged_app = (reply, ss', app')"
    by (cases "handle_response_headers logged_platform demo_moments ?ss None logged_app")
  have n: "\<not> (\<exists>status. map_of (header_map (pf_wire logged_platform) None) '':status'' = Some status \<and> is_success status)"
    by (simp add: header_map_def)
  have a: "ap_sessions logged_app = MemoryStore demo_store" "ap_node logged_app = ((), [])" by (simp_all add: logged_app_def)
  show ?thesis using failed_upstream_releases_the_payment[OF _ _ a(1) n h] h a(2) by simp
qed

text \<open>On the free tier the payer header of the client reaches the backend. The reply that lets a
  free-tier request continue sets the tier but neither sets nor removes \<open>x-x402-payer\<close>, so a
  value the client sent under that name is forwarded as if the gateway had asserted it, while
  ext_authz overwrites the header on every request it allows.\<close>

lemma free_tier_leaves_payer_header:
  assumes "handle_request_headers P mo ss headers client_ip policy app = Some (RequestHeadersReply (Some m), ss', app')"
    and "header HEADER_TIER ''free'' \<in> set (set_headers m)"
  shows "HEADER_PAYER \<notin> set (map hv_key (set_headers m)) \<and> HEADER_PAYER \<notin> set (remove_headers m) \<and>
    (case allow_response W tier payer token settlement meter ip of
       CheckOk ok metadata \<Rightarrow> \<exists>v. (HEADER_PAYER, v, Some OverwriteIfExistsOrAdd) \<in> set (okr_headers ok)
     | _ \<Rightarrow> False)"
proof -
  let ?m = "header_map (pf_wire P) headers"
  from assms(1) obtain tier' payer' token' settlement' pending' meter' path url app1 app2 where
    d: "decide P mo (Some ?m) client_ip path policy url Deferred app1 =
        Some (Allow tier' payer' token' settlement' pending' meter', app2)"
    and m: "Some m = continue_with_removals (allow_mutations tier' payer' meter' (Some ?m))
        [HEADER_PAYMENT_SIGNATURE, HEADER_PAYMENT_SESSION]"
    by (auto simp: handle_request_headers_def decider_decide_def Let_def deny_reply_def settlement_unavailable_def
        split: prod.splits if_splits option.splits Decision.splits)
  then have sets: "set_headers m = allow_mutations tier' payer' meter' (Some ?m)"
    "remove_headers m = [HEADER_PAYMENT_SIGNATURE, HEADER_PAYMENT_SESSION]"
    by (simp_all add: continue_with_removals_def)
  note names = HEADER_PAYER_def HEADER_TIER_def HEADER_PAYMENT_SIGNATURE_def HEADER_PAYMENT_SESSION_def header_def
  have "tier' = Free"
    using assms(2) sets by (cases tier') (auto simp: allow_mutations_def names split: option.splits)
  then have "payer' = None" using d decide_free_payer by blast
  with sets show ?thesis
    by (auto simp: allow_mutations_def names allow_response_def AUTHORITATIVE_APPEND_def split: option.splits)
qed


lemma demo_free_phase:
  assumes "rh_key h = ''x-x402-payer''" "rh_value h = ''0xb0b''" "rh_raw_value h = []"
    and "accepts_payment (fst (state_at b ''grpc'' 1000))"
  shows "handle_request_headers demo_platform demo_moments stream_default (Some [h]) (Some (V4 10 0 0 1)) (Some ''grpc'')
      ((demo_app demo_facilitator)\<lparr>ap_breaker := b\<rparr>) =
    Some (RequestHeadersReply (Some \<lparr>set_headers = [header HEADER_TIER ''free''],
        remove_headers = [HEADER_PAYMENT_SIGNATURE, HEADER_PAYMENT_SESSION]\<rparr>),
      stream_default\<lparr>ss_policy := Some ''grpc'', ss_meter := MeterFree 0 1 20, ss_decide_ms := ''1.0''\<rparr>,
      (demo_app demo_facilitator)\<lparr>ap_breaker := snd (state_at b ''grpc'' 1000),
        ap_limiter := MemoryLimiter [key_for ''grpc'' (V4 10 0 0 1) \<mapsto> (fresh_window 60 1000)\<lparr>rw_current := 1\<rparr>]\<rparr>)"
proof -
  have m: "header_map demo_wire (Some [h]) = [(''x-x402-payer'', ''0xb0b'')]"
    using assms(1-3) by (simp add: header_map_def to_ascii_lowercase_def to_ascii_lower_def)
  have n: "presented demo_wire (Some [(''x-x402-payer'', ''0xb0b'')]) = None"
    "presented_token demo_wire (Some [(''x-x402-payer'', ''0xb0b'')]) = None"
    by (simp_all add: presented_def presented_token_def header_get_def HEADER_PAYMENT_SIGNATURE_def
        HEADER_PAYMENT_SESSION_def eq_ignore_ascii_case_def to_ascii_lowercase_def to_ascii_lower_def)
  have w: "pf_wire demo_platform = demo_wire" by (simp add: demo_platform_def)
  have b: "ap_breaker ((demo_app demo_facilitator)\<lparr>ap_breaker := b\<rparr>) = b" "at_breaker demo_moments = 1000"
    "decide_ms_text demo_moments = ''1.0''"
    by (simp_all add: demo_moments_def)
  show ?thesis
    using assms(4) by (simp add: handle_request_headers_def Let_def split_beta m w b breaker_label_def
        decider_decide_def demo_free_request[OF n] continue_with_removals_def allow_mutations_def grpc_timeout_for_def
        stream_default_def)
qed

lemma free_tier_leaves_payer_header_example:
  "HEADER_PAYER \<notin> set (map hv_key [header HEADER_TIER ''free'']) \<and>
   HEADER_PAYER \<notin> set [HEADER_PAYMENT_SIGNATURE, HEADER_PAYMENT_SESSION]"
proof -
  have "accepts_payment (fst (state_at breaker_new ''grpc'' 1000))"
    by (simp add: window_of_def breaker_new_def window_state_at_def default_window_def)
  note phase = demo_free_phase[OF _ _ _ this, of "\<lparr>rh_key = ''x-x402-payer'', rh_value = ''0xb0b'', rh_raw_value = []\<rparr>", simplified]
  show ?thesis using free_tier_leaves_payer_header[OF phase] by simp
qed

section \<open>The probe of a half-open breaker\<close>

lemma session_stage_breaker: "session_stage P mo token policy app = (d, app1) \<Longrightarrow> ap_breaker app1 = ap_breaker app"
  by (auto simp: session_stage_def on_sessions_config split: option.splits prod.splits SessionOutcome.splits)

lemma payment_stage_breaker:
  "payment_stage P mo tm policy settle decoded app = (d, app') \<Longrightarrow> ap_breaker app' = ap_breaker app"
  by (auto simp: payment_stage_def claim_stage_def verify_deferred_def settle_immediate_def mint_session_def
      on_node_def on_sessions_config Let_def split: sum.splits prod.splits option.splits if_splits)

lemma free_stage_breaker: "free_stage P mo tm ip app = Some (d, app') \<Longrightarrow> ap_breaker app' = ap_breaker app"
  by (auto simp: free_stage_def Let_def split: option.splits)

lemma decide_breaker:
  "decide P mo headers ip path policy url settle app = Some (d, app') \<Longrightarrow> ap_breaker app' = ap_breaker app"
  by (auto simp: decide_eq split: prod.splits option.splits
      dest!: session_stage_breaker payment_stage_breaker free_stage_breaker)

lemma request_headers_breaker:
  assumes "handle_request_headers P mo ss headers ip policy app = Some (reply, ss', app')"
  shows "\<exists>st. state_at (ap_breaker app) (breaker_label policy) (at_breaker mo) = (st, ap_breaker app')"
  using assms
  by (auto simp: handle_request_headers_def decider_decide_def Let_def split: prod.splits if_splits option.splits
      Decision.splits dest: decide_breaker)

text \<open>Request phases that follow each other on the same service, each of its own stream.\<close>

fun request_phases ::
  "('n, 'r) platform \<Rightarrow> (moments \<times> StreamState \<times> RawHeader list option \<times> IpAddr option \<times> string option) list
    \<Rightarrow> ('n, 'r) App \<Rightarrow> ('n, 'r) App option" where
  "request_phases P [] app = Some app"
| "request_phases P ((mo, ss, headers, ip, policy) # rs) app =
     (case handle_request_headers P mo ss headers ip policy app of
        None \<Rightarrow> None
      | Some (_, _, app1) \<Rightarrow> request_phases P rs app1)"

lemma stuck_state_at:
  "state_at b q now = (st, b') \<Longrightarrow> stuck (window_of b p) \<Longrightarrow> window_of b' p = window_of b p"
  by (auto simp: state_at_def stuck_state split: prod.splits)

lemma request_phases_stuck:
  "request_phases P rs app = Some app' \<Longrightarrow> stuck (window_of (ap_breaker app) p) \<Longrightarrow>
   window_of (ap_breaker app') p = window_of (ap_breaker app) p"
proof (induction rs arbitrary: app)
  case (Cons r rs)
  obtain mo ss headers ip policy where r: "r = (mo, ss, headers, ip, policy)" by (metis surj_pair)
  with Cons.prems(1) obtain reply ss1 app1 where h: "handle_request_headers P mo ss headers ip policy app = Some (reply, ss1, app1)"
    "request_phases P rs app1 = Some app'"
    by (auto split: option.splits)
  from request_headers_breaker[OF h(1)] obtain st where
    "state_at (ap_breaker app) (breaker_label policy) (at_breaker mo) = (st, ap_breaker app1)" by blast
  from stuck_state_at[OF this Cons.prems(2)]
  have "window_of (ap_breaker app1) p = window_of (ap_breaker app) p"
    by simp
  with Cons.IH[OF h(2)] Cons.prems(2) show ?case by simp
qed simp

text \<open>C38: a request that pays nothing can use up the probe of a half-open breaker. When the cooldown
  of a policy has passed, the next request of any kind takes the probe; if it leaves no payment
  waiting (it presents none, or a refused one), nothing will ever report the outcome of the
  probe, and after any number of further requests every payment presented on that policy is
  answered with 503, at whatever time it comes, although settlement may have recovered long ago.\<close>

theorem unpaid_request_uses_up_the_probe:
  assumes "fst (state_at (ap_breaker app) (breaker_label policy) (at_breaker mo)) = HalfOpen"
    and "handle_request_headers P mo stream_default headers client_ip policy app = Some (reply, ss, app')"
    and "ss_pending ss = None"
    and "request_phases P later app' = Some app''"
    and "header_get (Some (header_map (pf_wire P) paying)) HEADER_PAYMENT_SIGNATURE \<noteq> None"
  shows "handle_response_headers P mo' ss response app' = (unsettled_reply ss, ss, app') \<and>
    (\<exists>path app3. handle_request_headers P mo'' ss'' paying client_ip'' policy app'' =
       Some (settlement_unavailable (pf_wire P) path, ss'', app3))"
proof -
  let ?p = "breaker_label policy"
  have st: "stuck (window_of (ap_breaker app') ?p)"
    using assms(1) request_headers_breaker[OF assms(2)] half_open_stuck[of "window_of (ap_breaker app) ?p" "at_breaker mo"]
    by (auto simp: state_at_def split: prod.splits) (metis window_of_upd)
  with request_phases_stuck[OF assms(4) st] have "state_at (ap_breaker app'') ?p t = (Open, (ap_breaker app'')(?p \<mapsto> window_of (ap_breaker app'') ?p))" for t
    by (simp add: state_at_def stuck_state)
  with assms(3,5) show ?thesis
    by (auto simp: handle_response_headers_def handle_request_headers_def Let_def)
qed

theorem unpaid_request_uses_up_the_probe_witness:
  "\<exists>app' path app3. handle_request_headers demo_platform (demo_moments\<lparr>at_breaker := 1000000\<rparr>) stream_default paid_headers
     None (Some ''grpc'') app' = Some (settlement_unavailable demo_wire path, stream_default, app3)"
proof -
  let ?b = "tripped ''grpc'' 900"
  let ?app = "(demo_app demo_facilitator)\<lparr>ap_breaker := ?b\<rparr>"
  have half: "fst (state_at ?b ''grpc'' 1000) = HalfOpen"
    by (simp add: window_state_at_def tripped_window breaker_consts sat_sub_def)
  then have "accepts_payment (fst (state_at ?b ''grpc'' 1000))" by simp
  note phase = demo_free_phase[OF _ _ _ this, of "\<lparr>rh_key = ''x-x402-payer'', rh_value = ''0xb0b'', rh_raw_value = []\<rparr>",
      OF RawHeader.select_convs(1) RawHeader.select_convs(2) RawHeader.select_convs(3)]
  have "header_get (Some (header_map (pf_wire demo_platform) paid_headers)) HEADER_PAYMENT_SIGNATURE \<noteq> None"
    by (simp add: demo_platform_def demo_header_maps header_get_def HEADER_PAYMENT_SIGNATURE_def demo_trims)
  note paying = this
  have "fst (state_at (ap_breaker ?app) (breaker_label (Some ''grpc'')) (at_breaker demo_moments)) = HalfOpen"
    using half by (simp add: breaker_label_def demo_moments_def)
  from unpaid_request_uses_up_the_probe[OF this phase _ request_phases.simps(1) paying] show ?thesis
    by (simp add: stream_default_def demo_platform_def) blast
qed

end
