(* ===== verification/FacilitatorApi.thy ===== *)
theory FacilitatorApi
  imports Auth "HOL-Library.List_Lexorder" "HOL-Library.Char_ord"
begin

text \<open>
  The facilitator HTTP interface (src/facilitator_api.rs): \<open>POST /verify\<close>, \<open>POST /settle\<close>,
  \<open>GET /supported\<close> and \<open>GET /policies\<close>, on the facilitator, the session store and the configuration
  that the gateway uses, so the handlers take and return the same \<open>App\<close>.

  Routing and the JSON extractor belong to axum: a request is one of the four calls with its
  decoded body. Which texts are legal header values is decided by the http crate, the argument
  \<open>header_value_ok\<close>.
\<close>

section \<open>Model\<close>

record PolicyView =
  pv_name :: string
  pv_amount :: string
  pv_asset :: string
  pv_pay_to :: string
  pv_network :: string
  pv_description :: string
  pv_free_requests :: u64
  pv_free_window_secs :: u64
  pv_session_quota :: u64
  pv_session_duration_secs :: u64

definition policy_view :: "Config \<Rightarrow> string \<Rightarrow> PolicyView" where
  "policy_view cfg name =
     (let resolved = policy_for cfg [] (Some name) in
      \<lparr>pv_name = name, pv_amount = pc_amount (rp_payment resolved), pv_asset = pc_asset (rp_payment resolved),
       pv_pay_to = pc_pay_to (rp_payment resolved), pv_network = pc_network (rp_payment resolved),
       pv_description = pc_description (rp_payment resolved),
       pv_free_requests = max_requests (rp_free_tier resolved), pv_free_window_secs = window_secs (rp_free_tier resolved),
       pv_session_quota = pt_quota (rp_paid_tier resolved),
       pv_session_duration_secs = pt_duration_secs (rp_paid_tier resolved)\<rparr>)"

definition policies_table :: "Config \<Rightarrow> PolicyView list" where
  "policies_table cfg = sort_key pv_name (map (policy_view cfg) (map fst (policies cfg)))"

datatype BadRequest = BadRequest string string

datatype ApiBody =
    VerifyBody VerifyResponse
  | SettleBody SettlementResponse
  | SupportedBody SupportedResponse
  | PoliciesBody "PolicyView list"

record HttpReply =
  hp_status :: nat
  hp_headers :: "(string \<times> string) list"
  hp_body :: ApiBody

definition chain_detail :: "(string \<Rightarrow> bool) \<Rightarrow> HttpReply \<Rightarrow> string \<Rightarrow> HttpReply" where
  "chain_detail header_value_ok response detail =
     (if header_value_ok detail then response\<lparr>hp_headers := hp_headers response @ [(''x-x402-detail'', detail)]\<rparr>
      else response)"

fun into_response :: "(string \<Rightarrow> bool) \<Rightarrow> BadRequest \<Rightarrow> HttpReply" where
  "into_response header_value_ok (BadRequest code detail) =
     chain_detail header_value_ok
       \<lparr>hp_status = 400, hp_headers = [],
        hp_body = VerifyBody \<lparr>vr_is_valid = False, vr_invalid_reason = Some code, vr_payer = None\<rparr>\<rparr> detail"

definition check_version :: "FacilitatorRequest \<Rightarrow> BadRequest + unit" where
  "check_version request =
     (if fr_x402_version request \<noteq> X402_VERSION
      then Inl (BadRequest ''invalid_x402_version''
        (''request declares x402Version '' @ show_nat (unat (fr_x402_version request)) @
         '', this facilitator speaks '' @ show_nat (unat X402_VERSION)))
      else Inr ())"

definition api_verify ::
  "('n, 'r) platform \<Rightarrow> FacilitatorRequest \<Rightarrow> ('n, 'r) App \<Rightarrow> (BadRequest + VerifyResponse) \<times> ('n, 'r) App" where
  "api_verify P request app =
     (case check_version request of
        Inl bad \<Rightarrow> (Inl bad, app)
      | Inr _ \<Rightarrow>
          (case on_node (facilitator_verify (pf_node P) (pf_wire P) (ap_facilitator app)
                  (fr_payment_payload request) (fr_payment_requirements request)) app of
             (Inr payer, app1) \<Rightarrow> (Inr \<lparr>vr_is_valid = True, vr_invalid_reason = None, vr_payer = Some payer\<rparr>, app1)
           | (Inl e, app1) \<Rightarrow>
               (Inr \<lparr>vr_is_valid = False, vr_invalid_reason = Some (error_code e), vr_payer = None\<rparr>, app1)))"

text \<open>\<open>POST /settle\<close>: the claim, then the settlement, then the release of a claim whose settlement failed.\<close>

definition api_claim ::
  "('n, 'r) platform \<Rightarrow> u64 \<Rightarrow> FacilitatorRequest \<Rightarrow> ('n, 'r) App \<Rightarrow> FacilitatorError option \<times> ('n, 'r) App" where
  "api_claim P now request app =
     (case payment_id (pf_wire P) (fr_payment_payload request) of
        None \<Rightarrow> (None, app)
      | Some pid \<Rightarrow>
          (let ttl = replay_ttl (pr_max_timeout_seconds (fr_payment_requirements request)) in
           case on_sessions (store_claim_payment (pf_redis P) pid ttl now) app of
             (Fresh, app1) \<Rightarrow> (None, app1)
           | (PaymentClaim.Replay first_seen, app1) \<Rightarrow> (Some (FacilitatorError.Replay first_seen), app1)
           | (PaymentClaim.Backend, app1) \<Rightarrow> (Some ReplayCacheUnavailable, app1)))"

definition api_release ::
  "('n, 'r) platform \<Rightarrow> FacilitatorRequest \<Rightarrow> ('n, 'r) App \<Rightarrow> ('n, 'r) App" where
  "api_release P request app =
     (case payment_id (pf_wire P) (fr_payment_payload request) of
        None \<Rightarrow> app
      | Some pid \<Rightarrow> snd (on_sessions (\<lambda>s. ((), store_release_payment (pf_redis P) pid s)) app))"

definition api_settle ::
  "('n, 'r) platform \<Rightarrow> u64 \<Rightarrow> FacilitatorRequest \<Rightarrow> ('n, 'r) App
    \<Rightarrow> (BadRequest + SettlementResponse) \<times> ('n, 'r) App" where
  "api_settle P now request app =
     (case check_version request of
        Inl bad \<Rightarrow> (Inl bad, app)
      | Inr _ \<Rightarrow>
          (case api_claim P now request app of
             (Some e, app1) \<Rightarrow> (Inr (failure_receipt (ap_facilitator app) (error_code e)), app1)
           | (None, app1) \<Rightarrow>
               (case on_node (facilitator_settle (pf_node P) (pf_wire P) (ap_facilitator app1)
                       (fr_payment_payload request) (fr_payment_requirements request)) app1 of
                  (Inr receipt, app2) \<Rightarrow> (Inr receipt, app2)
                | (Inl e, app2) \<Rightarrow>
                    (Inr (failure_receipt (ap_facilitator app2) (error_code e)), api_release P request app2))))"

datatype ApiCall = PostVerify FacilitatorRequest | PostSettle u64 FacilitatorRequest | GetSupported | GetPolicies

definition json_reply :: "ApiBody \<Rightarrow> HttpReply" where
  "json_reply body = \<lparr>hp_status = 200, hp_headers = [], hp_body = body\<rparr>"

fun router :: "(string \<Rightarrow> bool) \<Rightarrow> ('n, 'r) platform \<Rightarrow> ApiCall \<Rightarrow> ('n, 'r) App \<Rightarrow> HttpReply \<times> ('n, 'r) App" where
  "router hv P (PostVerify request) app =
     (case api_verify P request app of
        (Inl bad, app1) \<Rightarrow> (into_response hv bad, app1)
      | (Inr v, app1) \<Rightarrow> (json_reply (VerifyBody v), app1))"
| "router hv P (PostSettle now request) app =
     (case api_settle P now request app of
        (Inl bad, app1) \<Rightarrow> (into_response hv bad, app1)
      | (Inr s, app1) \<Rightarrow> (json_reply (SettleBody s), app1))"
| "router hv P GetSupported app = (json_reply (SupportedBody (supported (ap_facilitator app))), app)"
| "router hv P GetPolicies app = (json_reply (PoliciesBody (policies_table (ap_config app))), app)"

section \<open>The price list\<close>

text \<open>A configured policy name decides alone: the path does not matter.\<close>

lemma policy_for_named:
  assumes "name \<in> fst ` set (policies cfg)"
  shows "policy_for cfg path (Some name) = policy_for cfg path' (Some name)" "rp_label (policy_for cfg path (Some name)) = name"
proof -
  obtain over where "map_of (policies cfg) name = Some over"
    using assms by (metis weak_map_of_SomeI prod.collapse imageE)
  then show "policy_for cfg path (Some name) = policy_for cfg path' (Some name)"
    "rp_label (policy_for cfg path (Some name)) = name"
    by (simp_all add: policy_for_def)
qed

lemma pv_name_view [simp]: "pv_name (policy_view cfg name) = name"
  by (simp add: policy_view_def Let_def)

lemma policies_table_set: "set (policies_table cfg) = policy_view cfg ` fst ` set (policies cfg)"
  by (simp add: policies_table_def image_image)

lemma policies_table_distinct: "distinct (map fst (policies cfg)) \<Longrightarrow> distinct (map pv_name (policies_table cfg))"
proof -
  assume "distinct (map fst (policies cfg))"
  then have "distinct (map pv_name (map (policy_view cfg) (map fst (policies cfg))))" by (simp add: o_def)
  then show ?thesis unfolding policies_table_def distinct_map[of pv_name] by simp
qed

text \<open>C29: the published price list is what the gateway charges. \<open>GET /policies\<close> has exactly one row per
  configured policy, in the order of their names, and each row states the amount, asset,
  recipient and network of the payment that a request under that policy is asked for on every
  path, and the free allowance and session that it gets.\<close>

theorem price_list_is_what_is_charged:
  assumes "distinct (map fst (policies cfg))"
  shows "sorted_wrt (\<lambda>r s. pv_name r < pv_name s) (policies_table cfg) \<and>
    set (map pv_name (policies_table cfg)) = fst ` set (policies cfg) \<and>
    (\<forall>r \<in> set (policies_table cfg). \<forall>path url.
       (let tm = resolve_terms cfg path (Some (pv_name r)) url; req = tm_requirements tm; pol = tm_resolved tm in
        pv_amount r = pr_amount req \<and> pv_asset r = pr_asset req \<and> pv_pay_to r = pr_pay_to req \<and>
        pv_network r = pr_network req \<and> rp_label pol = pv_name r \<and>
        rp_free_tier pol = \<lparr>max_requests = pv_free_requests r, window_secs = pv_free_window_secs r\<rparr> \<and>
        rp_paid_tier pol = \<lparr>pt_quota = pv_session_quota r, pt_duration_secs = pv_session_duration_secs r\<rparr>))"
proof (intro conjI ballI allI)
  have "distinct (map pv_name (policies_table cfg))"
    using assms by (rule policies_table_distinct)
  moreover have "sorted (map pv_name (policies_table cfg))" by (simp add: policies_table_def)
  ultimately have "sorted_wrt (<) (map pv_name (policies_table cfg))" unfolding strict_sorted_iff by blast
  then show "sorted_wrt (\<lambda>r s. pv_name r < pv_name s) (policies_table cfg)" by (simp add: sorted_wrt_map)
  show "set (map pv_name (policies_table cfg)) = fst ` set (policies cfg)"
    by (auto simp: policies_table_set image_image)
next
  fix r path url
  assume "r \<in> set (policies_table cfg)"
  then obtain name where r: "r = policy_view cfg name" and n: "name \<in> fst ` set (policies cfg)"
    by (auto simp: policies_table_set)
  from policy_for_named(1)[OF n, of path "[]"] policy_for_named(2)[OF n] show
    "let tm = resolve_terms cfg path (Some (pv_name r)) url; req = tm_requirements tm; pol = tm_resolved tm in
        pv_amount r = pr_amount req \<and> pv_asset r = pr_asset req \<and> pv_pay_to r = pr_pay_to req \<and>
        pv_network r = pr_network req \<and> rp_label pol = pv_name r \<and>
        rp_free_tier pol = \<lparr>max_requests = pv_free_requests r, window_secs = pv_free_window_secs r\<rparr> \<and>
        rp_paid_tier pol = \<lparr>pt_quota = pv_session_quota r, pt_duration_secs = pv_session_duration_secs r\<rparr>"
    by (simp add: r Let_def resolve_terms_def policy_view_def from_config_def)
qed

theorem price_list_is_what_is_charged_witness:
  "sorted_wrt (\<lambda>r s. pv_name r < pv_name s) (policies_table demo_config) \<and>
   set (map pv_name (policies_table demo_config)) = {''grpc''}"
proof -
  have "distinct (map fst (policies demo_config))" by (simp add: demo_config_def)
  from price_list_is_what_is_charged[OF this] show ?thesis by (simp add: demo_config_def)
qed
end
