(* ===== verification/Service.thy ===== *)
theory Service
  imports ExtProc FacilitatorApi
begin

text \<open>
  The whole service (src/main.rs): how it starts, the periodic cleanup, and the surfaces that share
  one state, as events on it: ext_authz checks, messages of any number of ext_proc streams, calls
  of the facilitator API, cleanup ticks.

  A handler runs as one step. What the interleaving of handlers can reach between two of their
  steps is a matter of the two shared structures with a protocol of their own, the quota counter
  (theory \<open>Quota\<close>) and the breaker (theory \<open>Breaker\<close>), and of the claim, which one atomic
  operation of the store makes.
\<close>

section \<open>Starting\<close>

datatype BootError =
    BadConfig ConfigError
  | BadKey ConfigError
  | NoFullnode string FacilitatorError
  | WrongChain string FacilitatorError
  | NoRedis string string

definition initial_app ::
  "Config \<Rightarrow> SessionStore \<Rightarrow> RateLimiter \<Rightarrow> Facilitator \<Rightarrow> 'n \<Rightarrow> 'r \<Rightarrow> ('n, 'r) App" where
  "initial_app config sstore limiter facilitator n r =
     \<lparr>ap_config = config, ap_breaker = breaker_new, ap_sessions = sstore, ap_limiter = limiter,
      ap_facilitator = facilitator, ap_node = n, ap_redis = r\<rparr>"

text \<open>The stores: in the process, or Redis over a connection each, opened by the redis crate.\<close>

definition redis_session_connect ::
  "(string \<Rightarrow> ('r, string, unit) eff) \<Rightarrow> string \<Rightarrow> bytes \<Rightarrow> ('r, string, RedisSessionStore) eff" where
  "redis_session_connect redis_connect url key =
     eff_bind (redis_connect url) (\<lambda>_. eff_return \<lparr>rs_codec = codec_new key\<rparr>)"

definition redis_limiter_connect ::
  "(string \<Rightarrow> ('r, string, unit) eff) \<Rightarrow> string \<Rightarrow> ('r, string, RateLimiter) eff" where
  "redis_limiter_connect redis_connect url = eff_bind (redis_connect url) (\<lambda>_. eff_return RedisLimiter)"

definition open_stores ::
  "(string \<Rightarrow> ('r, string, unit) eff) \<Rightarrow> Config \<Rightarrow> bytes \<Rightarrow> ('r, BootError, SessionStore \<times> RateLimiter) eff" where
  "open_stores redis_connect config key =
     (case backend (cfg_store config) of
        StoreMemory \<Rightarrow>
          eff_return (MemoryStore (store_new key (pt_duration_secs (cfg_paid_tier config))), MemoryLimiter limiter_new)
      | StoreRedis \<Rightarrow>
          (let url = redis_url (cfg_store config) in
           eff_map_err (NoRedis url)
             (eff_bind (redis_session_connect redis_connect url key) (\<lambda>sstore.
              eff_bind (redis_limiter_connect redis_connect url) (\<lambda>limiter.
              eff_return (RedisStore sstore, limiter))))))"

definition boot ::
  "('n, 'r) platform \<Rightarrow> (string \<Rightarrow> string option) \<Rightarrow> (string \<Rightarrow> ('r, string, unit) eff) \<Rightarrow> Config \<Rightarrow> SocketAddr option
    \<Rightarrow> 'n \<Rightarrow> 'r \<Rightarrow> BootError + ('n, 'r) App" where
  "boot P env redis_connect parsed listen n r =
     (case config_load (pf_crypto P) env parsed of
        Inl e \<Rightarrow> Inl (BadConfig e)
      | Inr loaded \<Rightarrow>
          (let config = (case listen of None \<Rightarrow> loaded | Some addr \<Rightarrow> loaded\<lparr>listen_addr := addr\<rparr>) in
           case config_hmac_key (pf_crypto P) config of
             Inl e \<Rightarrow> Inl (BadKey e)
           | Inr key \<Rightarrow>
               (case facilitator_new (pf_node P) (verification_mode config) (sui_grpc_url config)
                       (pc_network (cfg_payment config)) of
                  Inl e \<Rightarrow> Inl (NoFullnode (sui_grpc_url config) e)
                | Inr facilitator \<Rightarrow>
                    (case verify_chain (pf_node P) facilitator (sui_chain config) n of
                       (Inl e, _) \<Rightarrow> Inl (WrongChain (sui_grpc_url config) e)
                     | (Inr _, n1) \<Rightarrow>
                         (case open_stores redis_connect config key r of
                            (Inl e, _) \<Rightarrow> Inl e
                          | (Inr (sstore, limiter), r1) \<Rightarrow>
                              Inr (initial_app config sstore limiter facilitator n1 r1))))))"

definition cleanup_tick :: "u64 \<Rightarrow> u64 \<Rightarrow> ('n, 'r) App \<Rightarrow> (nat \<times> nat) \<times> ('n, 'r) App" where
  "cleanup_tick now_sessions now_limiter app =
     (let (expired_sessions, s) = store_cleanup_expired now_sessions (ap_sessions app);
          (idle_ips, l) = limiter_cleanup_idle now_limiter (ap_limiter app) in
      ((expired_sessions, idle_ips), app\<lparr>ap_sessions := s, ap_limiter := l\<rparr>))"

section \<open>Serving\<close>

record ('n, 'r) service =
  sv_app :: "('n, 'r) App"
  sv_streams :: "nat \<Rightarrow> StreamState"

datatype event =
    AuthzCheck moments CheckRequest
  | StreamMessage nat moments ProcessingRequest
  | StreamClosed nat
  | ApiRequest ApiCall
  | CleanupTick u64 u64

definition service_step ::
  "(string \<Rightarrow> bool) \<Rightarrow> ('n, 'r) platform \<Rightarrow> event \<Rightarrow> ('n, 'r) service \<Rightarrow> ('n, 'r) service option" where
  "service_step hv P e s =
     (case e of
        AuthzCheck mo request \<Rightarrow>
          map_option (\<lambda>(_, app). s\<lparr>sv_app := app\<rparr>) (check P mo request (sv_app s))
      | StreamMessage i mo message \<Rightarrow>
          map_option (\<lambda>(_, ss, app). s\<lparr>sv_app := app, sv_streams := (sv_streams s)(i := ss)\<rparr>)
            (process_message P mo message (sv_streams s i) (sv_app s))
      | StreamClosed i \<Rightarrow> Some (s\<lparr>sv_streams := (sv_streams s)(i := stream_default)\<rparr>)
      | ApiRequest call \<Rightarrow> Some (s\<lparr>sv_app := snd (router hv P call (sv_app s))\<rparr>)
      | CleanupTick now now' \<Rightarrow> Some (s\<lparr>sv_app := snd (cleanup_tick now now' (sv_app s))\<rparr>))"

fun serve_all ::
  "(string \<Rightarrow> bool) \<Rightarrow> ('n, 'r) platform \<Rightarrow> event list \<Rightarrow> ('n, 'r) service \<Rightarrow> ('n, 'r) service option" where
  "serve_all hv P [] s = Some s"
| "serve_all hv P (e # es) s =
     (case service_step hv P e s of None \<Rightarrow> None | Some s1 \<Rightarrow> serve_all hv P es s1)"

definition started :: "('n, 'r) App \<Rightarrow> ('n, 'r) service" where
  "started app = \<lparr>sv_app = app, sv_streams = (\<lambda>_. stream_default)\<rparr>"

section \<open>Facts on the start\<close>

lemma facilitator_new_facts:
  assumes "facilitator_new N mode url network = Inr F"
  shows "fac_mode F = mode \<and> fac_network F = network \<and> (mode = SuiGrpc \<longrightarrow> fac_sui F \<noteq> None)"
  using assms by (cases mode) (auto simp: facilitator_new_def)

lemma boot_cases:
  assumes "boot P env redis_connect parsed listen n r = Inr app"
  obtains loaded config key facilitator verdict n1 sstore limiter r1 where
    "config_load (pf_crypto P) env parsed = Inr loaded"
    "config = (case listen of None \<Rightarrow> loaded | Some addr \<Rightarrow> loaded\<lparr>listen_addr := addr\<rparr>)"
    "config_hmac_key (pf_crypto P) config = Inr key"
    "facilitator_new (pf_node P) (verification_mode config) (sui_grpc_url config) (pc_network (cfg_payment config)) = Inr facilitator"
    "verify_chain (pf_node P) facilitator (sui_chain config) n = (Inr verdict, n1)"
    "open_stores redis_connect config key r = (Inr (sstore, limiter), r1)"
    "app = initial_app config sstore limiter facilitator n1 r1"
  using assms unfolding boot_def Let_def by (auto split: sum.splits prod.splits)

lemma open_stores_facts:
  assumes "open_stores redis_connect config key r = (Inr (sstore, limiter), r1)"
  shows "case backend (cfg_store config) of
      StoreMemory \<Rightarrow> sstore = MemoryStore (store_new key (pt_duration_secs (cfg_paid_tier config))) \<and>
        limiter = MemoryLimiter limiter_new
    | StoreRedis \<Rightarrow> sstore = RedisStore \<lparr>rs_codec = codec_new key\<rparr> \<and> limiter = RedisLimiter"
  using assms
  by (auto simp: open_stores_def redis_session_connect_def redis_limiter_connect_def Let_def split: StoreBackend.splits)

lemma policy_for_listen [simp]: "policy_for (cfg\<lparr>listen_addr := addr\<rparr>) path policy = policy_for cfg path policy"
proof -
  have "matching_route (cfg\<lparr>listen_addr := addr\<rparr>) path = matching_route cfg path"
    "default_policy (cfg\<lparr>listen_addr := addr\<rparr>) = default_policy cfg" "policies (cfg\<lparr>listen_addr := addr\<rparr>) = policies cfg"
    by (simp_all add: matching_route_def default_policy_def)
  then show ?thesis unfolding policy_for_def by presburger
qed

lemma verify_chain_facts:
  assumes "verify_chain N F expected n = (Inr verdict, n1)" "fac_sui F \<noteq> None"
  shows "\<exists>reported. fst (fn_service_chain N n) = Inr reported \<and>
    (\<forall>c. reported = Some c \<longrightarrow> trim c = [] \<or> eq_ignore_ascii_case (trim c) (trim expected))"
  using assms by (auto simp: verify_chain_def reported_chain_def check_chain_def Let_def split: option.splits if_splits)

lemma boot_sound:
  assumes "boot P env redis_connect parsed listen n r = Inr app"
  shows "sound_policy (policy_for (ap_config app) path policy)"
proof (rule boot_cases[OF assms])
  fix loaded config key facilitator verdict n1 sstore limiter r1
  assume b: "config_load (pf_crypto P) env parsed = Inr loaded"
    "config = (case listen of None \<Rightarrow> loaded | Some addr \<Rightarrow> loaded\<lparr>listen_addr := addr\<rparr>)"
    "app = initial_app config sstore limiter facilitator n1 r1"
  have "sound_policy (policy_for loaded path policy)"
    using b(1) validated_policy_sound by (auto simp: config_load_def Let_def)
  with b(2,3) show "sound_policy (policy_for (ap_config app) path policy)"
    by (simp add: initial_app_def split: option.splits)
qed

section \<open>Properties\<close>

text \<open>C21: a service that starts is fit to serve. Its terms are usable for every path and policy; both
  state stores belong to the configured backend and begin empty, with a session key of at least
  32 bytes, the one in the configuration; the breaker is closed; the facilitator answers for the configured
  network in the configured mode; and in sui-grpc mode the fullnode was reached and did not
  report another chain than the configured one.\<close>

theorem started_service_is_fit:
  assumes "boot P env redis_connect parsed listen n r = Inr app"
  defines "cfg \<equiv> ap_config app"
  shows "sound_policy (policy_for cfg path policy) \<and> ap_breaker app = breaker_new \<and>
    fac_network (ap_facilitator app) = pc_network (cfg_payment cfg) \<and>
    fac_mode (ap_facilitator app) = verification_mode cfg \<and>
    (verification_mode cfg = SuiGrpc \<longrightarrow> (\<exists>reported. fst (fn_service_chain (pf_node P) n) = Inr reported \<and>
      (\<forall>c. reported = Some c \<longrightarrow> trim c = [] \<or> eq_ignore_ascii_case (trim c) (trim (sui_chain cfg))))) \<and>
    (\<exists>key. 32 \<le> length key \<and> hex_decode (pf_crypto P) (session_hmac_secret cfg) = Some key \<and>
      (case backend (cfg_store cfg) of
         StoreMemory \<Rightarrow> ap_sessions app = MemoryStore (store_new key (pt_duration_secs (cfg_paid_tier cfg))) \<and>
           ap_limiter app = MemoryLimiter limiter_new
       | StoreRedis \<Rightarrow> ap_sessions app = RedisStore \<lparr>rs_codec = codec_new key\<rparr> \<and> ap_limiter app = RedisLimiter))"
proof -
  from boot_cases[OF assms(1)] obtain loaded config key facilitator verdict n1 sstore limiter r1 where b:
    "config_load (pf_crypto P) env parsed = Inr loaded"
    "config = (case listen of None \<Rightarrow> loaded | Some addr \<Rightarrow> loaded\<lparr>listen_addr := addr\<rparr>)"
    "config_hmac_key (pf_crypto P) config = Inr key"
    "facilitator_new (pf_node P) (verification_mode config) (sui_grpc_url config) (pc_network (cfg_payment config)) = Inr facilitator"
    "verify_chain (pf_node P) facilitator (sui_chain config) n = (Inr verdict, n1)"
    "open_stores redis_connect config key r = (Inr (sstore, limiter), r1)"
    "app = initial_app config sstore limiter facilitator n1 r1" .
  have cfg: "cfg = config" using b(7) by (simp add: cfg_def initial_app_def)
  have sound: "sound_policy (policy_for cfg path policy)" unfolding cfg_def by (rule boot_sound[OF assms(1)])
  have key: "32 \<le> length key \<and> hex_decode (pf_crypto P) (session_hmac_secret config) = Some key"
    using b(3) by (auto simp: config_hmac_key_def MIN_HMAC_KEY_BYTES_def split: if_splits option.splits)
  note F = facilitator_new_facts[OF b(4)]
  have chain: "verification_mode config = SuiGrpc \<longrightarrow> (\<exists>reported. fst (fn_service_chain (pf_node P) n) = Inr reported \<and>
      (\<forall>c. reported = Some c \<longrightarrow> trim c = [] \<or> eq_ignore_ascii_case (trim c) (trim (sui_chain config))))"
    using verify_chain_facts[OF b(5)] F by blast
  show ?thesis
    using sound key F chain open_stores_facts[OF b(6)] unfolding cfg
    by (intro conjI exI[of _ key]) (simp_all add: b(7) initial_app_def split: StoreBackend.splits)
qed

lemma demo_boots:
  obtains app where "boot demo_platform (\<lambda>_. None) (\<lambda>url. eff_return ()) demo_config None () () = Inr app"
    "ap_config app = demo_config" "backend (cfg_store demo_config) = StoreMemory"
    "pt_duration_secs (cfg_paid_tier demo_config) = 3600"
proof -
  obtain key where key: "config_hmac_key demo_crypto demo_config = Inr key" using demo_config_key ..
  have c: "pf_crypto demo_platform = demo_crypto" "pf_node demo_platform = demo_node"
    by (simp_all add: demo_platform_def demo_wire_def)
  have d: "verification_mode demo_config = SuiGrpc" "pc_network (cfg_payment demo_config) = ''sui:testnet''"
    "sui_chain demo_config = ''testnet''" "sui_grpc_url demo_config = ''https://fullnode''"
    "backend (cfg_store demo_config) = StoreMemory" "pt_duration_secs (cfg_paid_tier demo_config) = 3600"
    by (simp_all add: demo_config_def)
  have f: "facilitator_new demo_node SuiGrpc ''https://fullnode'' ''sui:testnet'' = Inr demo_facilitator"
    by (simp add: facilitator_new_def sui_connect_def demo_node_def demo_facilitator_def)
  have "trim ''testnet'' = ''testnet''" by (intro trim_graphic) (simp add: graphic_def)
  then have v: "verify_chain demo_node demo_facilitator ''testnet'' () = (Inr Matches, ())"
    by (simp add: verify_chain_def reported_chain_def check_chain_def demo_node_def eff_bind_def eff_map_err_def
        eff_lift_def eq_ignore_ascii_case_def)
  have "boot demo_platform (\<lambda>_. None) (\<lambda>url. eff_return ()) demo_config None () () =
      Inr (initial_app demo_config (MemoryStore (store_new key 3600)) (MemoryLimiter limiter_new) demo_facilitator () ())"
    by (simp add: boot_def c demo_config_loads key d f v open_stores_def eff_return_def)
  then show ?thesis using that d by (simp add: initial_app_def)
qed

theorem started_service_is_fit_witness:
  "\<exists>reported. fst (fn_service_chain demo_node ()) = Inr reported \<and>
     (\<forall>c. reported = Some c \<longrightarrow> trim c = [] \<or> eq_ignore_ascii_case (trim c) (trim ''testnet''))"
proof -
  obtain app where b: "boot demo_platform (\<lambda>_. None) (\<lambda>url. eff_return ()) demo_config None () () = Inr app"
    "ap_config app = demo_config" by (rule demo_boots)
  have "verification_mode demo_config = SuiGrpc" "pf_node demo_platform = demo_node" "sui_chain demo_config = ''testnet''"
    by (simp_all add: demo_config_def demo_platform_def)
  with started_service_is_fit[OF b(1)] b(2) show ?thesis by simp
qed

section \<open>The service never stops\<close>

definition fit :: "('n, 'r) App \<Rightarrow> bool" where
  "fit app \<longleftrightarrow> (\<forall>path policy. sound_policy (policy_for (ap_config app) path policy))"

lemma fit_config: "ap_config app' = ap_config app \<Longrightarrow> fit app \<Longrightarrow> fit app'"
  by (simp add: fit_def)

lemma decide_fit:
  assumes "fit app"
  obtains d app' where "decide P mo headers ip path policy url settle app = Some (d, app')" "fit app'"
  using decide_total[of app path policy P mo headers ip url settle] assms fit_config unfolding fit_def by metis

lemma settle_pending_config: "settle_pending P mo ss pending app = (reply, app') \<Longrightarrow> ap_config app' = ap_config app"
  by (auto simp: settle_pending_def on_node_def mint_session_def on_sessions_config Let_def
      split: sum.splits prod.splits option.splits)

lemma response_config: "handle_response_headers P mo ss headers app = (reply, ss', app') \<Longrightarrow> ap_config app' = ap_config app"
  by (auto simp: handle_response_headers_def on_sessions_def Let_def split: option.splits if_splits prod.splits
      dest: settle_pending_config)

lemma request_fit:
  assumes "fit app"
  shows "\<exists>reply ss' app'. handle_request_headers P mo ss headers ip policy app = Some (reply, ss', app') \<and> fit app'"
proof -
  obtain st b where b: "state_at (ap_breaker app) (breaker_label policy) (at_breaker mo) = (st, b)" by fastforce
  let ?m = "header_map (pf_wire P) headers"
  obtain path where path: "(case map_of ?m '':path'' of Some p \<Rightarrow> p | None \<Rightarrow> []) = path" by blast
  have "fit (app\<lparr>ap_breaker := b\<rparr>)" using assms by (simp add: fit_def)
  from this obtain d app' where d: "decide P mo (Some ?m) ip path policy (resource_url ?m path) Deferred (app\<lparr>ap_breaker := b\<rparr>) =
      Some (d, app')" "fit app'" by (rule decide_fit)
  show ?thesis
    using d \<open>fit (app\<lparr>ap_breaker := b\<rparr>)\<close>
    unfolding handle_request_headers_def Let_def b path prod.case decider_decide_def d(1)
    by (cases d) (simp_all split: if_splits)
qed

lemma message_fit:
  assumes "fit app"
  shows "\<exists>reply ss' app'. process_message P mo message ss app = Some (reply, ss', app') \<and> fit app'"
proof (cases "pq_phase message")
  case (RequestHeaders headers)
  with request_fit[OF assms] show ?thesis by (simp add: process_message_def)
next
  case (ResponseHeaders headers)
  obtain reply ss' app' where "handle_response_headers P mo ss headers app = (reply, ss', app')"
    by (cases "handle_response_headers P mo ss headers app")
  with ResponseHeaders response_config[OF this] assms show ?thesis by (simp add: process_message_def fit_config)
next
  case OtherPhase
  with assms show ?thesis by (simp add: process_message_def)
qed

lemma router_config: "ap_config (snd (router hv P call app)) = ap_config app"
  by (cases call)
    (auto simp: api_verify_def api_settle_def api_claim_def api_release_def on_node_def on_sessions_def Let_def
      split: sum.splits prod.splits option.splits PaymentClaim.splits)

lemma service_step_fit:
  assumes "fit (sv_app s)"
  shows "\<exists>s'. service_step hv P e s = Some s' \<and> fit (sv_app s')"
proof (cases e)
  case (AuthzCheck mo request)
  have "\<exists>resp app'. check P mo request (sv_app s) = Some (resp, app') \<and> fit app'"
    unfolding check_def Let_def by (rule decide_fit[OF assms]) auto
  with AuthzCheck show ?thesis by (auto simp: service_step_def)
next
  case (StreamMessage i mo message)
  with message_fit[OF assms, of P mo message "sv_streams s i"] show ?thesis by (auto simp: service_step_def)
next
  case (ApiRequest call)
  with assms show ?thesis by (auto simp: service_step_def intro: fit_config[OF router_config])
qed (use assms in \<open>auto simp: service_step_def cleanup_tick_def fit_def split: prod.splits\<close>)

text \<open>C13: a service that started keeps serving. No sequence of requests, stream messages, broken
  streams, API calls and cleanup ticks, at whatever times and with whatever answers of the node and
  of Redis, makes a handler panic: every event is handled and every request gets its reply.\<close>

theorem started_service_keeps_serving:
  assumes "boot P env redis_connect parsed listen n r = Inr app"
  shows "\<exists>service. serve_all hv P events (started app) = Some service \<and>
    (\<forall>e. \<exists>service'. service_step hv P e service = Some service')"
proof -
  have "\<exists>s'. serve_all hv P events s = Some s' \<and> fit (sv_app s')" if "fit (sv_app s)" for s
    using that
  proof (induction events arbitrary: s)
    case (Cons e es)
    obtain s1 where "service_step hv P e s = Some s1" "fit (sv_app s1)" using service_step_fit[OF Cons.prems] by blast
    with Cons.IH show ?case by simp
  qed simp
  moreover have "fit app" using boot_sound[OF assms] by (simp add: fit_def)
  ultimately show ?thesis using service_step_fit by (metis started_def service.select_convs(1))
qed

theorem started_service_keeps_serving_witness:
  "\<exists>app service. serve_all (\<lambda>_. True) demo_platform [StreamMessage 0 demo_moments \<lparr>pq_attributes = [], pq_phase = RequestHeaders None\<rparr>]
     (started app) = Some service"
proof -
  obtain app where b: "boot demo_platform (\<lambda>_. None) (\<lambda>url. eff_return ()) demo_config None () () = Inr app"
    by (rule demo_boots)
  from started_service_keeps_serving[OF b] show ?thesis by blast
qed

text \<open>C37: short sessions reopen payments. The service sweeps its replay cache with the default session
  duration as horizon, not the lifetime of a claim. If sessions last less than a payment is to be
  remembered, then after a cleanup tick a transaction that was claimed is accepted as fresh,
  although without the tick the same presentation, at the same time, is refused as a replay.\<close>

theorem short_sessions_reopen_payments:
  assumes "boot P env redis_connect parsed listen n r = Inr app" "backend (cfg_store (ap_config app)) = StoreMemory"
    and "on_sessions (store_claim_payment R pid ttl t) app = (claim, app1)"
    and "pt_duration_secs (cfg_paid_tier (ap_config app)) \<le> sat_sub now t" "sat_sub now t < ttl"
  shows "claim = Fresh \<and> fst (on_sessions (store_claim_payment R pid ttl now) app1) = PaymentClaim.Replay t \<and>
    fst (on_sessions (store_claim_payment R pid ttl now) (snd (cleanup_tick now now' app1))) = Fresh"
proof -
  obtain key where s: "ap_sessions app = MemoryStore (store_new key (pt_duration_secs (cfg_paid_tier (ap_config app))))"
  proof (rule boot_cases[OF assms(1)])
    fix loaded config key facilitator verdict n1 sstore limiter r1
    assume "open_stores redis_connect config key r = (Inr (sstore, limiter), r1)"
      "app = initial_app config sstore limiter facilitator n1 r1"
    with open_stores_facts[OF this(1)] assms(2) that show thesis by (simp add: initial_app_def)
  qed
  with assms(3) have c: "claim = Fresh" "ap_sessions app1 = MemoryStore ((store_new key (pt_duration_secs (cfg_paid_tier (ap_config app))))
      \<lparr>seen_payments := [pid \<mapsto> t]\<rparr>)"
    by (auto simp: on_sessions_def claim_payment_at_def store_new_def)
  with assms(4,5) show ?thesis
    by (auto simp: on_sessions_def claim_payment_at_def cleanup_tick_def cleanup_expired_at_def retain_def store_new_def
        Let_def not_le not_less split: prod.splits)
qed

theorem short_sessions_reopen_payments_witness:
  "\<exists>app1 :: (unit, unit) App. fst (on_sessions (store_claim_payment demo_redis ''id'' 6000 5000) app1) = PaymentClaim.Replay 1000 \<and>
    fst (on_sessions (store_claim_payment demo_redis ''id'' 6000 5000) (snd (cleanup_tick 5000 5000 app1))) = Fresh"
proof -
  obtain app where b: "boot demo_platform (\<lambda>_. None) (\<lambda>url. eff_return ()) demo_config None () () = Inr app"
    "ap_config app = demo_config" "backend (cfg_store demo_config) = StoreMemory"
    "pt_duration_secs (cfg_paid_tier demo_config) = 3600" by (rule demo_boots)
  obtain claim app1 where c: "on_sessions (store_claim_payment demo_redis ''id'' 6000 1000) app = (claim, app1)"
    by (cases "on_sessions (store_claim_payment demo_redis ''id'' 6000 1000) app")
  have "sat_sub 5000 1000 = (4000 :: u64)" by (simp add: sat_sub_def)
  with short_sessions_reopen_payments[OF b(1) _ c, of 5000 5000] b(2-4) show ?thesis by auto
qed

end
