(* ===== verification/Spending.thy ===== *)
theory Spending
  imports Service
begin

text \<open>
  One payment across the whole service: the replay cache is shared by the ext_authz check, every
  ext_proc stream and the facilitator API, so the same signed transaction is settled at most once
  whichever surfaces it is presented on.

  What the argument needs of the stores is the locale \<open>claim_cache\<close>: \<open>held\<close> says whether a claim
  holds a payment, and each operation moves it only as its answer tells. \<open>settlements\<close> counts the
  accepted executions recorded by the node, \<open>awaited\<close> the settlements a stream still owes. Each
  handler \<open>moves\<close> these three in one of three ways; the invariant is that settled and owed
  settlements together never exceed the one claim. The in-process store interprets the locale
  here, the Redis store in theory \<open>Fleet\<close>.
\<close>

section \<open>Claims and settlements\<close>

text \<open>Settlements of a payment: execute calls of the bytes with that hash that the node accepted.\<close>

fun settles :: "wire \<Rightarrow> string \<Rightarrow> node_call \<Rightarrow> bool" where
  "settles W pid (ExecuteCall tx sg resp) \<longleftrightarrow> hex_encode (hashing W) (sha256 W tx) = pid \<and> executed_ok resp"
| "settles W pid _ \<longleftrightarrow> False"

definition settlements :: "wire \<Rightarrow> string \<Rightarrow> ('n \<times> node_call list, 'r) App \<Rightarrow> nat" where
  "settlements W pid app = length (filter (settles W pid) (snd (ap_node app)))"

text \<open>The part of the service state that the claims live in.\<close>

definition cache_of :: "('n, 'r) App \<Rightarrow> SessionStore \<times> 'r" where
  "cache_of app = (ap_sessions app, ap_redis app)"

lemma settles_execute: "settles W pid c \<Longrightarrow> is_execute c"
  by (cases c) auto

lemma filter_settles_reads: "\<forall>c \<in> set calls. \<not> is_execute c \<Longrightarrow> filter (settles W pid) calls = []"
  by (auto simp: filter_empty_conv dest: settles_execute)

lemma verify_settlements:
  assumes "on_node (facilitator_verify (logged N) W F payload req) app = (r, app')"
  shows "settlements W pid app' = settlements W pid app" "cache_of app' = cache_of app"
proof -
  obtain n where v: "facilitator_verify (logged N) W F payload req (ap_node app) = (r, n)" "app' = app\<lparr>ap_node := n\<rparr>"
    using assms by (auto simp: on_node_def split: prod.splits)
  with reads_only_facilitator_verify[of N W F payload req]
  obtain calls where "snd n = snd (ap_node app) @ calls" "\<forall>c \<in> set calls. \<not> is_execute c"
    unfolding reads_only_def by blast
  with v(2) show "settlements W pid app' = settlements W pid app" "cache_of app' = cache_of app"
    by (simp_all add: settlements_def filter_settles_reads cache_of_def)
qed

lemma settle_settlements:
  assumes "on_node (facilitator_settle (logged N) W F payload req) app = (r, app')"
  shows "settlements W pid app' \<le> settlements W pid app + (if payment_id W payload = Some pid \<and> (\<exists>sr. r = Inr sr) then 1 else 0)"
    "cache_of app' = cache_of app"
proof -
  obtain n where s: "facilitator_settle (logged N) W F payload req (ap_node app) = (r, n)" and a: "app' = app\<lparr>ap_node := n\<rparr>"
    using assms by (auto simp: on_node_def split: prod.splits)
  from a show "cache_of app' = cache_of app" by (simp add: cache_of_def)
  from facilitator_settle_cases[OF s] show "settlements W pid app' \<le> settlements W pid app +
      (if payment_id W payload = Some pid \<and> (\<exists>sr. r = Inr sr) then 1 else 0)"
  proof (elim disjE exE conjE)
    fix calls assume "snd n = snd (ap_node app) @ calls" "\<forall>c \<in> set calls. \<not> is_execute c"
    with a show ?thesis by (simp add: settlements_def filter_settles_reads)
  next
    fix sui vp tx sg checks resp
    assume terms: "check_terms W F payload req = Inr sui" and checks: "passing_checks N W sui req vp tx sg checks"
      and n: "snd n = snd (ap_node app) @ checks @ [ExecuteCall tx sg resp]" "executed_ok resp \<longrightarrow> (\<exists>sr. r = Inr sr)"
    from checks obtain sgb where "sui_decode W sui = Inr (tx, sgb)" unfolding passing_checks_def by blast
    with terms have "payment_id W payload = Some (hex_encode (hashing W) (sha256 W tx))"
      by (auto simp: check_terms_ok_iff intro: payment_id_of_decoded)
    moreover have "filter (settles W pid) checks = []" using passing_checks_reads[OF checks] by (rule filter_settles_reads)
    ultimately show ?thesis using a n by (auto simp: settlements_def)
  qed
qed

text \<open>
  How a handler moves a payment: it leaves the claim and spends nothing more than it had in hand,
  or it makes a claim that was not there and gains one settlement at most, made or still
  waiting, or it gives up a waiting settlement together with the claim.
\<close>

definition moves :: "bool \<Rightarrow> nat \<Rightarrow> bool \<Rightarrow> nat \<Rightarrow> bool" where
  "moves h n h' n' \<longleftrightarrow> h' = h \<and> n' \<le> n \<or> \<not> h \<and> h' \<and> n' \<le> n + 1 \<or> \<not> h' \<and> n' + 1 \<le> n"

lemma moves_keeps: "h \<longrightarrow> h' \<Longrightarrow> n' \<le> n \<Longrightarrow> moves h n h' n'"
  by (cases h'; cases h) (simp_all add: moves_def)

lemma moves_claims: "\<not> h \<Longrightarrow> h' \<Longrightarrow> n' \<le> n + 1 \<Longrightarrow> moves h n h' n'"
  by (simp add: moves_def)

lemma moves_frees: "n' + 1 \<le> n \<Longrightarrow> moves h n h' n'"
  by (cases h'; cases h) (simp_all add: moves_def)

lemma moves_nothing: "\<not> h \<Longrightarrow> n' \<le> n \<Longrightarrow> moves h n h' n'"
  by (cases h') (simp_all add: moves_def)

lemma moves_after: "h \<longrightarrow> h1 \<Longrightarrow> moves h1 n h' n' \<Longrightarrow> moves h n h' n'"
  by (cases h; cases h1; cases h') (auto simp: moves_def)

definition awaited :: "string \<Rightarrow> PendingPayment option \<Rightarrow> nat" where
  "awaited pid pending = (case pending of None \<Rightarrow> 0 | Some p \<Rightarrow> if pn_payment_id p = Some pid then 1 else 0)"

fun decided_pending :: "Decision \<Rightarrow> PendingPayment option" where
  "decided_pending (Allow tier payer token settlement pending meter) = pending"
| "decided_pending (Deny challenge receipt meter) = None"

definition keyed :: "wire \<Rightarrow> PendingPayment option \<Rightarrow> bool" where
  "keyed W pending \<longleftrightarrow> (\<forall>p. pending = Some p \<longrightarrow> pn_payment_id p = payment_id W (pn_payload p))"

lemma awaited_le [simp]: "awaited pid pending \<le> 1"
  by (simp add: awaited_def split: option.splits)

lemma awaited_None [simp]: "awaited pid None = 0"
  by (simp add: awaited_def)

lemma keyed_None [simp]: "keyed W None"
  by (simp add: keyed_def)

lemma replay_ttl_at_least: "300 \<le> replay_ttl w"
  by (simp add: replay_ttl_def)

lemma verify_deferred_moves:
  assumes "verify_deferred P tm payload app = (d, app')" "pf_node P = logged N" "W = pf_wire P"
  shows "cache_of app' = cache_of app" "settlements W pid app' = settlements W pid app"
    "awaited pid (decided_pending d) \<le> (if payment_id W payload = Some pid then 1 else 0)" "keyed W (decided_pending d)"
proof -
  obtain r app1 where v: "on_node (facilitator_verify (logged N) W (ap_facilitator app) payload (tm_requirements tm)) app = (r, app1)"
    by fastforce
  with assms have d: "app' = app1" "decided_pending d = (case r of Inl e \<Rightarrow> None | Inr payer \<Rightarrow>
      Some \<lparr>pn_payload = payload, pn_requirements = tm_requirements tm, pn_payment_id = payment_id W payload\<rparr>)"
    by (auto simp: verify_deferred_def payment_rejected_def split: sum.splits)
  from verify_settlements[OF v] d show "cache_of app' = cache_of app" "settlements W pid app' = settlements W pid app"
    "awaited pid (decided_pending d) \<le> (if payment_id W payload = Some pid then 1 else 0)" "keyed W (decided_pending d)"
    by (auto simp: awaited_def keyed_def split: sum.splits)
qed

section \<open>The cache of claims\<close>

text \<open>
  Nothing is given back: \<open>during\<close> is the period of observation, which only ends, and while it
  lasts a store that \<open>remembers\<close> keeps what it holds.
\<close>

definition keeps_claims ::
  "('c \<Rightarrow> bool) \<Rightarrow> ('c \<Rightarrow> bool) \<Rightarrow> (string \<Rightarrow> 'c \<Rightarrow> bool) \<Rightarrow> 'c \<Rightarrow> 'c \<Rightarrow> bool" where
  "keeps_claims remembers during held st st' \<longleftrightarrow>
     (during st' \<longrightarrow> during st \<and> (remembers st \<longrightarrow> remembers st' \<and> (\<forall>i. held i st \<longrightarrow> held i st')))"

lemma keeps_claims_refl [simp]: "keeps_claims remembers during held st st"
  by (simp add: keeps_claims_def)

text \<open>The readings of the clock that a step makes of the replay cache.\<close>

fun cache_times :: "event \<Rightarrow> u64 list" where
  "cache_times (AuthzCheck mo request) = [at_claim mo]"
| "cache_times (StreamMessage i mo message) = [at_claim mo]"
| "cache_times (StreamClosed i) = []"
| "cache_times (ApiRequest (PostSettle now request)) = [now]"
| "cache_times (ApiRequest call) = []"
| "cache_times (CleanupTick now now') = [now]"

locale claim_cache =
  fixes R :: "'r redis"
    and remembers :: "SessionStore \<times> 'r \<Rightarrow> bool"
    and during :: "SessionStore \<times> 'r \<Rightarrow> bool"
    and held :: "string \<Rightarrow> SessionStore \<times> 'r \<Rightarrow> bool"
    and timely :: "u64 \<Rightarrow> bool"
  assumes claim_keeps: "store_claim_payment R i ttl now st = (c, st') \<Longrightarrow> timely now \<Longrightarrow> 300 \<le> ttl \<Longrightarrow>
      keeps_claims remembers during held st st'"
    and claim_holds: "store_claim_payment R i ttl now st = (Fresh, st') \<Longrightarrow> timely now \<Longrightarrow> 300 \<le> ttl \<Longrightarrow>
      during st' \<Longrightarrow> remembers st \<Longrightarrow> \<not> held i st \<and> held i st'"
    and release_frees: "during (store_release_payment R i st) \<Longrightarrow> during st \<and> (remembers st \<longrightarrow>
        remembers (store_release_payment R i st) \<and>
        (\<forall>j. j \<noteq> i \<longrightarrow> held j st \<longrightarrow> held j (store_release_payment R i st)))"
    and consume_keeps: "store_consume C R token policy now st = (oc, st') \<Longrightarrow> keeps_claims remembers during held st st'"
    and create_keeps: "store_create_session C R raw payer policy quota t now st = (res, st') \<Longrightarrow>
        keeps_claims remembers during held st st'"
    and check_keeps: "limiter_check R label ip m w now (l, r) = Some (a, l', r') \<Longrightarrow>
        keeps_claims remembers during held (s, r) (s, r')"
    and cleanup_keeps: "store_cleanup_expired now s = (n, s') \<Longrightarrow> timely now \<Longrightarrow>
        keeps_claims remembers during held (s, r) (s', r)"
begin

text \<open>What a handler does to one payment, from a state with \<open>w\<close> settlements owed to one with \<open>w'\<close>.\<close>

definition goes ::
  "wire \<Rightarrow> string \<Rightarrow> ('n \<times> node_call list, 'r) App \<Rightarrow> nat \<Rightarrow> ('n \<times> node_call list, 'r) App \<Rightarrow> nat \<Rightarrow> bool" where
  "goes W pid app w app' w' \<longleftrightarrow>
     (during (cache_of app') \<longrightarrow> during (cache_of app) \<and> (remembers (cache_of app) \<longrightarrow>
        remembers (cache_of app') \<and>
        moves (held pid (cache_of app)) (settlements W pid app + w) (held pid (cache_of app')) (settlements W pid app' + w')))"

abbreviation quiet :: "('n, 'r) App \<Rightarrow> ('n, 'r) App \<Rightarrow> bool" where
  "quiet app app' \<equiv> keeps_claims remembers during held (cache_of app) (cache_of app')"

text \<open>A payment is claimed: \<open>g\<close> says whether it is the one that is observed, and was granted.\<close>

definition claimed :: "bool \<Rightarrow> string \<Rightarrow> ('n, 'r) App \<Rightarrow> ('n, 'r) App \<Rightarrow> bool" where
  "claimed g pid app app' \<longleftrightarrow> quiet app app' \<and>
     (g \<and> during (cache_of app') \<and> remembers (cache_of app) \<longrightarrow>
        \<not> held pid (cache_of app) \<and> held pid (cache_of app'))"

lemma quiet_trans: "quiet app app1 \<Longrightarrow> quiet app1 app' \<Longrightarrow> quiet app app'"
  by (simp add: keeps_claims_def)

lemma quiet_same: "cache_of app' = cache_of app \<Longrightarrow> quiet app app'"
  by simp

lemma quiet_goes:
  "quiet app app' \<Longrightarrow> settlements W pid app' + w' \<le> settlements W pid app + w \<Longrightarrow> goes W pid app w app' w'"
  by (simp add: goes_def keeps_claims_def moves_keeps)

lemma goes_with: "goes W pid app 0 app' 0 \<Longrightarrow> goes W pid app w app' w"
  by (auto simp: goes_def moves_def)

lemma goes_drop: "goes W pid app 0 app' w' \<Longrightarrow> goes W pid app w app' w'"
  by (auto simp: goes_def moves_def)

lemma goes_refl: "goes W pid app w app w"
  by (simp add: quiet_goes)

lemma quiet_then_goes:
  assumes "quiet app app1" "settlements W pid app1 = settlements W pid app" "goes W pid app1 w app' w'"
  shows "goes W pid app w app' w'"
  using assms moves_after by (simp add: goes_def keeps_claims_def) blast

lemma claimed_goes:
  assumes "claimed g pid app app1" "quiet app1 app'"
    "settlements W pid app' + w' \<le> settlements W pid app + w + (if g then 1 else 0)"
  shows "goes W pid app w app' w'"
proof (cases g)
  case True
  with assms show ?thesis by (simp add: goes_def claimed_def keeps_claims_def moves_claims)
next
  case False
  with assms show ?thesis by (simp add: goes_def claimed_def keeps_claims_def moves_keeps)
qed

text \<open>A payment is given up together with what was owed for it.\<close>

definition freed :: "string option \<Rightarrow> ('n, 'r) App \<Rightarrow> ('n, 'r) App \<Rightarrow> bool" where
  "freed p app app' \<longleftrightarrow> (during (cache_of app') \<longrightarrow> during (cache_of app) \<and> (remembers (cache_of app) \<longrightarrow>
     remembers (cache_of app') \<and> (\<forall>j. p \<noteq> Some j \<longrightarrow> held j (cache_of app) \<longrightarrow> held j (cache_of app'))))"

lemma freed_goes:
  assumes "freed p app app'" "settlements W pid app' + w' + (if p = Some pid then 1 else 0) \<le> settlements W pid app + w"
  shows "goes W pid app w app' w'"
proof (cases "p = Some pid")
  case True
  with assms show ?thesis by (simp add: goes_def freed_def moves_frees)
next
  case False
  with assms show ?thesis by (simp add: goes_def freed_def moves_keeps)
qed

lemma claimed_freed_goes:
  assumes "claimed (p = Some pid) pid app app1" "freed p app1 app'" "settlements W pid app' + w' \<le> settlements W pid app + w"
  shows "goes W pid app w app' w'"
proof (cases "p = Some pid")
  case True
  with assms show ?thesis by (simp add: goes_def claimed_def freed_def keeps_claims_def moves_nothing)
next
  case False
  with assms show ?thesis by (simp add: goes_def claimed_def freed_def keeps_claims_def moves_keeps)
qed

lemma freed_release:
  assumes "pf_redis P = R" "app' = snd (on_sessions (\<lambda>s. ((), store_release_payment (pf_redis P) i s)) app)"
  shows "freed (Some i) app app'" "ap_node app' = ap_node app"
proof -
  have st: "cache_of app' = store_release_payment R i (cache_of app)"
    using assms by (simp add: on_sessions_def cache_of_def split: prod.splits)
  show "freed (Some i) app app'" unfolding freed_def st using release_frees[of i "cache_of app"] by simp
  show "ap_node app' = ap_node app" using assms by (simp add: on_sessions_def split: prod.splits)
qed

lemma freed_none: "freed None app app"
  by (simp add: freed_def)

section \<open>The stages\<close>

lemma session_stage_quiet:
  assumes "pf_redis P = R" "session_stage P mo token policy app = (d, app')"
  shows "quiet app app'"
  using assms(2) by (auto simp: session_stage_def on_sessions_def cache_of_def assms(1)
      split: option.splits prod.splits SessionOutcome.splits dest: consume_keeps)

lemma mint_session_quiet:
  assumes "pf_redis P = R" "mint_session P mo policy tier payer app = (token, app')"
  shows "quiet app app'"
  using assms(2) by (auto simp: mint_session_def on_sessions_def cache_of_def Let_def assms(1)
      split: option.splits prod.splits dest: create_keeps)

lemma free_stage_quiet:
  assumes "pf_redis P = R" "free_stage P mo tm ip app = Some (d, app')"
  shows "quiet app app'" "decided_pending d = None"
  using assms(2) by (auto simp: free_stage_def cache_of_def Let_def assms(1)
      split: option.splits if_splits dest: check_keeps)

lemma claim_call:
  assumes "on_sessions (store_claim_payment R i ttl now) app = (c, app')" "timely now" "300 \<le> ttl"
  shows "claimed (i = pid \<and> c = Fresh) pid app app'" "ap_node app' = ap_node app"
proof -
  obtain st' where st: "store_claim_payment R i ttl now (cache_of app) = (c, st')" "cache_of app' = st'"
    "ap_node app' = ap_node app"
    using assms(1) by (auto simp: on_sessions_def cache_of_def split: prod.splits)
  have "during st' \<Longrightarrow> remembers (cache_of app) \<Longrightarrow> \<not> held pid (cache_of app) \<and> held pid st'" if "i = pid" "c = Fresh"
    using claim_holds[OF st(1)[unfolded that(2)] assms(2,3)] that(1) by simp
  then show "claimed (i = pid \<and> c = Fresh) pid app app'" unfolding claimed_def
    using claim_keeps[OF st(1) assms(2,3)] st(2) by blast
  show "ap_node app' = ap_node app" by (rule st(3))
qed

lemma claim_stage_claimed:
  assumes "pf_redis P = R" "claim_stage P mo tm payload app = (e, app')" "timely (at_claim mo)"
  shows "claimed (e = None \<and> payment_id (pf_wire P) payload = Some pid) pid app app'"
    "settlements W pid app' = settlements W pid app"
proof -
  show "settlements W pid app' = settlements W pid app" using claim_stage_node[OF assms(2)] by (simp add: settlements_def)
  show "claimed (e = None \<and> payment_id (pf_wire P) payload = Some pid) pid app app'"
  proof (cases "payment_id (pf_wire P) payload")
    case None
    with assms(2) show ?thesis by (simp add: claim_stage_def claimed_def)
  next
    case (Some i)
    with assms(1,2) obtain c where c: "on_sessions (store_claim_payment R i
        (replay_ttl (pr_max_timeout_seconds (tm_requirements tm))) (at_claim mo)) app = (c, app')" "(e = None) = (c = Fresh)"
      by (auto simp: claim_stage_def Let_def split: prod.splits)
    from claim_call(1)[OF c(1) assms(3) replay_ttl_at_least, where pid = pid] c(2) Some show ?thesis by (simp add: conj_commute)
  qed
qed

lemma settle_immediate_quiet:
  assumes "pf_redis P = R" "settle_immediate P mo tm policy payload app = (d, app')" "pf_node P = logged N" "W = pf_wire P"
  shows "quiet app app'" "decided_pending d = None"
    "settlements W pid app' \<le> settlements W pid app + (if payment_id W payload = Some pid then 1 else 0)"
proof -
  obtain r app1 where v: "on_node (facilitator_settle (logged N) W (ap_facilitator app) payload (tm_requirements tm)) app = (r, app1)"
    by fastforce
  note s = settle_settlements[OF v]
  have "app' = app1 \<or> (\<exists>tier payer token. mint_session P mo policy tier payer app1 = (token, app'))" and d: "decided_pending d = None"
    using assms v by (auto simp: settle_immediate_def verify_and_settle_def payment_rejected_def Let_def split: sum.splits prod.splits)
  then have q: "quiet app1 app'" and n: "ap_node app' = ap_node app1"
    by (auto dest: mint_session_quiet[OF assms(1)] mint_session_node)
  show "quiet app app'" using q s(2) by simp
  show "decided_pending d = None" by (rule d)
  show "settlements W pid app' \<le> settlements W pid app + (if payment_id W payload = Some pid then 1 else 0)"
    using s(1)[of pid] n by (simp add: settlements_def split: if_splits)
qed

lemma payment_stage_goes:
  assumes "pf_redis P = R" "payment_stage P mo tm policy settle decoded app = (d, app')" "pf_node P = logged N" "W = pf_wire P"
    "timely (at_claim mo)"
  shows "keyed W (decided_pending d)" "goes W pid app 0 app' (awaited pid (decided_pending d))"
proof -
  have "keyed W (decided_pending d) \<and> goes W pid app 0 app' (awaited pid (decided_pending d))"
  proof (cases decoded)
    case (Inl e)
    with assms show ?thesis by (auto simp: payment_stage_def goes_refl)
  next
    case (Inr payload)
    obtain e app1 where c: "claim_stage P mo tm payload app = (e, app1)" by fastforce
    note claim = claim_stage_claimed[OF assms(1) c assms(5)]
    show ?thesis
    proof (cases e)
      case (Some e')
      with c Inr assms(2,4) claim show ?thesis
        by (auto simp: payment_stage_def payment_rejected_def claimed_def intro!: quiet_goes)
    next
      case None
      have "quiet app1 app' \<and> keyed W (decided_pending d) \<and>
        settlements W pid app' + awaited pid (decided_pending d) \<le>
          settlements W pid app1 + (if payment_id W payload = Some pid then 1 else 0)"
      proof (cases settle)
        case Deferred
        with assms(2) c Inr None have v: "verify_deferred P tm payload app1 = (d, app')" by (simp add: payment_stage_def)
        from verify_deferred_moves[OF v assms(3,4)] show ?thesis by simp
      next
        case Immediate
        with assms(2) c Inr None have v: "settle_immediate P mo tm policy payload app1 = (d, app')"
          by (simp add: payment_stage_def)
        from settle_immediate_quiet[OF assms(1) v assms(3,4)] show ?thesis by simp
      qed
      with claimed_goes[OF claim(1)] claim(2) None assms(4) show ?thesis by simp
    qed
  qed
  then show "keyed W (decided_pending d)" "goes W pid app 0 app' (awaited pid (decided_pending d))" by simp_all
qed

lemma decide_goes:
  assumes "pf_redis P = R" "decide P mo headers ip path policy url settle app = Some (d, app')" "pf_node P = logged N"
    "W = pf_wire P" "timely (at_claim mo)"
  shows "keyed W (decided_pending d) \<and> goes W pid app 0 app' (awaited pid (decided_pending d))"
proof -
  obtain served app1 where s: "session_stage P mo (presented_token (pf_wire P) headers) policy app = (served, app1)"
    by fastforce
  have q: "quiet app app1" "settlements W pid app1 = settlements W pid app"
    using session_stage_quiet[OF assms(1) s] session_stage_node[OF s] by (simp_all add: settlements_def)
  show ?thesis
  proof (cases served)
    case (Some d')
    with s assms(2) q session_stage_served[OF s[unfolded Some]] show ?thesis by (auto simp: decide_eq intro: quiet_goes)
  next
    case none: None
    show ?thesis
    proof (cases "presented (pf_wire P) headers")
      case (Some decoded)
      with s none assms(2) have "payment_stage P mo (resolve_terms (ap_config app) path policy url) policy settle decoded app1 = (d, app')"
        by (simp add: decide_eq)
      from payment_stage_goes[OF assms(1) this assms(3-5)] quiet_then_goes[OF q] show ?thesis by blast
    next
      case None
      with s none assms(2) have "free_stage P mo (resolve_terms (ap_config app) path policy url) ip app1 = Some (d, app')"
        by (simp add: decide_eq)
      from free_stage_quiet[OF assms(1) this] free_stage_node[OF this] q quiet_trans[OF q(1)] show ?thesis
        by (auto simp: settlements_def intro: quiet_goes)
    qed
  qed
qed

section \<open>The surfaces\<close>

lemma check_goes:
  assumes "pf_redis P = R" "check P mo request app = Some (resp, app')" "pf_node P = logged N" "W = pf_wire P"
    "timely (at_claim mo)"
  shows "goes W pid app 0 app' 0"
proof -
  from assms(2) obtain headers ip path policy url d where
    "decide P mo headers ip path policy url Immediate app = Some (d, app')"
    by (auto simp: check_def Let_def)
  from decide_goes[OF assms(1) this assms(3-5), where pid = pid] show ?thesis by (auto simp: goes_def moves_def)
qed

lemma api_claim_claimed:
  assumes "pf_redis P = R" "api_claim P now request app = (e, app')" "timely now"
  shows "claimed (e = None \<and> payment_id (pf_wire P) (fr_payment_payload request) = Some pid) pid app app'"
    "settlements W pid app' = settlements W pid app"
proof -
  let ?id = "payment_id (pf_wire P) (fr_payment_payload request)"
  have "claimed (e = None \<and> ?id = Some pid) pid app app' \<and> ap_node app' = ap_node app"
  proof (cases ?id)
    case None
    with assms(2) show ?thesis by (simp add: api_claim_def claimed_def)
  next
    case (Some i)
    with assms(1,2) obtain c where c: "on_sessions (store_claim_payment R i
        (replay_ttl (pr_max_timeout_seconds (fr_payment_requirements request))) now) app = (c, app')" "(e = None) = (c = Fresh)"
      by (auto simp: api_claim_def Let_def split: prod.splits PaymentClaim.splits)
    from claim_call(1)[OF c(1) assms(3) replay_ttl_at_least, where pid = pid]
      claim_call(2)[OF c(1) assms(3) replay_ttl_at_least] c(2) Some show ?thesis by (simp add: conj_commute)
  qed
  then show "claimed (e = None \<and> ?id = Some pid) pid app app'" "settlements W pid app' = settlements W pid app"
    by (simp_all add: settlements_def)
qed

lemma api_release_freed:
  assumes "pf_redis P = R" "app' = api_release P request app"
  shows "freed (payment_id (pf_wire P) (fr_payment_payload request)) app app'" "ap_node app' = ap_node app"
proof -
  let ?id = "payment_id (pf_wire P) (fr_payment_payload request)"
  have "freed ?id app app' \<and> ap_node app' = ap_node app"
  proof (cases ?id)
    case None
    with assms(2) show ?thesis by (simp add: api_release_def freed_none)
  next
    case (Some i)
    with assms(2) have "app' = snd (on_sessions (\<lambda>s. ((), store_release_payment (pf_redis P) i s)) app)"
      by (simp add: api_release_def)
    from freed_release[OF assms(1) this] Some show ?thesis by simp
  qed
  then show "freed ?id app app'" "ap_node app' = ap_node app" by simp_all
qed

lemma freed_same: "cache_of app1 = cache_of app \<Longrightarrow> freed p app1 app' \<Longrightarrow> freed p app app'"
  by (simp add: freed_def)

lemma api_settle_goes:
  assumes "pf_redis P = R" "api_settle P now request app = (r, app')" "pf_node P = logged N" "W = pf_wire P" "timely now"
  shows "goes W pid app 0 app' 0"
proof (cases "check_version request")
  case (Inl bad)
  with assms show ?thesis by (simp add: api_settle_def goes_refl)
next
  case (Inr u)
  let ?id = "payment_id W (fr_payment_payload request)"
  obtain e app1 where c: "api_claim P now request app = (e, app1)" by fastforce
  note claim = api_claim_claimed[OF assms(1) c assms(5), where pid = pid, folded assms(4)]
  show ?thesis
  proof (cases e)
    case (Some e')
    with c Inr assms(2) claim show ?thesis by (auto simp: api_settle_def claimed_def intro: quiet_goes)
  next
    case None
    obtain res app2 where f: "on_node (facilitator_settle (logged N) W (ap_facilitator app1) (fr_payment_payload request)
        (fr_payment_requirements request)) app1 = (res, app2)" by fastforce
    note s = settle_settlements(1)[OF f, of pid] settle_settlements(2)[OF f]
    show ?thesis
    proof (cases res)
      case (Inr receipt)
      with assms None c f \<open>check_version request = Inr u\<close> have "app' = app2" by (simp add: api_settle_def)
      with s claim None show ?thesis by (intro claimed_goes[OF claim(1)]) (auto split: if_splits)
    next
      case (Inl err)
      with assms None c f \<open>check_version request = Inr u\<close> have a: "app' = api_release P request app2"
        by (simp add: api_settle_def)
      note free = api_release_freed[OF assms(1) a, folded assms(4)]
      from claim(1) None have "claimed (?id = Some pid) pid app app1" by simp
      then show ?thesis using freed_same[OF s(2) free(1)] free(2) s(1) claim(2) Inl
        by (intro claimed_freed_goes) (auto simp: settlements_def)
    qed
  qed
qed

lemma router_goes:
  assumes "pf_redis P = R" "pf_node P = logged N" "W = pf_wire P" "\<forall>now request. call = PostSettle now request \<longrightarrow> timely now"
  shows "goes W pid app 0 (snd (router hv P call app)) 0"
proof (cases call)
  case (PostSettle now request)
  obtain r app1 where s: "api_settle P now request app = (r, app1)" by fastforce
  with api_settle_goes[OF assms(1) s assms(2,3), where pid = pid] PostSettle assms(4) show ?thesis by (cases r) auto
next
  case (PostVerify request)
  obtain res app1 where f: "on_node (facilitator_verify (logged N) W (ap_facilitator app) (fr_payment_payload request)
      (fr_payment_requirements request)) app = (res, app1)" by fastforce
  have "snd (router hv P call app) = app \<or> snd (router hv P call app) = app1"
    using PostVerify f assms(2,3) by (auto simp: api_verify_def split: sum.splits)
  then show ?thesis
    using verify_settlements(1)[OF f, of pid] verify_settlements(2)[OF f] by (auto intro: quiet_goes goes_refl)
qed (simp_all add: goes_refl)

lemma settle_pending_quiet:
  assumes "pf_redis P = R" "settle_pending P mo ss pending app = (reply, app')" "pf_node P = logged N" "W = pf_wire P"
    "keyed W (Some pending)"
  shows "quiet app app'" "settlements W pid app' \<le> settlements W pid app + awaited pid (Some pending)"
proof -
  obtain r app1 where f: "on_node (facilitator_settle (logged N) W (ap_facilitator app) (pn_payload pending)
      (pn_requirements pending)) app = (r, app1)" by fastforce
  note s = settle_settlements(1)[OF f, of pid] settle_settlements(2)[OF f]
  have "quiet app1 app' \<and> ap_node app' = ap_node app1"
  proof (cases r)
    case (Inl e)
    with assms(2-4) f have "app' = app1\<lparr>ap_breaker := record_failure (ap_breaker app1) (breaker_label (ss_policy ss)) (at_breaker mo)\<rparr>"
      by (simp add: settle_pending_def Let_def)
    then show ?thesis by (simp add: cache_of_def)
  next
    case (Inr settlement)
    let ?app2 = "app1\<lparr>ap_breaker := record_success (ap_breaker app1) (breaker_label (ss_policy ss)) (at_breaker mo)\<rparr>"
    from assms(2-4) f Inr obtain tier token where m: "mint_session P mo (ss_policy ss) tier (sr_payer settlement) ?app2 = (token, app')"
      by (auto simp: settle_pending_def Let_def split: prod.splits)
    from mint_session_quiet[OF assms(1) m] mint_session_node[OF m] show ?thesis by (simp add: cache_of_def)
  qed
  with s assms(5) show "quiet app app'" "settlements W pid app' \<le> settlements W pid app + awaited pid (Some pending)"
    by (auto simp: awaited_def keyed_def settlements_def split: if_splits)
qed

lemma response_goes:
  assumes "pf_redis P = R" "handle_response_headers P mo ss headers app = (reply, ss', app')" "pf_node P = logged N"
    "W = pf_wire P" "keyed W (ss_pending ss)"
  shows "keyed W (ss_pending ss') \<and> goes W pid app (awaited pid (ss_pending ss)) app' (awaited pid (ss_pending ss'))"
proof (cases "ss_pending ss")
  case None
  with assms show ?thesis by (simp add: handle_response_headers_def goes_refl)
next
  case (Some pending)
  let ?ok = "is_success (case map_of (header_map (pf_wire P) headers) '':status'' of Some s \<Rightarrow> s | None \<Rightarrow> [])"
  have ss: "ss_pending ss' = None"
    using assms(2) Some by (auto simp: handle_response_headers_def Let_def split: if_splits prod.splits)
  show ?thesis
  proof (cases ?ok)
    case True
    with assms(2) Some have "settle_pending P mo ss pending app = (reply, app')"
      by (auto simp: handle_response_headers_def Let_def split: prod.splits)
    from settle_pending_quiet[OF assms(1) this assms(3,4)] assms(5) Some ss show ?thesis by (simp add: quiet_goes)
  next
    case False
    have "freed (pn_payment_id pending) app app' \<and> ap_node app' = ap_node app"
    proof (cases "pn_payment_id pending")
      case none: None
      with assms(2) False Some show ?thesis by (auto simp: handle_response_headers_def Let_def freed_none)
    next
      case (Some i)
      with assms(2) False \<open>ss_pending ss = Some pending\<close>
      have "app' = snd (on_sessions (\<lambda>s. ((), store_release_payment (pf_redis P) i s)) app)"
        by (auto simp: handle_response_headers_def Let_def)
      from freed_release[OF assms(1) this] Some show ?thesis by simp
    qed
    then have "goes W pid app (awaited pid (ss_pending ss)) app' 0"
      using Some by (intro freed_goes[where p = "pn_payment_id pending"]) (auto simp: settlements_def awaited_def)
    with ss show ?thesis by simp
  qed
qed

lemma request_goes:
  assumes "pf_redis P = R" "handle_request_headers P mo ss headers ip policy app = Some (reply, ss', app')"
    "pf_node P = logged N" "W = pf_wire P" "timely (at_claim mo)" "keyed W (ss_pending ss)"
  shows "keyed W (ss_pending ss') \<and> goes W pid app (awaited pid (ss_pending ss)) app' (awaited pid (ss_pending ss'))"
proof -
  obtain st b where b: "state_at (ap_breaker app) (breaker_label policy) (at_breaker mo) = (st, b)" by fastforce
  let ?app1 = "app\<lparr>ap_breaker := b\<rparr>"
  have same: "goes W pid ?app1 = goes W pid app" by (simp add: goes_def cache_of_def settlements_def fun_eq_iff)
  have "app' = ?app1 \<and> ss' = ss \<or> (\<exists>view path url d. decide P mo view ip path policy url Deferred ?app1 = Some (d, app') \<and>
      (ss_pending ss' = decided_pending d \<or> decided_pending d = None \<and> ss' = ss))"
  proof -
    let ?m = "header_map (pf_wire P) headers"
    obtain path where path: "(case map_of ?m '':path'' of Some p \<Rightarrow> p | None \<Rightarrow> []) = path" by blast
    note def = handle_request_headers_def[of P mo ss headers ip policy app, unfolded Let_def b path prod.case decider_decide_def]
    show ?thesis
    proof (cases "\<not> accepts_payment st \<and> header_get (Some ?m) HEADER_PAYMENT_SIGNATURE \<noteq> None")
      case True
      with assms(2) def show ?thesis by simp
    next
      case False
      note served = assms(2)[unfolded def if_not_P[OF False]]
      show ?thesis
      proof (cases "decide P mo (Some ?m) ip path policy (resource_url ?m path) Deferred ?app1")
        case (Some x)
        obtain d a where x: "x = (d, a)" by (cases x)
        with served Some have "a = app' \<and> (ss_pending ss' = decided_pending d \<or> decided_pending d = None \<and> ss' = ss)"
          by (cases d) auto
        with x Some show ?thesis by blast
      qed (use served in simp)
    qed
  qed
  then show ?thesis
  proof (elim disjE exE conjE)
    fix view path url d
    assume d: "decide P mo view ip path policy url Deferred ?app1 = Some (d, app')"
      and "ss_pending ss' = decided_pending d"
    with decide_goes[OF assms(1) d assms(3-5), where pid = pid] show ?thesis by (simp add: same goes_drop)
  next
    fix view path url d
    assume d: "decide P mo view ip path policy url Deferred ?app1 = Some (d, app')" and "decided_pending d = None" "ss' = ss"
    with decide_goes[OF assms(1) d assms(3-5), where pid = pid] assms(6) show ?thesis by (simp add: same goes_with)
  next
    assume "app' = ?app1" "ss' = ss"
    with goes_refl[of W pid ?app1] assms(6) show ?thesis by (simp only: same)
  qed
qed

lemma message_goes:
  assumes "pf_redis P = R" "process_message P mo message ss app = Some (reply, ss', app')" "pf_node P = logged N"
    "W = pf_wire P" "timely (at_claim mo)" "keyed W (ss_pending ss)"
  shows "keyed W (ss_pending ss') \<and> goes W pid app (awaited pid (ss_pending ss)) app' (awaited pid (ss_pending ss'))"
proof (cases "pq_phase message")
  case (RequestHeaders headers)
  with assms(2) have "handle_request_headers P mo ss headers (client_ip_from_attributes (pq_attributes message))
      (policy_from_attributes (pq_attributes message)) app = Some (reply, ss', app')" by (simp add: process_message_def)
  from request_goes[OF assms(1) this assms(3-6)] show ?thesis .
next
  case (ResponseHeaders headers)
  with assms(2) have "handle_response_headers P mo ss headers app = (reply, ss', app')" by (simp add: process_message_def)
  from response_goes[OF assms(1) this assms(3,4,6)] show ?thesis .
next
  case OtherPhase
  with assms show ?thesis by (simp add: process_message_def goes_refl)
qed

lemma cleanup_goes: "timely now \<Longrightarrow> goes W pid app 0 (snd (cleanup_tick now now' app)) 0"
  by (rule quiet_goes) (auto simp: cleanup_tick_def cache_of_def settlements_def split: prod.splits dest: cleanup_keeps)

text \<open>One step of the service concerns one stream at most.\<close>

lemma service_step_goes:
  assumes "pf_redis P = R" "service_step hv P e s = Some s'" "pf_node P = logged N" "W = pf_wire P"
    "\<forall>t \<in> set (cache_times e). timely t" "\<forall>i. keyed W (ss_pending (sv_streams s i))"
  shows "\<exists>i. (\<forall>j. j \<noteq> i \<longrightarrow> sv_streams s' j = sv_streams s j) \<and> keyed W (ss_pending (sv_streams s' i)) \<and>
    goes W pid (sv_app s) (awaited pid (ss_pending (sv_streams s i))) (sv_app s') (awaited pid (ss_pending (sv_streams s' i)))"
    (is "\<exists>i. ?only i")
proof -
  have idle: "\<exists>i. ?only i" if "sv_streams s' = sv_streams s" "goes W pid (sv_app s) 0 (sv_app s') 0"
    using that assms(6) by (simp add: goes_with)
  show ?thesis
  proof (cases e)
    case (AuthzCheck mo request)
    with assms(2) obtain resp app' where c: "check P mo request (sv_app s) = Some (resp, app')" "s' = s\<lparr>sv_app := app'\<rparr>"
      by (auto simp: service_step_def)
    with check_goes[OF assms(1) c(1) assms(3,4)] AuthzCheck assms(5) show ?thesis by (intro idle) simp_all
  next
    case (StreamMessage i mo message)
    with assms(2) obtain reply ss' app' where m: "process_message P mo message (sv_streams s i) (sv_app s) = Some (reply, ss', app')"
      "s' = s\<lparr>sv_app := app', sv_streams := (sv_streams s)(i := ss')\<rparr>"
      by (auto simp: service_step_def)
    with message_goes[OF assms(1) m(1) assms(3,4)] StreamMessage assms(5,6) show ?thesis by (intro exI[of _ i]) simp
  next
    case (StreamClosed i)
    with assms(2) have "s' = s\<lparr>sv_streams := (sv_streams s)(i := stream_default)\<rparr>" by (simp add: service_step_def)
    then show ?thesis by (intro exI[of _ i]) (simp add: stream_default_def goes_drop goes_refl)
  next
    case (ApiRequest call)
    then have "\<forall>now request. call = PostSettle now request \<longrightarrow> timely now" using assms(5) by auto
    from router_goes[OF assms(1,3,4) this] assms(2) ApiRequest show ?thesis by (intro idle) (auto simp: service_step_def)
  next
    case (CleanupTick now now')
    with cleanup_goes[of now] assms(2,5) show ?thesis by (intro idle) (auto simp: service_step_def)
  qed
qed

end

section \<open>The invariant\<close>

definition owed :: "string \<Rightarrow> ('i \<Rightarrow> StreamState) \<Rightarrow> 'i set" where
  "owed pid streams = {i. awaited pid (ss_pending (streams i)) = 1}"

lemma owed_upd:
  "finite (owed pid streams) \<Longrightarrow> finite (owed pid (streams(i := ss))) \<and>
   card (owed pid (streams(i := ss))) + awaited pid (ss_pending (streams i)) =
   card (owed pid streams) + awaited pid (ss_pending ss)"
proof -
  assume fin: "finite (owed pid streams)"
  let ?rest = "owed pid streams - {i}"
  have zero: "awaited pid p \<noteq> 1 \<Longrightarrow> awaited pid p = 0" for p using awaited_le[of pid p] by linarith
  have new: "owed pid (streams(i := ss)) = (if awaited pid (ss_pending ss) = 1 then insert i ?rest else ?rest)"
    by (auto simp: owed_def)
  have "card (insert i ?rest) = card ?rest + 1" using fin card_insert_disjoint[of ?rest i] by simp
  with new have "card (owed pid (streams(i := ss))) = card ?rest + awaited pid (ss_pending ss)"
    by (metis add_0_right zero)
  moreover have "card (owed pid streams) = card ?rest + awaited pid (ss_pending (streams i))"
  proof (cases "i \<in> owed pid streams")
    case True
    have "card (owed pid streams) = card ?rest + 1" using card.remove[OF fin True] by simp
    with True show ?thesis by (simp add: owed_def)
  next
    case False
    with zero[of "ss_pending (streams i)"] show ?thesis by (simp add: owed_def)
  qed
  ultimately show ?thesis using fin new by simp
qed

lemma moves_keep:
  assumes "moves h (n + w) h' (n' + w')" "n + c \<le> (if h then 1 else 0)" "c' + w = c + w'" "w \<le> c"
  shows "n' + c' \<le> (if h' then 1 else (0::nat))"
  using assms by (auto simp: moves_def split: if_splits)

lemma awaited_owed: "finite (owed pid streams) \<Longrightarrow> awaited pid (ss_pending (streams i)) \<le> card (owed pid streams)"
proof (cases "i \<in> owed pid streams")
  case True
  moreover assume "finite (owed pid streams)"
  ultimately have "card (owed pid streams) \<noteq> 0" by auto
  then show ?thesis using awaited_le[of pid "ss_pending (streams i)"] by linarith
next
  case False
  then show ?thesis using awaited_le[of pid "ss_pending (streams i)"] by (simp add: owed_def)
qed

context claim_cache
begin

text \<open>
  \<open>streams\<close> are all the streams that settle payments held in this cache: those of one process, or
  those of every replica.
\<close>

definition single_spend :: "wire \<Rightarrow> string \<Rightarrow> ('n \<times> node_call list, 'r) App \<Rightarrow> ('i \<Rightarrow> StreamState) \<Rightarrow> bool" where
  "single_spend W pid app streams \<longleftrightarrow>
     (\<forall>i. keyed W (ss_pending (streams i))) \<and> finite (owed pid streams) \<and>
     (during (cache_of app) \<longrightarrow> remembers (cache_of app) \<and>
        settlements W pid app + card (owed pid streams) \<le> (if held pid (cache_of app) then 1 else 0))"

lemma single_spend_goes:
  assumes "single_spend W pid app streams" "keyed W (ss_pending ss)"
    "goes W pid app (awaited pid (ss_pending (streams i))) app' (awaited pid (ss_pending ss))"
  shows "single_spend W pid app' (streams(i := ss))"
proof -
  have fin: "finite (owed pid streams)" using assms(1) by (simp add: single_spend_def)
  note upd = owed_upd[OF fin, of i ss]
  have "remembers (cache_of app') \<and>
      settlements W pid app' + card (owed pid (streams(i := ss))) \<le> (if held pid (cache_of app') then 1 else 0)"
    if "during (cache_of app')"
  proof -
    have inv: "remembers (cache_of app)"
      "settlements W pid app + card (owed pid streams) \<le> (if held pid (cache_of app) then 1 else 0)"
      using assms(1,3) that by (simp_all add: single_spend_def goes_def)
    with assms(3) that have m: "remembers (cache_of app')" "moves (held pid (cache_of app))
        (settlements W pid app + awaited pid (ss_pending (streams i))) (held pid (cache_of app'))
        (settlements W pid app' + awaited pid (ss_pending ss))" by (simp_all add: goes_def)
    from m(1) moves_keep[OF m(2) inv(2) conjunct2[OF upd] awaited_owed[OF fin]] show ?thesis by simp
  qed
  with assms(1,2) upd show ?thesis by (auto simp: single_spend_def)
qed

lemma single_spend_start:
  assumes "during (cache_of app) \<Longrightarrow> remembers (cache_of app)" "snd (ap_node app) = []" "\<forall>i. ss_pending (streams i) = None"
  shows "single_spend W pid app streams"
  using assms by (simp add: single_spend_def settlements_def owed_def)

lemma single_spend_count:
  "single_spend W pid app streams \<Longrightarrow> during (cache_of app) \<Longrightarrow>
   length (filter (settles W pid) (snd (ap_node app))) \<le> 1"
  by (auto simp: single_spend_def settlements_def split: if_splits)

lemma serve_all_single_spend:
  assumes "pf_redis P = R" "pf_node P = logged N" "W = pf_wire P"
  shows "serve_all hv P es s = Some s' \<Longrightarrow> \<forall>e \<in> set es. \<forall>t \<in> set (cache_times e). timely t \<Longrightarrow>
    single_spend W pid (sv_app s) (sv_streams s) \<Longrightarrow> single_spend W pid (sv_app s') (sv_streams s')"
proof (induction es arbitrary: s)
  case (Cons e es)
  then obtain s1 where s1: "service_step hv P e s = Some s1" "serve_all hv P es s1 = Some s'"
    by (auto split: option.splits)
  have "\<forall>i. keyed W (ss_pending (sv_streams s i))" using Cons.prems(3) by (simp add: single_spend_def)
  from service_step_goes[OF assms(1) s1(1) assms(2,3) _ this, of pid] Cons.prems(2)
  obtain i where i: "\<forall>j. j \<noteq> i \<longrightarrow> sv_streams s1 j = sv_streams s j" "keyed W (ss_pending (sv_streams s1 i))"
    "goes W pid (sv_app s) (awaited pid (ss_pending (sv_streams s i))) (sv_app s1) (awaited pid (ss_pending (sv_streams s1 i)))"
    by auto
  have "sv_streams s1 = (sv_streams s)(i := sv_streams s1 i)" using i(1) by auto
  with single_spend_goes[OF Cons.prems(3) i(2,3)] have "single_spend W pid (sv_app s1) (sv_streams s1)" by simp
  with Cons s1(2) show ?case by simp
qed simp

end

section \<open>The in-process store\<close>

text \<open>
  A period of 300 seconds from \<open>t0\<close>, the shortest time for which the replay cache remembers any
  payment.
\<close>

definition in_period :: "u64 \<Rightarrow> u64 \<Rightarrow> bool" where
  "in_period t0 t \<longleftrightarrow> t0 \<le> t \<and> sat_sub t t0 < 300"

fun memory_remembers :: "SessionStore \<times> 'r \<Rightarrow> bool" where
  "memory_remembers (MemoryStore store, r) = (300 \<le> replay_retention_secs store)"
| "memory_remembers (RedisStore store, r) = False"

fun memory_held :: "u64 \<Rightarrow> string \<Rightarrow> SessionStore \<times> 'r \<Rightarrow> bool" where
  "memory_held t0 pid (MemoryStore store, r) = (\<exists>t. seen_payments store pid = Some t \<and> in_period t0 t)"
| "memory_held t0 pid (RedisStore store, r) = False"

lemma in_period_close: "in_period t0 t \<Longrightarrow> in_period t0 n \<Longrightarrow> 300 \<le> ttl \<Longrightarrow> sat_sub n t < ttl"
  unfolding in_period_def sat_sub_def
  by (auto simp: word_less_nat_alt word_le_nat_alt unat_sub split: if_splits)

lemma memory_unclaimed:
  "seen_payments s' = seen_payments s \<Longrightarrow> replay_retention_secs s' = replay_retention_secs s \<Longrightarrow>
   keeps_claims memory_remembers (\<lambda>_. True) (memory_held t0) (MemoryStore s, r) (MemoryStore s', r')"
  by (simp add: keeps_claims_def)

lemma consume_at_claims:
  "consume_at C s token policy now = (oc, s') \<Longrightarrow>
   seen_payments s' = seen_payments s \<and> replay_retention_secs s' = replay_retention_secs s"
  by (auto simp: consume_at_def split: sum.splits option.splits if_splits prod.splits)

interpretation memory: claim_cache R memory_remembers "\<lambda>_. True" "memory_held t0" "in_period t0"
  for R :: "'r redis" and t0 :: u64
proof
  fix i :: string and ttl now :: u64 and st st' :: "SessionStore \<times> 'r" and c
  assume "store_claim_payment R i ttl now st = (c, st')" "in_period t0 now" "300 \<le> ttl"
  then show "keeps_claims memory_remembers (\<lambda>_. True) (memory_held t0) st st'"
    by (cases st rule: memory_remembers.cases)
      (auto simp: keeps_claims_def claim_payment_at_def split: option.splits if_splits prod.splits dest: in_period_close)
next
  fix i :: string and ttl now :: u64 and st st' :: "SessionStore \<times> 'r"
  assume "store_claim_payment R i ttl now st = (Fresh, st')" "in_period t0 now" "300 \<le> ttl" "memory_remembers st"
  then show "\<not> memory_held t0 i st \<and> memory_held t0 i st'"
    by (cases st rule: memory_remembers.cases)
      (auto simp: claim_payment_at_def split: option.splits if_splits prod.splits dest: in_period_close)
next
  fix i :: string and st :: "SessionStore \<times> 'r"
  show "True \<and> (memory_remembers st \<longrightarrow> memory_remembers (store_release_payment R i st) \<and>
      (\<forall>j. j \<noteq> i \<longrightarrow> memory_held t0 j st \<longrightarrow> memory_held t0 j (store_release_payment R i st)))"
    by (cases st rule: memory_remembers.cases) (auto simp: release_payment_def)
next
  fix C token policy now and st st' :: "SessionStore \<times> 'r" and oc
  assume "store_consume C R token policy now st = (oc, st')"
  then show "keeps_claims memory_remembers (\<lambda>_. True) (memory_held t0) st st'"
    by (cases st rule: memory_remembers.cases)
      (auto simp: keeps_claims_def split: prod.splits dest!: consume_at_claims)
next
  fix C raw payer policy quota t now and st st' :: "SessionStore \<times> 'r" and res
  assume "store_create_session C R raw payer policy quota t now st = (res, st')"
  then show "keeps_claims memory_remembers (\<lambda>_. True) (memory_held t0) st st'"
    by (cases st rule: memory_remembers.cases)
      (auto simp: keeps_claims_def create_session_at_def Let_def split: prod.splits)
next
  fix label ip m w now l and r r' :: 'r and a l' s
  show "keeps_claims memory_remembers (\<lambda>_. True) (memory_held t0) (s, r) (s, r')"
    by (cases s) (simp_all add: keeps_claims_def)
next
  fix now s n s' and r :: 'r
  assume "store_cleanup_expired now s = (n, s')" "in_period t0 now"
  then show "keeps_claims memory_remembers (\<lambda>_. True) (memory_held t0) (s, r) (s', r)"
    by (cases s) (auto simp: keeps_claims_def cleanup_expired_at_def retain_def Let_def
        split: prod.splits option.splits dest: in_period_close)
qed

section \<open>Properties\<close>

text \<open>C1: a payment is charged once in the whole service. Whatever requests reach the ext_authz check,
  any number of ext_proc streams and the facilitator API, in whatever order, with streams that
  break off and cleanup ticks in between, and whatever the node answers: during any 300 seconds
  (the clock need not even be monotonic), the node accepts at most one execution of a
  transaction. It is assumed that the in-process store is used and sweeps no claim
  younger than 300 seconds.\<close>

theorem settled_at_most_once:
  assumes "serve_all hv (P\<lparr>pf_node := logged N\<rparr>) events (started app) = Some service"
    and "ap_sessions app = MemoryStore store" "300 \<le> replay_retention_secs store" "snd (ap_node app) = []"
    and "\<forall>e \<in> set events. \<forall>t \<in> set (cache_times e). t0 \<le> t \<and> sat_sub t t0 < 300"
  shows "length (filter (settles (pf_wire P) pid) (snd (ap_node (sv_app service)))) \<le> 1"
proof -
  have r: "pf_redis (P\<lparr>pf_node := logged N\<rparr>) = pf_redis P" by simp
  have "memory.single_spend t0 (pf_wire P) pid (sv_app (started app)) (sv_streams (started app))"
    using assms(2-4) by (intro memory.single_spend_start) (simp_all add: started_def stream_default_def cache_of_def)
  from memory.serve_all_single_spend[OF r _ _ assms(1) _ this] assms(5)
  have "memory.single_spend t0 (pf_wire P) pid (sv_app service) (sv_streams service)" by (simp add: in_period_def)
  then show ?thesis by (rule memory.single_spend_count) simp
qed

text \<open>The messages of one stream as events of the service.\<close>

lemma serve_all_process:
  "process P ms ss app = Some (sent, ss', app') \<Longrightarrow> \<forall>(mo, m, delivered) \<in> set ms. delivered \<Longrightarrow>
   sv_app s = app \<Longrightarrow> sv_streams s i = ss \<Longrightarrow>
   \<exists>s'. serve_all hv P (map (\<lambda>(mo, m, delivered). StreamMessage i mo m) ms) s = Some s' \<and> sv_app s' = app'"
proof (induction ms arbitrary: ss app s sent)
  case (Cons x ms)
  obtain mo m delivered where x: "x = (mo, m, delivered)" by (cases x)
  with Cons.prems obtain reply ss1 app1 rs where
    step: "process_message P mo m ss app = Some (reply, ss1, app1)" "process P ms ss1 app1 = Some (rs, ss', app')"
    by (auto split: option.splits)
  from Cons.IH[OF step(2), of "s\<lparr>sv_app := app1, sv_streams := (sv_streams s)(i := ss1)\<rparr>"] Cons.prems x step(1)
  show ?case by (auto simp: service_step_def)
qed simp

theorem settled_at_most_once_witness:
  "length (filter (settles demo_wire (hex_enc ''tx''))
     (demo_checks @ demo_checks @ [ExecuteCall ''tx'' ''sig'' (Inr (Some demo_executed))])) \<le> 1"
proof -
  have p: "logged_platform\<lparr>pf_node := logged demo_node\<rparr> = logged_platform" "pf_wire logged_platform = demo_wire"
    by (simp_all add: logged_platform_def)
  from demo_stream obtain sent ss app' where d: "process logged_platform paid_stream stream_default logged_app = Some (sent, ss, app')"
    "snd (ap_node app') = demo_checks @ demo_checks @ [ExecuteCall ''tx'' ''sig'' (Inr (Some demo_executed))]" by blast
  let ?es = "map (\<lambda>(mo, m, delivered). StreamMessage 0 mo m) paid_stream"
  have "\<exists>s'. serve_all (\<lambda>_. True) logged_platform ?es (started logged_app) = Some s' \<and> sv_app s' = app'"
    by (rule serve_all_process[OF d(1)]) (auto simp: paid_stream_def started_def)
  then obtain s' where s: "serve_all (\<lambda>_. True) (logged_platform\<lparr>pf_node := logged demo_node\<rparr>) ?es (started logged_app) = Some s'"
    "sv_app s' = app'" using p by auto
  have a: "ap_sessions logged_app = MemoryStore demo_store" "300 \<le> replay_retention_secs demo_store" "snd (ap_node logged_app) = []"
    by (simp_all add: logged_app_def demo_store_def create_session_at_def store_new_def Let_def)
  have t: "\<forall>e \<in> set ?es. \<forall>t \<in> set (cache_times e). 1000 \<le> t \<and> sat_sub t 1000 < 300"
    by (simp add: paid_stream_def demo_moments_def sat_sub_def)
  from settled_at_most_once[OF s(1) a t, of "hex_enc ''tx''"] s(2) d(2) p(2) show ?thesis by simp
qed

end
