(* ===== verification/RedisServer.thy ===== *)
theory RedisServer
  imports RedisStores
begin

text \<open>
  The server behind the Redis stores of src/session.rs and src/ratelimit.rs. It is a service, so
  its documented behaviour is a hypothesis, \<open>redis_documented\<close>: what each command does to the keys
  when it succeeds, that a failed command changes nothing, and that between two requests time
  passes and only keys whose deadline is past disappear. The abstraction of a server state is a
  keyspace with deadlines and the server's clock. \<open>redis_serves\<close> adds that nothing fails. Then the
  frame lemmas: which keys the scripts of the source leave alone. At the end a server, computed,
  that satisfies the hypotheses.
\<close>

section \<open>The server's documented behaviour\<close>

datatype redis_value = Str string | Hash "string \<rightharpoonup> string"

record redis_data =
  rk_keys :: "string \<rightharpoonup> redis_value \<times> nat option"
  rk_clock :: nat

definition string_at :: "redis_data \<Rightarrow> string \<Rightarrow> string option option" where
  "string_at d k = (case rk_keys d k of
     None \<Rightarrow> Some None | Some (Str s, _) \<Rightarrow> Some (Some s) | Some (Hash _, _) \<Rightarrow> None)"

definition hash_at :: "redis_data \<Rightarrow> string \<Rightarrow> (string \<rightharpoonup> string) option" where
  "hash_at d k = (case rk_keys d k of
     None \<Rightarrow> Some Map.empty | Some (Str _, _) \<Rightarrow> None | Some (Hash h, _) \<Rightarrow> Some h)"

definition deadline_at :: "redis_data \<Rightarrow> string \<Rightarrow> nat option" where
  "deadline_at d k = Option.bind (rk_keys d k) snd"

definition put_key :: "string \<Rightarrow> redis_value \<Rightarrow> nat option \<Rightarrow> redis_data \<Rightarrow> redis_data" where
  "put_key k v t d = d\<lparr>rk_keys := (rk_keys d)(k \<mapsto> (v, t))\<rparr>"

definition drop_key :: "string \<Rightarrow> redis_data \<Rightarrow> redis_data" where
  "drop_key k d = d\<lparr>rk_keys := (rk_keys d)(k := None)\<rparr>"

text \<open>\<open>EXPIRE\<close>: a new deadline; a time to live that is not positive deletes the key.\<close>

definition expire_key :: "string \<Rightarrow> int \<Rightarrow> redis_data \<Rightarrow> redis_data" where
  "expire_key k t d = (case rk_keys d k of
     None \<Rightarrow> d
   | Some (v, _) \<Rightarrow> if t \<le> 0 then drop_key k d else put_key k v (Some (rk_clock d + nat t)) d)"

text \<open>The number in a counter, zero when there is none.\<close>

definition counter :: "string option \<Rightarrow> int option" where
  "counter s = (case s of None \<Rightarrow> Some 0 | Some s \<Rightarrow> parse_signed 64 s)"

text \<open>Time passes: the clock advances, and a key can go only when its deadline is past.\<close>

definition key_kept :: "string \<Rightarrow> redis_data \<Rightarrow> redis_data \<Rightarrow> bool" where
  "key_kept k d d' \<longleftrightarrow> rk_clock d \<le> rk_clock d' \<and>
     (rk_keys d' k = rk_keys d k \<or>
      rk_keys d' k = None \<and> (\<exists>t. deadline_at d k = Some t \<and> t \<le> rk_clock d'))"

definition meets ::
  "('r \<Rightarrow> redis_data) \<Rightarrow> ('r, string, 'a) eff \<Rightarrow> (redis_data \<Rightarrow> 'a \<Rightarrow> redis_data \<Rightarrow> bool) \<Rightarrow> bool" where
  "meets V c post \<longleftrightarrow>
     (\<forall>r. case c r of (Inl e, r1) \<Rightarrow> V r1 = V r | (Inr a, r1) \<Rightarrow> post (V r) a (V r1))"

definition redis_documented :: "'r redis \<Rightarrow> ('r \<Rightarrow> redis_data) \<Rightarrow> bool" where
  "redis_documented R V \<longleftrightarrow>
     (\<forall>r k. key_kept k (V r) (V (snd (rd_link R r)))) \<and>
     (\<forall>k. meets V (rd_get R k) (\<lambda>d a d'. d' = d \<and> string_at d k = Some a)) \<and>
     (\<forall>k v t. meets V (rd_set_ex R k v t) (\<lambda>d _ d'. 0 < t \<and> d' = put_key k (Str v) (Some (rk_clock d + nat t)) d)) \<and>
     (\<forall>k. meets V (rd_del R k) (\<lambda>d _ d'. d' = drop_key k d)) \<and>
     (\<forall>k. meets V (rd_incr R k) (\<lambda>d _ d'. \<exists>s i. string_at d k = Some s \<and> counter s = Some i \<and>
        d' = put_key k (Str (show_int (i + 1))) (deadline_at d k) d)) \<and>
     (\<forall>k t. meets V (rd_expire R k t) (\<lambda>d _ d'. d' = expire_key k t d)) \<and>
     (\<forall>k f. meets V (rd_hget R k f) (\<lambda>d a d'. d' = d \<and> (\<exists>h. hash_at d k = Some h \<and> a = h f))) \<and>
     (\<forall>k f v. meets V (rd_hset R k f v) (\<lambda>d _ d'. \<exists>h. hash_at d k = Some h \<and>
        d' = put_key k (Hash (h(f \<mapsto> v))) (deadline_at d k) d)) \<and>
     (\<forall>k f i. meets V (rd_hincrby R k f i) (\<lambda>d _ d'. \<exists>h n. hash_at d k = Some h \<and> counter (h f) = Some n \<and>
        d' = put_key k (Hash (h(f \<mapsto> show_int (n + i)))) (deadline_at d k) d))"

lemma meets_Inr: "meets V c post \<Longrightarrow> c r = (Inr a, r1) \<Longrightarrow> post (V r) a (V r1)"
  by (auto simp: meets_def dest!: spec[of _ r])

lemma meets_Inl: "meets V c post \<Longrightarrow> c r = (Inl e, r1) \<Longrightarrow> V r1 = V r"
  by (auto simp: meets_def dest!: spec[of _ r])

lemma redis_documentedD:
  assumes "redis_documented R V"
  shows "key_kept k (V r) (V (snd (rd_link R r)))"
    "meets V (rd_get R k) (\<lambda>d a d'. d' = d \<and> string_at d k = Some a)"
    "meets V (rd_set_ex R k v t) (\<lambda>d _ d'. 0 < t \<and> d' = put_key k (Str v) (Some (rk_clock d + nat t)) d)"
    "meets V (rd_del R k) (\<lambda>d _ d'. d' = drop_key k d)"
    "meets V (rd_incr R k) (\<lambda>d _ d'. \<exists>s i. string_at d k = Some s \<and> counter s = Some i \<and>
        d' = put_key k (Str (show_int (i + 1))) (deadline_at d k) d)"
    "meets V (rd_expire R k t) (\<lambda>d _ d'. d' = expire_key k t d)"
    "meets V (rd_hget R k f) (\<lambda>d a d'. d' = d \<and> (\<exists>h. hash_at d k = Some h \<and> a = h f))"
    "meets V (rd_hset R k f v) (\<lambda>d _ d'. \<exists>h. hash_at d k = Some h \<and>
        d' = put_key k (Hash (h(f \<mapsto> v))) (deadline_at d k) d)"
    "meets V (rd_hincrby R k f t) (\<lambda>d _ d'. \<exists>h n. hash_at d k = Some h \<and> counter (h f) = Some n \<and>
        d' = put_key k (Hash (h(f \<mapsto> show_int (n + t)))) (deadline_at d k) d)"
  using assms unfolding redis_documented_def by blast+

lemmas redis_cmd = redis_documentedD(2-9)[THEN meets_Inr]
lemmas redis_failed = redis_documentedD(2-9)[THEN meets_Inl]

section \<open>Keys a request does not write\<close>

lemmas redis_prefixes = REDIS_SESSION_PREFIX_def REDIS_REPLAY_PREFIX_def REDIS_RATELIMIT_PREFIX_def

lemma redis_key_inj [simp]: "redis_key i = redis_key j \<longleftrightarrow> i = j"
  by (simp add: redis_key_def)

lemma key_kept_refl [simp]: "key_kept k d d"
  by (simp add: key_kept_def)

lemma key_kept_trans: "key_kept k d d1 \<Longrightarrow> key_kept k d1 d2 \<Longrightarrow> key_kept k d d2"
  by (auto simp: key_kept_def deadline_at_def)

lemma put_key_simps [simp]:
  "rk_clock (put_key k v t d) = rk_clock d"
  "rk_keys (put_key k v t d) j = (if j = k then Some (v, t) else rk_keys d j)"
  "rk_clock (drop_key k d) = rk_clock d"
  "rk_keys (drop_key k d) j = (if j = k then None else rk_keys d j)"
  "rk_clock (expire_key k t' d) = rk_clock d"
  "j \<noteq> k \<Longrightarrow> rk_keys (expire_key k t' d) j = rk_keys d j"
  by (auto simp: put_key_def drop_key_def expire_key_def split: option.splits prod.splits)

text \<open>Requests that leave a key alone.\<close>

definition spares :: "('r \<Rightarrow> redis_data) \<Rightarrow> string \<Rightarrow> ('r, string, 'a) eff \<Rightarrow> bool" where
  "spares V k c \<longleftrightarrow> (\<forall>r. rk_keys (V (snd (c r))) k = rk_keys (V r) k \<and> rk_clock (V (snd (c r))) = rk_clock (V r))"

lemma spares_return [intro]: "spares V k (eff_return a)" "spares V k (eff_fail e)"
  by (simp_all add: spares_def eff_return_def eff_fail_def)

lemma spares_bind [intro]: "spares V k c \<Longrightarrow> (\<And>a. spares V k (f a)) \<Longrightarrow> spares V k (eff_bind c f)"
proof -
  assume c: "spares V k c" and f: "\<And>a. spares V k (f a)"
  show ?thesis unfolding spares_def
  proof
    fix r
    obtain x r1 where 1: "c r = (x, r1)" by fastforce
    then have "rk_keys (V r1) k = rk_keys (V r) k \<and> rk_clock (V r1) = rk_clock (V r)"
      using c by (metis snd_conv spares_def)
    with 1 f show "rk_keys (V (snd (eff_bind c f r))) k = rk_keys (V r) k \<and>
        rk_clock (V (snd (eff_bind c f r))) = rk_clock (V r)"
      by (simp add: eff_bind_def spares_def split: sum.split)
  qed
qed

lemma spares_if [intro]: "spares V k c \<Longrightarrow> spares V k d \<Longrightarrow> spares V k (if b then c else d)"
  by simp

lemma meets_spares:
  assumes "meets V c post" "\<And>d a d'. post d a d' \<Longrightarrow> rk_keys d' k = rk_keys d k \<and> rk_clock d' = rk_clock d"
  shows "spares V k c"
  unfolding spares_def
proof
  fix r
  show "rk_keys (V (snd (c r))) k = rk_keys (V r) k \<and> rk_clock (V (snd (c r))) = rk_clock (V r)"
  proof (cases "c r")
    case (Pair x r1)
    then show ?thesis using meets_Inr[OF assms(1)] meets_Inl[OF assms(1)] assms(2) by (cases x) fastforce+
  qed
qed

lemma spares_cmd:
  assumes "redis_documented R V"
  shows "spares V k (rd_get R j)" "spares V k (rd_hget R j f)"
    "k \<noteq> j \<Longrightarrow> spares V k (rd_set_ex R j v t)" "k \<noteq> j \<Longrightarrow> spares V k (rd_del R j)"
    "k \<noteq> j \<Longrightarrow> spares V k (rd_incr R j)" "k \<noteq> j \<Longrightarrow> spares V k (rd_expire R j t)"
    "k \<noteq> j \<Longrightarrow> spares V k (rd_hset R j f v)" "k \<noteq> j \<Longrightarrow> spares V k (rd_hincrby R j f t)"
  by (rule meets_spares, rule redis_documentedD[OF assms], force)+

lemma spares_pipe: "\<forall>c \<in> set cs. spares V k c \<Longrightarrow> spares V k (pipe_atomic cs)"
proof (induction cs)
  case (Cons c cs)
  show ?case unfolding spares_def
  proof
    fix r
    obtain x r1 where 1: "c r = (x, r1)" by fastforce
    obtain y r2 where 2: "pipe_atomic cs r1 = (y, r2)" by fastforce
    have "spares V k c" "spares V k (pipe_atomic cs)" using Cons by simp_all
    then have "rk_keys (V r1) k = rk_keys (V r) k \<and> rk_clock (V r1) = rk_clock (V r)"
      "rk_keys (V r2) k = rk_keys (V r1) k \<and> rk_clock (V r2) = rk_clock (V r1)"
      unfolding spares_def by (metis 1 2 snd_conv)+
    then show "rk_keys (V (snd (pipe_atomic (c # cs) r))) k = rk_keys (V r) k \<and>
        rk_clock (V (snd (pipe_atomic (c # cs) r))) = rk_clock (V r)" using 1 2 by simp
  qed
qed (simp add: spares_def)

lemma round_trip_keeps:
  assumes "redis_documented R V" "spares V k c"
  shows "key_kept k (V r) (V (snd (round_trip R c r)))"
proof -
  obtain l r1 where l: "rd_link R r = (l, r1)" by fastforce
  then have "key_kept k (V r) (V r1)" using redis_documentedD(1)[OF assms(1), of k r] by simp
  moreover have "key_kept k (V r1) (V (snd (c r1)))"
    using assms(2) by (simp add: spares_def key_kept_def)
  ultimately show ?thesis
    using l by (auto simp: round_trip_def split: redis_link.splits intro: key_kept_trans)
qed

section \<open>Integers in decimal\<close>

lemma parse_signed_minus:
  "parse_signed b (CHR ''-'' # cs) =
     (case parse_digits cs of None \<Rightarrow> None | Some v \<Rightarrow> if v \<le> 2 ^ (b - 1) then Some (- int v) else None)"
  by (simp add: parse_signed_def)

lemma parse_signed_64:
  assumes "parse_signed 64 s = Some i"
  shows "parse_signed 65 s = Some i \<and> i < 2 ^ 63"
proof (cases "s = [] \<or> hd s \<noteq> CHR ''-''")
  case True
  with assms obtain v where v: "parse_unsigned 63 s = Some v" "i = int v" by (auto simp: parse_signed_plain)
  then have "v < 2 ^ 63" by (simp add: parse_unsigned_def split: option.splits if_split_asm)
  then have "int v < 2 ^ 63" by simp
  with v True parse_unsigned_widen[OF v(1), of 64] show ?thesis by (simp add: parse_signed_plain)
next
  case False
  then obtain cs where "s = CHR ''-'' # cs" by (cases s) auto
  with assms obtain v where v: "parse_digits cs = Some v" "v \<le> 2 ^ 63" "i = - int v"
    by (simp add: parse_signed_minus split: option.splits if_split_asm)
  then have "v \<le> 2 ^ 64" by simp
  with v \<open>s = _\<close> show ?thesis by (simp add: parse_signed_minus)
qed

lemma parse_signed_show:
  assumes "0 \<le> i" "i < 2 ^ 64"
  shows "parse_signed 65 (show_int i) = Some i"
proof -
  have "nat i < 2 ^ 64" using assms by (simp add: nat_less_iff)
  moreover have "hd (show_nat (nat i)) \<noteq> CHR ''-''"
    using show_nat_is_digit[of "hd (show_nat (nat i))" "nat i"] hd_in_set[of "show_nat (nat i)"]
    by (auto simp: is_digit_def)
  ultimately show ?thesis using assms by (simp add: parse_signed_plain show_int_def parse_unsigned_show_nat)
qed

lemma parse_signed_show_u64: "parse_signed 65 (show_u64 q) = Some (int (unat q))"
  using parse_signed_show[of "int (unat q)"] uint_bounded[of q] by (simp add: show_int_def)

lemma parse_signed_show_nat: "n < 2 ^ (b - 1) \<Longrightarrow> parse_signed b (show_nat n) = Some (int n)"
  using show_nat_is_digit[of "hd (show_nat n)" n] hd_in_set[of "show_nat n"]
  by (subst parse_signed_plain) (auto simp: is_digit_def parse_unsigned_show_nat)

lemma zero_string: "parse_signed 65 ''0'' = Some 0"
  by (simp add: parse_signed_plain parse_unsigned_def parse_digits_def digits_value_def is_digit_def)

section \<open>A server that answers\<close>

text \<open>
  A server that answers: no reply is lost, no key expires, and the commands of the session store
  succeed on data of the right type.
\<close>

definition redis_serves :: "'r redis \<Rightarrow> ('r \<Rightarrow> redis_data) \<Rightarrow> bool" where
  "redis_serves R V \<longleftrightarrow> redis_documented R V \<and>
     (\<forall>r. fst (rd_link R r) = Answered \<and> V (snd (rd_link R r)) = V r) \<and>
     (\<forall>k f r. hash_at (V r) k \<noteq> None \<longrightarrow> (\<exists>a. fst (rd_hget R k f r) = Inr a)) \<and>
     (\<forall>k f v r. hash_at (V r) k \<noteq> None \<longrightarrow> fst (rd_hset R k f v r) = Inr ()) \<and>
     (\<forall>k t r. fst (rd_expire R k t r) = Inr ()) \<and>
     (\<forall>k f i r h n. hash_at (V r) k = Some h \<longrightarrow> counter (h f) = Some n \<longrightarrow> fst (rd_hincrby R k f i r) = Inr ())"

lemma serves_link:
  assumes "redis_serves R V"
  shows "\<exists>r1. round_trip R c r = c r1 \<and> V r1 = V r"
  using assms by (cases "rd_link R r") (auto simp: redis_serves_def round_trip_def dest!: spec[of _ r])

lemma serves_hget:
  assumes S: "redis_serves R V" and h: "hash_at (V r) k = Some h"
  shows "\<exists>r1. rd_hget R k f r = (Inr (h f), r1) \<and> V r1 = V r"
proof -
  have R: "redis_documented R V" using S by (simp add: redis_serves_def)
  have "\<exists>a. fst (rd_hget R k f r) = Inr a" using S h by (simp add: redis_serves_def)
  then obtain a r1 where c: "rd_hget R k f r = (Inr a, r1)" by (metis prod.collapse)
  with redis_documentedD(7)[OF R, THEN meets_Inr, OF c] h show ?thesis by auto
qed

lemma serves_hincrby:
  assumes S: "redis_serves R V" and h: "hash_at (V r) k = Some h" "counter (h f) = Some n"
  shows "\<exists>r1. rd_hincrby R k f i r = (Inr (), r1) \<and>
    V r1 = put_key k (Hash (h(f \<mapsto> show_int (n + i)))) (deadline_at (V r) k) (V r)"
proof -
  have R: "redis_documented R V" using S by (simp add: redis_serves_def)
  have "fst (rd_hincrby R k f i r) = Inr ()" using S h unfolding redis_serves_def by blast
  then obtain r1 where c: "rd_hincrby R k f i r = (Inr (), r1)" by (metis prod.collapse)
  with redis_documentedD(9)[OF R, THEN meets_Inr, OF c] h show ?thesis by auto
qed

lemma serves_hset:
  assumes S: "redis_serves R V" and h: "hash_at (V r) k = Some h"
  shows "\<exists>r1. rd_hset R k f v r = (Inr (), r1) \<and>
    V r1 = put_key k (Hash (h(f \<mapsto> v))) (deadline_at (V r) k) (V r)"
proof -
  have R: "redis_documented R V" using S by (simp add: redis_serves_def)
  have "fst (rd_hset R k f v r) = Inr ()" using S h by (simp add: redis_serves_def)
  then obtain r1 where c: "rd_hset R k f v r = (Inr (), r1)" by (metis prod.collapse)
  with redis_documentedD(8)[OF R, THEN meets_Inr, OF c] h show ?thesis by auto
qed

lemma serves_expire:
  assumes S: "redis_serves R V"
  shows "\<exists>r1. rd_expire R k t r = (Inr (), r1) \<and> V r1 = expire_key k t (V r)"
proof -
  have R: "redis_documented R V" using S by (simp add: redis_serves_def)
  have "fst (rd_expire R k t r) = Inr ()" using S by (simp add: redis_serves_def)
  then obtain r1 where c: "rd_expire R k t r = (Inr (), r1)" by (metis prod.collapse)
  with redis_documentedD(6)[OF R, THEN meets_Inr, OF c] show ?thesis by auto
qed

section \<open>A server\<close>

text \<open>A server that does what is documented, on its own data and with a clock that stands still.\<close>

definition live_redis :: "redis_data redis" where
  "live_redis = \<lparr>
     rd_link = (\<lambda>d. (Answered, d)),
     rd_get = (\<lambda>k d. case string_at d k of None \<Rightarrow> (Inl ''WRONGTYPE'', d) | Some a \<Rightarrow> (Inr a, d)),
     rd_set_ex = (\<lambda>k v t d. if 0 < t then (Inr (), put_key k (Str v) (Some (rk_clock d + nat t)) d)
       else (Inl ''invalid expire time'', d)),
     rd_del = (\<lambda>k d. (Inr (), drop_key k d)),
     rd_incr = (\<lambda>k d. case Option.bind (string_at d k) counter of None \<Rightarrow> (Inl ''not an integer'', d)
       | Some i \<Rightarrow> (Inr (), put_key k (Str (show_int (i + 1))) (deadline_at d k) d)),
     rd_expire = (\<lambda>k t d. (Inr (), expire_key k t d)),
     rd_hget = (\<lambda>k f d. case hash_at d k of None \<Rightarrow> (Inl ''WRONGTYPE'', d) | Some h \<Rightarrow> (Inr (h f), d)),
     rd_hset = (\<lambda>k f v d. case hash_at d k of None \<Rightarrow> (Inl ''WRONGTYPE'', d)
       | Some h \<Rightarrow> (Inr (), put_key k (Hash (h(f \<mapsto> v))) (deadline_at d k) d)),
     rd_hincrby = (\<lambda>k f i d. case hash_at d k of None \<Rightarrow> (Inl ''WRONGTYPE'', d)
       | Some h \<Rightarrow> (case counter (h f) of None \<Rightarrow> (Inl ''not an integer'', d)
         | Some n \<Rightarrow> (Inr (), put_key k (Hash (h(f \<mapsto> show_int (n + i)))) (deadline_at d k) d)))\<rparr>"

lemma live_redis_serves: "redis_serves live_redis id"
  unfolding redis_serves_def redis_documented_def meets_def live_redis_def
  by (auto split: option.split simp: Option.bind_eq_None_conv Option.bind_eq_Some_conv)

lemma live_redis_documented: "redis_documented live_redis id"
  using live_redis_serves by (simp add: redis_serves_def)

definition empty_redis :: redis_data where
  "empty_redis = \<lparr>rk_keys = Map.empty, rk_clock = 0\<rparr>"

text \<open>The same server, with 400 seconds between any two requests.\<close>

definition slow_redis :: "redis_data redis" where
  "slow_redis = live_redis\<lparr>rd_link := (\<lambda>d. (Answered,
     d\<lparr>rk_clock := rk_clock d + 400,
       rk_keys := (\<lambda>k. case deadline_at d k of
         Some t \<Rightarrow> if t \<le> rk_clock d + 400 then None else rk_keys d k | None \<Rightarrow> rk_keys d k)\<rparr>))\<rparr>"

lemma slow_redis_documented: "redis_documented slow_redis id"
proof -
  have "key_kept k d (snd (rd_link slow_redis d))" for k d
    by (auto simp: slow_redis_def key_kept_def split: option.split)
  then show ?thesis using live_redis_documented
    unfolding redis_documented_def by (simp add: slow_redis_def meets_def)
qed

abbreviation demo_redis_store :: RedisSessionStore where
  "demo_redis_store \<equiv> \<lparr>rs_codec = codec_new ''key''\<rparr>"

definition demo_sale :: "(string + string) \<times> redis_data" where
  "demo_sale = redis_create_session demo_crypto live_redis ''id'' demo_redis_store ''0xa1'' None 2 3600 1000 empty_redis"

end
