(* ===== verification/RedisLedger.thy ===== *)
theory RedisLedger
  imports RedisServer
begin

text \<open>
  What the Redis stores guarantee to a fleet of replicas that share one server. A run is any
  interleaving of the replicas' round trips (\<open>replica_op\<close>). The quota left of one session, the claim
  of one payment and the counter of one free-tier bucket are accounts of such runs: every
  operation keeps the account, by its script if it writes the key and by the frame lemma
  \<open>step_keeps_other_keys\<close> if it does not.
\<close>

section \<open>Runs of a fleet\<close>

text \<open>
  One round trip of one replica: an operation of a session store (each replica has its own codec)
  or a free-tier check. The replicas' requests reach the server one after the other, so a run of
  the fleet is a list of such operations, in any order.
\<close>

datatype replica_op =
    Serve RedisSessionStore store_event
  | Meter string IpAddr u64 u64 u64

definition meter_key :: "string \<Rightarrow> IpAddr \<Rightarrow> u64 \<Rightarrow> u64 \<Rightarrow> string" where
  "meter_key policy ip window_secs now =
     REDIS_RATELIMIT_PREFIX @ key_for policy ip @ '':'' @ show_u64 (window_start_of window_secs now)"

fun replica_step :: "crypto \<Rightarrow> 'r redis \<Rightarrow> 'r \<Rightarrow> replica_op \<Rightarrow> 'r" where
  "replica_step C R r (Serve s (Create raw payer policy q ttl now)) =
     snd (redis_create_session C R raw s payer policy q ttl now r)"
| "replica_step C R r (Serve s (Consume token policy now)) = snd (redis_consume C R s token policy now r)"
| "replica_step C R r (Serve s (Claim i ttl now)) = snd (redis_claim_payment R i ttl now r)"
| "replica_step C R r (Serve s (Release i)) = redis_release_payment R i r"
| "replica_step C R r (Serve s (Cleanup now)) = r"
| "replica_step C R r (Meter policy ip max_requests window_secs now) =
     (case redis_check_at R policy ip max_requests window_secs now r of None \<Rightarrow> r | Some (_, r1) \<Rightarrow> r1)"

abbreviation fleet_run :: "crypto \<Rightarrow> 'r redis \<Rightarrow> 'r \<Rightarrow> replica_op list \<Rightarrow> 'r" where
  "fleet_run C R \<equiv> foldl (replica_step C R)"

text \<open>The keys an operation may write.\<close>

fun writes_key :: "crypto \<Rightarrow> replica_op \<Rightarrow> string \<Rightarrow> bool" where
  "writes_key C (Serve s (Create raw payer policy q ttl now)) k = (k = redis_key (new_session_id C raw))"
| "writes_key C (Serve s (Consume token policy now)) k =
     (case verify C (rs_codec s) token now of Inl _ \<Rightarrow> False | Inr claims \<Rightarrow> k = redis_key (claim_session_id claims))"
| "writes_key C (Serve s (Claim i ttl now)) k = (k = REDIS_REPLAY_PREFIX @ i)"
| "writes_key C (Serve s (Release i)) k = (k = REDIS_REPLAY_PREFIX @ i)"
| "writes_key C (Serve s (Cleanup now)) k = False"
| "writes_key C (Meter policy ip max_requests window_secs now) k = (k = meter_key policy ip window_secs now)"

lemma key_families_disjoint [simp]:
  "redis_key i \<noteq> REDIS_REPLAY_PREFIX @ j" "redis_key i \<noteq> meter_key p a w t"
  "REDIS_REPLAY_PREFIX @ j \<noteq> redis_key i" "REDIS_REPLAY_PREFIX @ j \<noteq> meter_key p a w t"
  "meter_key p a w t \<noteq> redis_key i" "meter_key p a w t \<noteq> REDIS_REPLAY_PREFIX @ j"
  by (simp_all add: redis_key_def meter_key_def redis_prefixes)

lemma spares_scripts:
  assumes "redis_documented R V"
  shows "k \<noteq> j \<Longrightarrow> spares V k (CLAIM_SCRIPT R j now ttl)"
    "k \<noteq> j \<Longrightarrow> spares V k (SPEND_SCRIPT R j policy)"
    "k \<noteq> j \<Longrightarrow> spares V k (CHECK_SCRIPT R j p limit w carry)"
  unfolding CLAIM_SCRIPT_def SPEND_SCRIPT_def CHECK_SCRIPT_def
  by (auto intro!: spares_bind spares_cmd[OF assms] spares_return simp: Let_def split: option.split)

lemma spares_create:
  assumes "redis_documented R V" "k \<noteq> j"
  shows "spares V k (pipe_atomic [rd_hset R j f1 v1, rd_hset R j f2 v2, rd_hset R j f3 v3, rd_hset R j f4 v4,
    rd_expire R j t])"
  by (rule spares_pipe) (use assms(2) in \<open>auto intro: spares_cmd[OF assms(1)]\<close>)

lemma snd_eff_bind_return: "snd (eff_bind c (\<lambda>a. eff_return (f a)) r) = snd (c r)"
  by (simp add: eff_bind_def eff_return_def split: prod.split sum.split)

lemma snd_redis_ops:
  "snd (redis_claim_payment R i ttl now r) =
     snd (round_trip R (CLAIM_SCRIPT R (REDIS_REPLAY_PREFIX @ i) (show_u64 now) (uint ttl)) r)"
  "verify C (rs_codec s) token now = Inr claims \<Longrightarrow>
   snd (redis_consume C R s token policy now r) =
     snd (round_trip R (SPEND_SCRIPT R (redis_key (claim_session_id claims)) (case policy of None \<Rightarrow> [] | Some p \<Rightarrow> p)) r)"
  by (auto simp: redis_claim_payment_def redis_consume_def split: prod.splits sum.splits option.splits)

lemma redis_check_at_script:
  assumes "w \<noteq> 0"
  obtains j c al where
    "redis_check_at R p a m w now r = Some (al, snd (round_trip R (CHECK_SCRIPT R (meter_key p a w now) j m (w * 2) c) r))"
    "allowed al \<Longrightarrow> \<exists>rem. fst (round_trip R (CHECK_SCRIPT R (meter_key p a w now) j m (w * 2) c) r) = Inr (1, rem)"
proof -
  let ?s = "window_start_of w now"
  let ?j = "REDIS_RATELIMIT_PREFIX @ key_for p a @ '':'' @ show_u64 (sat_sub ?s w)"
  let ?c = "f64_div (f64_of_u64 (w - (now - ?s))) (f64_of_u64 w)"
  obtain x r1 where "round_trip R (CHECK_SCRIPT R (meter_key p a w now) ?j m (w * 2) ?c) r = (x, r1)" by fastforce
  moreover from this have "\<exists>al. redis_check_at R p a m w now r = Some (al, r1) \<and> (allowed al \<longrightarrow> (\<exists>rem. x = Inr (1, rem)))"
    using assms by (cases x) (auto simp: redis_check_at_def meter_key_def Let_def split: sum.split)
  ultimately show ?thesis using that[of _ ?j ?c] by auto
qed

lemma step_keeps_other_keys:
  assumes R: "redis_documented R V" and k: "\<not> writes_key C op k"
  shows "key_kept k (V r) (V (replica_step C R r op))"
proof (cases op)
  case (Serve s e)
  show ?thesis
  proof (cases e)
    case (Create raw payer policy q ttl now)
    with Serve k show ?thesis
      by (simp add: redis_create_session_def Let_def snd_eff_bind_return del: pipe_atomic.simps)
        (intro round_trip_keeps[OF R] spares_create[OF R])
  next
    case (Consume token policy now)
    show ?thesis
    proof (cases "verify C (rs_codec s) token now")
      case (Inl e)
      then show ?thesis using Serve Consume by (simp add: redis_consume_def)
    next
      case (Inr claims)
      then show ?thesis using Serve Consume k
        by (simp add: snd_redis_ops) (intro round_trip_keeps[OF R] spares_scripts[OF R])
    qed
  next
    case (Claim i ttl now)
    with Serve k show ?thesis
      by (simp add: snd_redis_ops) (intro round_trip_keeps[OF R] spares_scripts[OF R])
  next
    case (Release i)
    with Serve k show ?thesis
      by (simp add: redis_release_payment_def) (intro round_trip_keeps[OF R] spares_cmd[OF R])
  qed (use Serve in simp)
next
  case (Meter p a m w now)
  show ?thesis
  proof (cases "redis_check_at R p a m w now r")
    case (Some x)
    then have "w \<noteq> 0" by (auto simp: redis_check_at_def)
    then obtain j c al where "redis_check_at R p a m w now r =
        Some (al, snd (round_trip R (CHECK_SCRIPT R (meter_key p a w now) j m (w * 2) c) r))"
      by (rule redis_check_at_script)
    then show ?thesis using Meter k by (simp add: round_trip_keeps[OF R spares_scripts(3)[OF R]])
  qed (use Meter in simp)
qed

section \<open>The account of one session\<close>

text \<open>What the server still holds for a session.\<close>

definition sold_left :: "string \<Rightarrow> redis_data \<Rightarrow> nat" where
  "sold_left sid d =
     (case Option.bind (hash_at d (redis_key sid)) (\<lambda>h. Option.bind (h ''quota'') (parse_signed 65)) of
        None \<Rightarrow> 0 | Some i \<Rightarrow> nat i)"

fun redis_spends :: "crypto \<Rightarrow> 'r redis \<Rightarrow> string \<Rightarrow> 'r \<Rightarrow> replica_op \<Rightarrow> bool" where
  "redis_spends C R sid r (Serve s (Consume token policy now)) =
     (case (fst (redis_consume C R s token policy now r), verify C (rs_codec s) token now) of
        (Accepted _ _ _ _, Inr claims) \<Rightarrow> claim_session_id claims = sid
      | _ \<Rightarrow> False)"
| "redis_spends C R sid r _ = False"

fun redis_grants :: "crypto \<Rightarrow> 'r redis \<Rightarrow> string \<Rightarrow> 'r \<Rightarrow> replica_op list \<Rightarrow> nat" where
  "redis_grants C R sid r [] = 0"
| "redis_grants C R sid r (op # ops) =
     (if redis_spends C R sid r op then 1 else 0) + redis_grants C R sid (replica_step C R r op) ops"

fun sells :: "crypto \<Rightarrow> string \<Rightarrow> replica_op \<Rightarrow> bool" where
  "sells C sid (Serve s e) = creates C sid e"
| "sells C sid _ = False"

lemma sold_left_kept: "key_kept (redis_key sid) d d' \<Longrightarrow> sold_left sid d' \<le> sold_left sid d"
  by (auto simp: key_kept_def sold_left_def hash_at_def)

lemma rnd_pos_iff: "0 < rnd (of_int i) \<longleftrightarrow> 0 < i"
proof
  assume "0 < i"
  then have "rnd (of_nat 1) \<le> rnd (of_int i)" by (intro rnd_mono) simp
  then show "0 < rnd (of_int i)" using rnd_of_nat[of 1] by simp
next
  show "0 < rnd (of_int i) \<Longrightarrow> 0 < i" by (cases "0 < i") (simp_all add: rnd_def)
qed

text \<open>Whether a reply of the script stands for a spent request.\<close>

definition took_one :: "string + int \<times> string \<times> int \<Rightarrow> nat" where
  "took_one x = (case x of Inl _ \<Rightarrow> 0 | Inr (n, _, _) \<Rightarrow> if n \<in> {- 1, - 2, - 3} then 0 else 1)"

lemma took_one_Inl [simp]: "took_one (Inl e) = 0"
  by (simp add: took_one_def)

lemma took_one_le: "took_one x \<le> 1"
  by (simp add: took_one_def split: sum.split prod.split)

text \<open>
  The script either leaves the data alone, and then its reply is an error or a sentinel, or
  it takes one from the positive quota it found.
\<close>

lemma spend_script_effect:
  assumes R: "redis_documented R V" and s: "SPEND_SCRIPT R k p r = (x, r1)"
  shows "V r1 = V r \<and> took_one x = 0 \<or>
    (\<exists>h q i. hash_at (V r) k = Some h \<and> h ''quota'' = Some q \<and> parse_signed 64 q = Some i \<and> 0 < i \<and>
       V r1 = put_key k (Hash (h(''quota'' \<mapsto> show_int (i - 1)))) (deadline_at (V r) k) (V r))"
proof -
  have get: "V r' = V r0 \<and> (\<forall>v. a = Inr v \<longrightarrow> (\<exists>h. hash_at (V r0) k = Some h \<and> v = h f))"
    if "rd_hget R k f r0 = (a, r')" for f r0 a r'
  proof (cases a)
    case (Inl e)
    with that redis_documentedD(7)[OF R, THEN meets_Inl] show ?thesis by simp
  next
    case (Inr v)
    with that redis_documentedD(7)[OF R, THEN meets_Inr, of k f r0 v r'] show ?thesis by simp
  qed
  obtain x1 s1 where c1: "rd_hget R k ''payer'' r = (x1, s1)" by fastforce
  obtain x2 s2 where c2: "rd_hget R k ''policy'' s1 = (x2, s2)" by fastforce
  obtain x3 s3 where c3: "rd_hget R k ''quota'' s2 = (x3, s3)" by fastforce
  obtain x4 s4 where c4: "rd_hincrby R k ''quota'' (- 1) s3 = (x4, s4)" by fastforce
  obtain x5 s5 where c5: "rd_hget R k ''granted'' s4 = (x5, s5)" by fastforce
  have V: "V s1 = V r" "V s2 = V r" "V s3 = V r" "V s5 = V s4"
    using get[OF c1] get[OF c2] get[OF c3] get[OF c5] by simp_all
  show ?thesis
  proof (cases "V r1 = V r \<and> took_one x = 0")
    case False
    have "\<exists>q i. x3 = Inr (Some q) \<and> parse_signed 65 q = Some i \<and> 0 < rnd (of_int i) \<and> (r1 = s4 \<or> r1 = s5) \<and>
        (\<forall>e. x4 = Inl e \<longrightarrow> r1 = s4 \<and> x = Inl e)"
      using s False V c1 c2 c3 c4 c5 unfolding SPEND_SCRIPT_def eff_bind_def
      by (auto simp: took_one_def lua_tonumber_def not_le Option.bind_eq_Some_conv split: sum.splits option.splits if_splits)
    then obtain q i where q: "x3 = Inr (Some q)" "parse_signed 65 q = Some i" "0 < i" "V r1 = V s4"
      "\<forall>e. x4 = Inl e \<longrightarrow> x = Inl e" using V by (auto simp: rnd_pos_iff)
    from q(1) get[OF c3] V obtain h where h: "hash_at (V r) k = Some h" "h ''quota'' = Some q" by auto
    show ?thesis
    proof (cases x4)
      case (Inl e)
      with redis_documentedD(9)[OF R, THEN meets_Inl] c4 V q False show ?thesis by simp
    next
      case (Inr u)
      with redis_documentedD(9)[OF R, THEN meets_Inr] c4 V obtain h' n where
        "hash_at (V r) k = Some h'" "counter (h' ''quota'') = Some n"
        "V s4 = put_key k (Hash (h'(''quota'' \<mapsto> show_int (n - 1)))) (deadline_at (V r) k) (V r)" by fastforce
      moreover from this h q parse_signed_64[of q n] have "h' = h" "n = i" "parse_signed 64 q = Some i"
        by (auto simp: counter_def)
      ultimately show ?thesis using h q by (intro disjI2 exI[of _ h] exI[of _ q] exI[of _ i]) simp
    qed
  qed simp
qed

lemma spend_script_account:
  assumes R: "redis_documented R V" and s: "SPEND_SCRIPT R (redis_key sid) p r = (x, r1)"
  shows "took_one x + sold_left sid (V r1) \<le> sold_left sid (V r)"
  using spend_script_effect[OF R s]
proof
  assume "\<exists>h q i. hash_at (V r) (redis_key sid) = Some h \<and> h ''quota'' = Some q \<and> parse_signed 64 q = Some i \<and> 0 < i \<and>
    V r1 = put_key (redis_key sid) (Hash (h(''quota'' \<mapsto> show_int (i - 1)))) (deadline_at (V r) (redis_key sid)) (V r)"
  then obtain h q i where h: "hash_at (V r) (redis_key sid) = Some h" "h ''quota'' = Some q"
    "parse_signed 64 q = Some i" "0 < i"
    "V r1 = put_key (redis_key sid) (Hash (h(''quota'' \<mapsto> show_int (i - 1)))) (deadline_at (V r) (redis_key sid)) (V r)"
    by blast
  then have "parse_signed 65 q = Some i" "i < 2 ^ 63" using parse_signed_64 by blast+
  moreover from this h have "parse_signed 65 (show_int (i - 1)) = Some (i - 1)" by (intro parse_signed_show) simp_all
  ultimately have "sold_left sid (V r) = nat i" "sold_left sid (V r1) = nat (i - 1)"
    using h by (simp_all add: sold_left_def hash_at_def)
  with h took_one_le[of x] show ?thesis by simp
qed simp

lemma round_trip_account:
  fixes m :: "redis_data \<Rightarrow> nat"
  assumes R: "redis_documented R V"
    and kept: "\<And>d d'. key_kept k d d' \<Longrightarrow> m d' \<le> m d"
    and c: "\<And>r x r1. c r = (x, r1) \<Longrightarrow> g x + m (V r1) \<le> m (V r)" and g: "\<And>e. g (Inl e) = 0"
    and rt: "round_trip R c r = (x, r1)"
  shows "g x + m (V r1) \<le> m (V r)"
proof -
  obtain l r0 where l: "rd_link R r = (l, r0)" by fastforce
  then have 0: "m (V r0) \<le> m (V r)" using kept[OF redis_documentedD(1)[OF R, of k r]] by simp
  have 1: "g (fst (c r0)) + m (V (snd (c r0))) \<le> m (V r0)" by (rule c) simp
  from l rt 0 1 g show ?thesis by (cases l) (auto simp: round_trip_def)
qed

lemma redis_consume_account:
  assumes R: "redis_documented R V" and v: "verify C (rs_codec s) token now = Inr claims"
    and c: "redis_consume C R s token policy now r = (oc, r1)"
  shows "(case oc of Accepted _ _ _ _ \<Rightarrow> 1 | Rejected _ \<Rightarrow> 0) + sold_left (claim_session_id claims) (V r1)
    \<le> sold_left (claim_session_id claims) (V r)"
proof -
  let ?sid = "claim_session_id claims"
  let ?c = "SPEND_SCRIPT R (redis_key ?sid) (case policy of None \<Rightarrow> [] | Some p \<Rightarrow> p)"
  obtain x r2 where rt: "round_trip R ?c r = (x, r2)" by fastforce
  have "took_one x + sold_left ?sid (V r2) \<le> sold_left ?sid (V r)"
    by (rule round_trip_account[where m = "sold_left ?sid" and g = took_one,
        OF R sold_left_kept spend_script_account[OF R] took_one_Inl rt])
  moreover have "r2 = r1 \<and> (case oc of Accepted _ _ _ _ \<Rightarrow> 1 | Rejected _ \<Rightarrow> 0) \<le> took_one x"
    using v rt c by (auto simp: redis_consume_def took_one_def split: sum.splits prod.splits if_split_asm)
  ultimately show ?thesis by (auto split: SessionOutcome.splits)
qed

lemma step_account:
  assumes R: "redis_documented R V" and n: "\<not> sells C sid op"
  shows "(if redis_spends C R sid r op then 1 else 0) + sold_left sid (V (replica_step C R r op)) \<le> sold_left sid (V r)"
proof (cases "writes_key C op (redis_key sid)")
  case False
  then have "\<not> redis_spends C R sid r op"
    by (cases "(C, R, sid, r, op)" rule: redis_spends.cases) (auto split: SessionOutcome.splits sum.splits)
  with sold_left_kept[OF step_keeps_other_keys[OF R False]] show ?thesis by simp
next
  case True
  then obtain s token policy now claims where op: "op = Serve s (Consume token policy now)"
    "verify C (rs_codec s) token now = Inr claims" "claim_session_id claims = sid"
    using n by (cases "(C, op, redis_key sid)" rule: writes_key.cases) (auto split: sum.splits)
  obtain oc r1 where c: "redis_consume C R s token policy now r = (oc, r1)" by fastforce
  from redis_consume_account[OF R op(2) c] op c show ?thesis by (auto split: SessionOutcome.splits)
qed

lemma fleet_account:
  assumes "redis_documented R V"
  shows "\<forall>op \<in> set ops. \<not> sells C sid op \<Longrightarrow>
    redis_grants C R sid r ops + sold_left sid (V (fleet_run C R r ops)) \<le> sold_left sid (V r)"
proof (induction ops arbitrary: r)
  case (Cons op ops)
  then have "redis_grants C R sid (replica_step C R r op) ops + sold_left sid (V (fleet_run C R (replica_step C R r op) ops))
      \<le> sold_left sid (V (replica_step C R r op))" by simp
  with step_account[OF assms, of C sid op r] Cons.prems show ?case by simp
qed simp

text \<open>A sale, whether or not its reply arrives, stores at most the quota.\<close>

lemma pipe_invariant:
  assumes "\<And>c r. c \<in> set cs \<Longrightarrow> P (V r) \<Longrightarrow> P (V (snd (c r)))"
  shows "P (V r) \<Longrightarrow> P (V (snd (pipe_atomic cs r)))"
  using assms
proof (induction cs arbitrary: r)
  case (Cons c cs)
  have "P (V (snd (c r)))" using Cons.prems by simp
  then have "P (V (snd (pipe_atomic cs (snd (c r)))))" using Cons by simp
  then show ?case by (simp split: prod.split) (metis snd_conv)
qed simp

lemma hset_sold_left:
  assumes R: "redis_documented R V" and q: "sold_left sid (V r) \<le> unat q" and f: "f = ''quota'' \<Longrightarrow> v = show_u64 q"
  shows "sold_left sid (V (snd (rd_hset R (redis_key sid) f v r))) \<le> unat q"
proof -
  obtain x r1 where c: "rd_hset R (redis_key sid) f v r = (x, r1)" by fastforce
  show ?thesis
  proof (cases x)
    case (Inl e)
    with c q redis_documentedD(8)[OF R, THEN meets_Inl] show ?thesis by simp
  next
    case (Inr u)
    with c redis_documentedD(8)[OF R, THEN meets_Inr] obtain h where h: "hash_at (V r) (redis_key sid) = Some h"
      "V r1 = put_key (redis_key sid) (Hash (h(f \<mapsto> v))) (deadline_at (V r) (redis_key sid)) (V r)" by fastforce
    show ?thesis
    proof (cases "f = ''quota''")
      case True
      with c h f show ?thesis by (simp add: sold_left_def hash_at_def parse_signed_show_u64)
    next
      case False
      with h have "sold_left sid (V r1) = sold_left sid (V r)" by (simp add: sold_left_def hash_at_def)
      with c q show ?thesis by simp
    qed
  qed
qed

lemma expire_sold_left:
  assumes R: "redis_documented R V"
  shows "sold_left sid (V (snd (rd_expire R (redis_key sid) t r))) \<le> sold_left sid (V r)"
proof -
  have e: "sold_left sid (expire_key (redis_key sid) t d) \<le> sold_left sid d" for d
    by (auto simp: sold_left_def expire_key_def hash_at_def split: option.splits prod.splits)
  obtain x r1 where c: "rd_expire R (redis_key sid) t r = (x, r1)" by fastforce
  show ?thesis
  proof (cases x)
    case (Inl e)
    with c redis_documentedD(6)[OF R, THEN meets_Inl] show ?thesis by simp
  next
    case (Inr u)
    with c e redis_documentedD(6)[OF R, THEN meets_Inr] show ?thesis by fastforce
  qed
qed

lemma sale_sold_left:
  assumes R: "redis_documented R V" and fresh: "rk_keys (V r) (redis_key (new_session_id C raw)) = None"
    and c: "redis_create_session C R raw s payer policy quota ttl now r = (res, r1)"
  shows "sold_left (new_session_id C raw) (V r1) \<le> unat quota"
proof -
  let ?sid = "new_session_id C raw"
  obtain l r0 where l: "rd_link R r = (l, r0)" by fastforce
  have "key_kept (redis_key ?sid) (V r) (V r0)" using redis_documentedD(1)[OF R, of _ r] l by simp
  with fresh have "sold_left ?sid (V r0) \<le> unat quota" by (auto simp: key_kept_def sold_left_def hash_at_def)
  then have "sold_left ?sid (V (snd (pipe_atomic
    [rd_hset R (redis_key ?sid) ''payer'' payer, rd_hset R (redis_key ?sid) ''quota'' (show_u64 quota),
     rd_hset R (redis_key ?sid) ''granted'' (show_u64 quota),
     rd_hset R (redis_key ?sid) ''policy'' (case policy of None \<Rightarrow> [] | Some p \<Rightarrow> p),
     rd_expire R (redis_key ?sid) (sint ttl)] r0))) \<le> unat quota"
  proof (rule pipe_invariant[where P = "\<lambda>d. sold_left ?sid d \<le> unat quota", rotated])
    fix c r'
    assume "c \<in> set [rd_hset R (redis_key ?sid) ''payer'' payer, rd_hset R (redis_key ?sid) ''quota'' (show_u64 quota),
       rd_hset R (redis_key ?sid) ''granted'' (show_u64 quota),
       rd_hset R (redis_key ?sid) ''policy'' (case policy of None \<Rightarrow> [] | Some p \<Rightarrow> p),
       rd_expire R (redis_key ?sid) (sint ttl)]" and P: "sold_left ?sid (V r') \<le> unat quota"
    then have "(\<exists>f v. c = rd_hset R (redis_key ?sid) f v \<and> (f = ''quota'' \<longrightarrow> v = show_u64 quota)) \<or>
        c = rd_expire R (redis_key ?sid) (sint ttl)" by (simp, elim disjE) fastforce+
    with P show "sold_left ?sid (V (snd (c r'))) \<le> unat quota"
      using hset_sold_left[OF R P] order_trans[OF expire_sold_left[OF R, of ?sid "sint ttl" r'] P] by blast
  qed
  then show ?thesis using l c \<open>sold_left ?sid (V r0) \<le> unat quota\<close>
    unfolding redis_create_session_def Let_def eff_bind_def round_trip_def
    by (cases l) (auto simp del: pipe_atomic.simps split: prod.splits sum.splits)
qed

text \<open>C7: a session sold through Redis is never oversold by the fleet. The session is created by any
  replica under an id that is free on the server, whether or not the reply of that request
  arrives; then any number of replicas send any operations in any order, with any of the replies
  lost, requests unsent, commands failing and keys expiring. The requests that are answered by
  spending the session, plus what the server still holds for it, are at most its quota.\<close>

theorem redis_session_never_oversells:
  assumes "redis_documented R V"
    and "rk_keys (V r) (redis_key (new_session_id C raw)) = None"
    and "redis_create_session C R raw s payer policy quota ttl now r = (res, r1)"
    and "\<forall>op \<in> set ops. \<not> sells C (new_session_id C raw) op"
  shows "redis_grants C R (new_session_id C raw) r1 ops
    + sold_left (new_session_id C raw) (V (fleet_run C R r1 ops)) \<le> unat quota"
  using fleet_account[OF assms(1,4), of r1] sale_sold_left[OF assms(1-3)] by simp

theorem redis_session_never_oversells_witness:
  "redis_grants demo_crypto live_redis (new_session_id demo_crypto ''id'') (snd demo_sale)
     [Serve demo_redis_store (Consume demo_token None 1000), Serve demo_redis_store (Claim ''tx'' 300 1001)]
   + sold_left (new_session_id demo_crypto ''id'') (fleet_run demo_crypto live_redis (snd demo_sale)
     [Serve demo_redis_store (Consume demo_token None 1000), Serve demo_redis_store (Claim ''tx'' 300 1001)]) \<le> 2"
proof -
  have f: "rk_keys (id empty_redis) (redis_key (new_session_id demo_crypto ''id'')) = None"
    by (simp add: empty_redis_def)
  have c: "redis_create_session demo_crypto live_redis ''id'' demo_redis_store ''0xa1'' None 2 3600 1000 empty_redis =
      (fst demo_sale, snd demo_sale)" by (simp add: demo_sale_def)
  have n: "\<forall>op \<in> set [Serve demo_redis_store (Consume demo_token None 1000),
      Serve demo_redis_store (Claim ''tx'' 300 1001)]. \<not> sells demo_crypto (new_session_id demo_crypto ''id'') op" by simp
  have q: "unat (2 :: u64) = 2" by simp
  show ?thesis using redis_session_never_oversells[OF live_redis_documented f c n] unfolding q id_apply .
qed

section \<open>The claim of one payment\<close>

text \<open>The payment is held until \<open>t\<close>, unless the server's clock is past it already.\<close>

definition held_until :: "string \<Rightarrow> nat \<Rightarrow> redis_data \<Rightarrow> bool" where
  "held_until i t d \<longleftrightarrow> t \<le> rk_clock d \<or>
     (rk_keys d (REDIS_REPLAY_PREFIX @ i) \<noteq> None \<and> deadline_at d (REDIS_REPLAY_PREFIX @ i) = Some t)"

lemma held_until_kept: "key_kept (REDIS_REPLAY_PREFIX @ i) d d' \<Longrightarrow> held_until i t d \<Longrightarrow> held_until i t d'"
  by (auto simp: key_kept_def held_until_def deadline_at_def)

lemma claim_script_effect:
  assumes R: "redis_documented R V" and s: "CLAIM_SCRIPT R k now ttl r = (x, r1)"
  shows "V r1 = V r \<and> (\<forall>seen. x \<noteq> Inr (1, seen)) \<or>
    rk_keys (V r) k = None \<and> 0 < ttl \<and> V r1 = put_key k (Str now) (Some (rk_clock (V r) + nat ttl)) (V r) \<and> x = Inr (1, now)"
proof -
  obtain a r2 where g: "rd_get R k r = (a, r2)" by fastforce
  obtain b r3 where c: "rd_set_ex R k now ttl r2 = (b, r3)" by fastforce
  have 2: "V r2 = V r \<and> (a = Inr None \<longrightarrow> rk_keys (V r) k = None)"
  proof (cases a)
    case (Inl e)
    with g redis_documentedD(2)[OF R, THEN meets_Inl] show ?thesis by simp
  next
    case (Inr v)
    with g redis_documentedD(2)[OF R, THEN meets_Inr] have "V r2 = V r" "string_at (V r) k = Some v" by auto
    with Inr show ?thesis by (auto simp: string_at_def split: option.splits prod.splits redis_value.splits)
  qed
  show ?thesis
  proof (cases "a = Inr None")
    case True
    with s g c have x: "r1 = r3" "x = (case b of Inl e \<Rightarrow> Inl e | Inr _ \<Rightarrow> Inr (1, now))"
      by (auto simp: CLAIM_SCRIPT_def eff_bind_def split: sum.splits)
    show ?thesis
    proof (cases b)
      case (Inl e)
      with c redis_documentedD(3)[OF R, THEN meets_Inl] x 2 show ?thesis by simp
    next
      case (Inr u)
      with c redis_documentedD(3)[OF R, THEN meets_Inr] x 2 True show ?thesis by simp
    qed
  next
    case False
    with s g have "r1 = r2" "\<forall>seen. x \<noteq> Inr (1, seen)"
      by (auto simp: CLAIM_SCRIPT_def eff_bind_def split: sum.splits option.splits)
    with 2 show ?thesis by simp
  qed
qed

lemma round_trip_answered: "round_trip R c r = (Inr a, r1) \<Longrightarrow> \<exists>r0. rd_link R r = (Answered, r0) \<and> c r0 = (Inr a, r1)"
  by (auto simp: round_trip_def split: prod.splits redis_link.splits)

lemma redis_claim_fresh:
  assumes R: "redis_documented R V" and c: "redis_claim_payment R i ttl now r = (Fresh, r1)"
  shows "rk_clock (V r) \<le> rk_clock (V r1)"
    "held_until i (rk_clock (V r1) + unat ttl) (V r1)" "held_until i t (V r) \<Longrightarrow> t \<le> rk_clock (V r1)"
proof -
  let ?k = "REDIS_REPLAY_PREFIX @ i"
  from c obtain seen where "round_trip R (CLAIM_SCRIPT R ?k (show_u64 now) (uint ttl)) r = (Inr (1, seen), r1)"
    by (auto simp: redis_claim_payment_def split: prod.splits sum.splits option.splits if_split_asm)
  then obtain r0 where r0: "rd_link R r = (Answered, r0)" "CLAIM_SCRIPT R ?k (show_u64 now) (uint ttl) r0 = (Inr (1, seen), r1)"
    using round_trip_answered by metis
  then have k: "key_kept ?k (V r) (V r0)" using redis_documentedD(1)[OF R, of ?k r] by simp
  from claim_script_effect[OF R r0(2)] have e: "rk_keys (V r0) ?k = None"
    "V r1 = put_key ?k (Str (show_u64 now)) (Some (rk_clock (V r0) + unat ttl)) (V r0)" by simp_all
  from k e(2) show "rk_clock (V r) \<le> rk_clock (V r1)" by (simp add: key_kept_def)
  from e show "held_until i (rk_clock (V r1) + unat ttl) (V r1)" by (simp add: held_until_def deadline_at_def)
  show "t \<le> rk_clock (V r1)" if "held_until i t (V r)"
    using held_until_kept[OF k that] e by (simp add: held_until_def)
qed

lemma claim_script_holds:
  assumes R: "redis_documented R V"
  shows "held_until i t (V r) \<Longrightarrow> held_until i t (V (snd (CLAIM_SCRIPT R (REDIS_REPLAY_PREFIX @ i) now ttl r)))"
  using claim_script_effect[OF R, of "REDIS_REPLAY_PREFIX @ i" now ttl r]
  by (cases "CLAIM_SCRIPT R (REDIS_REPLAY_PREFIX @ i) now ttl r") (auto simp: held_until_def)

lemma round_trip_holds:
  assumes R: "redis_documented R V" and kept: "\<And>d d'. key_kept k d d' \<Longrightarrow> P d \<Longrightarrow> P d'"
    and c: "\<And>r. P (V r) \<Longrightarrow> P (V (snd (c r)))" and P: "P (V r)"
  shows "P (V (snd (round_trip R c r)))"
proof -
  obtain l r0 where l: "rd_link R r = (l, r0)" by fastforce
  then have "P (V r0)" using kept[OF redis_documentedD(1)[OF R, of k r]] P by simp
  with l c[of r0] show ?thesis by (cases l) (simp_all add: round_trip_def)
qed

fun releases :: "string \<Rightarrow> replica_op \<Rightarrow> bool" where
  "releases i (Serve s (Release j)) = (i = j)"
| "releases i _ = False"

lemma step_holds:
  assumes R: "redis_documented R V" and n: "\<not> releases i op" and h: "held_until i t (V r)"
  shows "held_until i t (V (replica_step C R r op))"
proof (cases "writes_key C op (REDIS_REPLAY_PREFIX @ i)")
  case False
  show ?thesis by (rule held_until_kept[OF step_keeps_other_keys[OF R False] h])
next
  case True
  then obtain s ttl now where op: "op = Serve s (Claim i ttl now)"
    using n by (cases "(C, op, REDIS_REPLAY_PREFIX @ i)" rule: writes_key.cases) (auto split: sum.splits)
  show ?thesis unfolding op replica_step.simps snd_redis_ops
    by (rule round_trip_holds[where P = "held_until i t", OF R held_until_kept claim_script_holds[OF R] h])
qed

lemma fleet_holds:
  assumes "redis_documented R V"
  shows "\<forall>op \<in> set ops. \<not> releases i op \<Longrightarrow> held_until i t (V r) \<Longrightarrow> held_until i t (V (fleet_run C R r ops))"
  by (induction ops arbitrary: r) (simp_all add: step_holds[OF assms])

text \<open>C11: over Redis, a payment is used once by the whole fleet while its claim lasts. If a claim of a
  payment was answered \<open>Fresh\<close>, and after any operations of any replicas, none of which releases
  the payment, a claim of it is answered \<open>Fresh\<close> again, then at least the first claim's time to
  live has passed on the server's clock, whatever the clocks of the replicas say.\<close>

theorem redis_claim_is_single_use:
  assumes "redis_documented R V"
    and "redis_claim_payment R payment ttl now r = (Fresh, r1)"
    and "\<forall>op \<in> set ops. \<not> releases payment op"
    and "redis_claim_payment R payment ttl' now' (fleet_run C R r1 ops) = (Fresh, r2)"
  shows "rk_clock (V r1) + unat ttl \<le> rk_clock (V r2)"
  by (rule redis_claim_fresh(3)[OF assms(1,4) fleet_holds[OF assms(1,3) redis_claim_fresh(2)[OF assms(1,2)]]])

lemma slow_claims:
  "redis_claim_payment slow_redis ''tx'' 300 1000 empty_redis =
     (Fresh, \<lparr>rk_keys = [''x402:seen:tx'' \<mapsto> (Str (show_nat 1000), Some 700)], rk_clock = 400\<rparr>)"
  "redis_release_payment slow_redis ''t'' \<lparr>rk_keys = [''x402:seen:tx'' \<mapsto> (Str (show_nat 1000), Some 700)], rk_clock = 400\<rparr> =
     \<lparr>rk_keys = Map.empty, rk_clock = 800\<rparr>"
  "redis_claim_payment slow_redis ''tx'' 300 1000 \<lparr>rk_keys = Map.empty, rk_clock = 800\<rparr> =
     (Fresh, \<lparr>rk_keys = [''x402:seen:tx'' \<mapsto> (Str (show_nat 1000), Some 1500)], rk_clock = 1200\<rparr>)"
proof -
  have t: "parse_u64 (show_nat 1000) = Some 1000" using parse_u64_show_u64[of 1000] by simp
  note d = redis_claim_payment_def redis_release_payment_def round_trip_def CLAIM_SCRIPT_def eff_bind_def eff_return_def
    slow_redis_def live_redis_def empty_redis_def deadline_at_def string_at_def put_key_def drop_key_def REDIS_REPLAY_PREFIX_def
  show "redis_claim_payment slow_redis ''tx'' 300 1000 empty_redis =
     (Fresh, \<lparr>rk_keys = [''x402:seen:tx'' \<mapsto> (Str (show_nat 1000), Some 700)], rk_clock = 400\<rparr>)"
    by (simp add: d t)
  show "redis_release_payment slow_redis ''t'' \<lparr>rk_keys = [''x402:seen:tx'' \<mapsto> (Str (show_nat 1000), Some 700)], rk_clock = 400\<rparr> =
     \<lparr>rk_keys = Map.empty, rk_clock = 800\<rparr>"
    by (auto simp: d t fun_eq_iff)
  show "redis_claim_payment slow_redis ''tx'' 300 1000 \<lparr>rk_keys = Map.empty, rk_clock = 800\<rparr> =
     (Fresh, \<lparr>rk_keys = [''x402:seen:tx'' \<mapsto> (Str (show_nat 1000), Some 1500)], rk_clock = 1200\<rparr>)"
    by (simp add: d t)
qed

theorem redis_claim_is_single_use_witness:
  "400 + unat (300 :: u64) \<le> rk_clock \<lparr>rk_keys = [''x402:seen:tx'' \<mapsto> (Str (show_nat 1000), Some 1500)], rk_clock = 1200\<rparr>"
proof -
  have n: "\<forall>op \<in> set [Serve demo_redis_store (Release ''t'')]. \<not> releases ''tx'' op" by simp
  have r: "redis_claim_payment slow_redis ''tx'' 300 1000 (fleet_run demo_crypto slow_redis
      \<lparr>rk_keys = [''x402:seen:tx'' \<mapsto> (Str (show_nat 1000), Some 700)], rk_clock = 400\<rparr> [Serve demo_redis_store (Release ''t'')]) =
     (Fresh, \<lparr>rk_keys = [''x402:seen:tx'' \<mapsto> (Str (show_nat 1000), Some 1500)], rk_clock = 1200\<rparr>)"
    by (simp only: foldl.simps replica_step.simps slow_claims)
  show ?thesis using redis_claim_is_single_use[OF slow_redis_documented slow_claims(1) n r] by simp
qed

section \<open>The counter of one free-tier bucket\<close>

fun meters :: "string \<Rightarrow> replica_op \<Rightarrow> bool" where
  "meters k (Meter p a m w now) = (meter_key p a w now = k)"
| "meters k _ = False"

fun redis_admits :: "'r redis \<Rightarrow> string \<Rightarrow> 'r \<Rightarrow> replica_op \<Rightarrow> bool" where
  "redis_admits R k r (Meter p a m w now) =
     (meter_key p a w now = k \<and>
      (case redis_check_at R p a m w now r of None \<Rightarrow> False | Some (al, _) \<Rightarrow> allowed al))"
| "redis_admits R k r _ = False"

fun redis_admitted :: "crypto \<Rightarrow> 'r redis \<Rightarrow> string \<Rightarrow> 'r \<Rightarrow> replica_op list \<Rightarrow> nat" where
  "redis_admitted C R k r [] = 0"
| "redis_admitted C R k r (op # ops) =
     (if redis_admits R k r op then 1 else 0) + redis_admitted C R k (replica_step C R r op) ops"

fun tier_of_op :: "replica_op \<Rightarrow> (u64 \<times> u64) option" where
  "tier_of_op (Meter p a m w now) = Some (m, w)"
| "tier_of_op _ = None"

text \<open>\<open>g\<close> requests were admitted since the clock read \<open>c\<close>, and the counter cannot expire before \<open>t\<close>.\<close>

definition metered :: "string \<Rightarrow> nat \<Rightarrow> nat \<Rightarrow> nat \<Rightarrow> redis_data \<Rightarrow> bool" where
  "metered k c t g d \<longleftrightarrow> c \<le> rk_clock d \<and>
     (rk_keys d k = None \<and> g = 0 \<or>
      (\<exists>s n dl. rk_keys d k = Some (Str s, dl) \<and> parse_signed 65 s = Some n \<and> int g \<le> n \<and>
         (\<forall>t'. dl = Some t' \<longrightarrow> t \<le> t')))"

lemma metered_kept: "key_kept k d d' \<Longrightarrow> rk_clock d' < t \<Longrightarrow> metered k c t g d \<Longrightarrow> metered k c t g d'"
  by (auto simp: key_kept_def metered_def deadline_at_def)

lemma estimate_below:
  assumes "f64_add (rnd (of_int n)) (f64_mul prev carry) < f64_of_u64 limit"
  shows "n < int (unat limit)"
proof (rule ccontr)
  assume "\<not> n < int (unat limit)"
  then have "rat_of_nat (unat limit) \<le> rat_of_int n" by (metis not_less of_int_le_iff of_int_of_nat_eq)
  then have "f64_of_u64 limit \<le> rnd (of_int n)" unfolding f64_of_u64_def by (rule rnd_mono)
  also have "rnd (of_int n) = rnd (rnd (of_int n))" by (simp add: rnd_idem)
  also have "\<dots> \<le> f64_add (rnd (of_int n)) (f64_mul prev carry)"
    unfolding f64_add_def f64_mul_def by (rule rnd_mono) (simp add: rnd_nonneg)
  finally show False using assms by simp
qed

lemma check_script_effect:
  assumes R: "redis_documented R V" and s: "CHECK_SCRIPT R k j limit ttl carry r = (x, r1)"
  shows "V r1 = V r \<and> (\<forall>rem. x \<noteq> Inr (1, rem)) \<or>
    (\<exists>s n. string_at (V r) k = Some s \<and> counter s = Some n \<and> n < int (unat limit) \<and>
      (let d = put_key k (Str (show_int (n + 1))) (deadline_at (V r) k) (V r) in
        V r1 = d \<and> (\<forall>rem. x \<noteq> Inr (1, rem)) \<or> V r1 = expire_key k (uint ttl) d))"
proof -
  obtain a1 s1 where c1: "rd_get R k r = (a1, s1)" by fastforce
  obtain a2 s2 where c2: "rd_get R j s1 = (a2, s2)" by fastforce
  obtain a3 s3 where c3: "rd_incr R k s2 = (a3, s3)" by fastforce
  obtain a4 s4 where c4: "rd_expire R k (uint ttl) s3 = (a4, s4)" by fastforce
  have get: "V r' = V r0 \<and> (\<forall>v. a = Inr v \<longrightarrow> string_at (V r0) q = Some v)" if "rd_get R q r0 = (a, r')" for q r0 a r'
  proof (cases a)
    case (Inl e)
    with that redis_documentedD(2)[OF R, THEN meets_Inl] show ?thesis by simp
  next
    case (Inr v)
    with that redis_documentedD(2)[OF R, THEN meets_Inr] show ?thesis by auto
  qed
  have V: "V s1 = V r" "V s2 = V r" using get[OF c1] get[OF c2] by simp_all
  show ?thesis
  proof (cases "V r1 = V r \<and> (\<forall>rem. x \<noteq> Inr (1, rem))")
    case False
    have "\<exists>c cur prev. a1 = Inr c \<and> lua_tonumber (case c of None \<Rightarrow> ''0'' | Some s \<Rightarrow> s) = Some cur \<and>
        f64_add cur (f64_mul prev carry) < f64_of_u64 limit \<and>
        (case a3 of Inl e \<Rightarrow> r1 = s3 \<and> x = Inl e | Inr _ \<Rightarrow> r1 = s4 \<and> (\<forall>e. a4 = Inl e \<longrightarrow> x = Inl e))"
      using s False V c1 c2 c3 c4 unfolding CHECK_SCRIPT_def eff_bind_def
      by (auto simp: Let_def not_le split: sum.splits option.splits if_split_asm)
    then obtain c cur prev where p: "a1 = Inr c" "lua_tonumber (case c of None \<Rightarrow> ''0'' | Some s \<Rightarrow> s) = Some cur"
      "f64_add cur (f64_mul prev carry) < f64_of_u64 limit"
      "case a3 of Inl e \<Rightarrow> r1 = s3 \<and> x = Inl e | Inr _ \<Rightarrow> r1 = s4 \<and> (\<forall>e. a4 = Inl e \<longrightarrow> x = Inl e)" by blast
    have str: "string_at (V r) k = Some c" using get[OF c1] p(1) by simp
    show ?thesis
    proof (cases a3)
      case (Inl e)
      with redis_documentedD(5)[OF R, THEN meets_Inl] c3 V p False show ?thesis by simp
    next
      case (Inr u)
      with redis_documentedD(5)[OF R, THEN meets_Inr] c3 V str obtain n where n: "counter c = Some n"
        "V s3 = put_key k (Str (show_int (n + 1))) (deadline_at (V r) k) (V r)" by fastforce
      have "cur = rnd (of_int n)" using p(2) n(1) parse_signed_64[of "the c" n] zero_string
        by (cases c) (auto simp: counter_def lua_tonumber_def)
      then have "n < int (unat limit)" using p(3) by (rule_tac estimate_below) simp
      moreover have "V r1 = V s3 \<and> (\<forall>rem. x \<noteq> Inr (1, rem)) \<or> V r1 = expire_key k (uint ttl) (V s3)"
      proof (cases a4)
        case (Inl e)
        with redis_documentedD(6)[OF R, THEN meets_Inl] c4 p(4) \<open>a3 = Inr u\<close> show ?thesis by simp
      next
        case (Inr v)
        with redis_documentedD(6)[OF R, THEN meets_Inr] c4 p(4) \<open>a3 = Inr u\<close> show ?thesis by simp
      qed
      ultimately show ?thesis using str n by (auto simp: Let_def)
    qed
  qed simp
qed

lemma metered_after_check:
  assumes R: "redis_documented R V" and g: "metered k c t g (V r)"
    and w: "0 < ttl" "t \<le> c + unat ttl"
    and s: "CHECK_SCRIPT R k j limit ttl carry r = (x, r1)"
  shows "metered k c t g (V r1) \<and> (\<forall>rem. x = Inr (1, rem) \<longrightarrow> metered k c t (Suc g) (V r1) \<and> g < unat limit)"
proof -
  let ?new = "\<lambda>n. put_key k (Str (show_int (n + 1))) (deadline_at (V r) k) (V r)"
  consider "V r1 = V r" "\<forall>rem. x \<noteq> Inr (1, rem)"
    | s n where "string_at (V r) k = Some s" "counter s = Some n" "n < int (unat limit)"
        "V r1 = ?new n \<and> (\<forall>rem. x \<noteq> Inr (1, rem)) \<or> V r1 = expire_key k (uint ttl) (?new n)"
    using check_script_effect[OF R s] by (auto simp: Let_def)
  then show ?thesis
  proof cases
    case 1
    with g show ?thesis by simp
  next
    case 2
    have n: "0 \<le> n \<and> int g \<le> n"
      using g 2(1,2) by (auto simp: metered_def string_at_def counter_def dest!: parse_signed_64)
    then have "n < 2 ^ 63"
      using 2(2) by (cases s) (auto simp: counter_def dest!: parse_signed_64)
    then have p: "parse_signed 65 (show_int (n + 1)) = Some (n + 1)" using n by (intro parse_signed_show) auto
    have d: "c \<le> rk_clock (V r)" "\<And>t'. deadline_at (V r) k = Some t' \<Longrightarrow> t \<le> t'"
      using g by (auto simp: metered_def deadline_at_def)
    from w d(1) have e: "t \<le> rk_clock (V r) + unat ttl" "0 < uint ttl" by (auto simp: word_less_def)
    from 2(4) have "metered k c t (Suc g) (V r1)"
      using p n d e by (auto simp: metered_def expire_key_def)
    moreover from 2(4) have "metered k c t g (V r1)"
      using p n d e by (auto simp: metered_def expire_key_def)
    moreover have "g < unat limit" using 2(3) n by linarith
    ultimately show ?thesis by simp
  qed
qed

lemma step_clock:
  assumes "redis_documented R V"
  shows "rk_clock (V r) \<le> rk_clock (V (replica_step C R r op))"
proof -
  have "\<not> writes_key C op []"
    by (cases "(C, op, [] :: string)" rule: writes_key.cases)
      (auto simp: redis_key_def meter_key_def redis_prefixes split: sum.splits)
  from step_keeps_other_keys[OF assms this] show ?thesis by (simp add: key_kept_def)
qed

lemma fleet_clock:
  assumes "redis_documented R V"
  shows "rk_clock (V r) \<le> rk_clock (V (fleet_run C R r ops))"
  by (induction ops arbitrary: r) (auto intro: order_trans step_clock[OF assms])

lemma metered_step:
  assumes R: "redis_documented R V" and g: "metered k c t g (V r)" and k: "k = meter_key p a wd t0"
    and late: "rk_clock (V (replica_step C R r op)) < t"
    and tier: "meters k op \<Longrightarrow> tier_of_op op = Some (limit, window)"
    and w: "0 < window * 2" "t \<le> c + unat (window * 2)"
  shows "metered k c t (g + (if redis_admits R k r op then 1 else 0)) (V (replica_step C R r op)) \<and>
    (redis_admits R k r op \<longrightarrow> g < unat limit)"
proof (cases "meters k op")
  case False
  then have "\<not> writes_key C op k" "\<not> redis_admits R k r op" unfolding k
    by (cases "(C, op, k)" rule: writes_key.cases; auto split: sum.splits)+
  with metered_kept[OF step_keeps_other_keys[OF R \<open>\<not> writes_key C op k\<close>] late g] show ?thesis by simp
next
  case True
  then obtain p a now where op: "op = Meter p a limit window now" "meter_key p a window now = k"
    using tier by (cases op) auto
  from w(1) have "window \<noteq> 0" by auto
  then obtain j ca al where ck: "redis_check_at R p a limit window now r =
      Some (al, snd (round_trip R (CHECK_SCRIPT R k j limit (window * 2) ca) r))"
    "allowed al \<Longrightarrow> \<exists>rem. fst (round_trip R (CHECK_SCRIPT R k j limit (window * 2) ca) r) = Inr (1, rem)"
    using redis_check_at_script[of window R p a limit now r] op(2) by metis
  let ?c = "CHECK_SCRIPT R k j limit (window * 2) ca"
  obtain l r0 where l: "rd_link R r = (l, r0)" by fastforce
  have "spares V [] ?c" using op(2) by (intro spares_scripts[OF R]) (auto simp: meter_key_def redis_prefixes)
  then have "rk_clock (V (snd (?c r0))) = rk_clock (V r0)" by (simp add: spares_def)
  then have "rk_clock (V r0) < t" using late l ck(1) op by (cases l) (simp_all add: round_trip_def)
  then have "metered k c t g (V r0)"
    using metered_kept[OF _ _ g] redis_documentedD(1)[OF R, of k r] l by simp
  then have "metered k c t g (V (snd (?c r0))) \<and>
      (\<forall>rem. fst (?c r0) = Inr (1, rem) \<longrightarrow> metered k c t (Suc g) (V (snd (?c r0))) \<and> g < unat limit)"
    using w by (intro metered_after_check[OF R, where ttl = "window * 2"]) auto
  with \<open>metered k c t g (V r0)\<close> l ck op show ?thesis by (cases l) (auto simp: round_trip_def)
qed

lemma fleet_metered:
  assumes R: "redis_documented R V" and k: "k = meter_key p a wd t0"
    and w: "0 < window * 2" "t \<le> c + unat (window * 2)"
  shows "\<forall>op \<in> set ops. meters k op \<longrightarrow> tier_of_op op = Some (limit, window) \<Longrightarrow>
    metered k c t g (V r) \<Longrightarrow> rk_clock (V (fleet_run C R r ops)) < t \<Longrightarrow> g \<le> unat limit \<Longrightarrow>
    g + redis_admitted C R k r ops \<le> unat limit"
proof (induction ops arbitrary: r g)
  case (Cons op ops)
  let ?r = "replica_step C R r op"
  have "rk_clock (V ?r) < t"
    using Cons.prems(3) fleet_clock[OF R, of ?r C ops] by simp
  from metered_step[OF R Cons.prems(2) k this _ w] Cons.prems(1)
  have "metered k c t (g + (if redis_admits R k r op then 1 else 0)) (V ?r)"
    "redis_admits R k r op \<longrightarrow> g < unat limit" by auto
  with Cons.IH[of "g + (if redis_admits R k r op then 1 else 0)" ?r] Cons.prems show ?case by auto
qed simp

text \<open>C16: over Redis the free tier holds for the fleet. From a moment at which a client's counter for
  a window does not exist on the server, and until less than two window lengths later on the
  server's clock, whatever operations the replicas send, the requests of that bucket and window
  that all of them together admit are at most the limit, if they agree on the tier.\<close>

theorem redis_free_tier_limit:
  assumes "redis_documented R V"
    and "rk_keys (V r) (meter_key policy ip window now) = None"
    and "unat window < 2 ^ 63"
    and "rk_clock (V (fleet_run C R r ops)) < rk_clock (V r) + 2 * unat window"
    and "\<forall>op \<in> set ops. meters (meter_key policy ip window now) op \<longrightarrow> tier_of_op op = Some (limit, window)"
  shows "redis_admitted C R (meter_key policy ip window now) r ops \<le> unat limit"
proof -
  let ?k = "meter_key policy ip window now"
  have "2 * unat window < 2 ^ 64" using assms(3) by simp
  then have u: "unat (window * 2) = 2 * unat window" by (simp add: unat_word_ariths)
  show ?thesis
  proof (cases "window = 0")
    case True
    have "rk_clock (V r) \<le> rk_clock (V (fleet_run C R r ops))" by (rule fleet_clock[OF assms(1)])
    with assms(4) True show ?thesis by simp
  next
    case False
    then have "0 < unat (window * 2)" unfolding u by (simp add: unat_gt_0)
    then have "0 < window * 2" by (simp add: word_less_nat_alt)
    from fleet_metered[OF assms(1) refl this _ assms(5), of "rk_clock (V r) + 2 * unat window" "rk_clock (V r)" 0 r]
    show ?thesis using assms(2,4) u by (simp add: metered_def)
  qed
qed

lemma demo_meter_clock: "rk_clock (replica_step C live_redis r (Meter p a m w now)) = rk_clock r"
proof (cases "w = 0")
  case False
  then obtain j c al where s: "redis_check_at live_redis p a m w now r =
      Some (al, snd (round_trip live_redis (CHECK_SCRIPT live_redis (meter_key p a w now) j m (w * 2) c) r))"
    by (rule redis_check_at_script)
  have "spares id [] (CHECK_SCRIPT live_redis (meter_key p a w now) j m (w * 2) c)"
    by (rule spares_scripts[OF live_redis_documented]) (simp add: meter_key_def redis_prefixes)
  with s show ?thesis by (simp add: spares_def round_trip_def live_redis_def)
qed (simp add: redis_check_at_def)

theorem redis_free_tier_limit_witness:
  "redis_admitted demo_crypto live_redis (meter_key ''grpc'' (V4 10 0 0 1) 60 1000) empty_redis
     [Meter ''grpc'' (V4 10 0 0 1) 1 60 1000, Meter ''grpc'' (V4 10 0 0 1) 1 60 1001] \<le> 1"
proof -
  let ?ops = "[Meter ''grpc'' (V4 10 0 0 1) 1 60 1000, Meter ''grpc'' (V4 10 0 0 1) 1 60 1001]"
  have f: "rk_keys (id empty_redis) (meter_key ''grpc'' (V4 10 0 0 1) 60 1000) = None"
    by (simp add: empty_redis_def)
  have w: "unat (60 :: u64) < 2 ^ 63" by simp
  have c: "rk_clock (id (fleet_run demo_crypto live_redis empty_redis ?ops)) <
      rk_clock (id empty_redis) + 2 * unat (60 :: u64)"
    by (simp only: foldl.simps demo_meter_clock id_apply) simp
  have t: "\<forall>op \<in> set ?ops. meters (meter_key ''grpc'' (V4 10 0 0 1) 60 1000) op \<longrightarrow> tier_of_op op = Some (1, 60)" by simp
  have one: "unat (1 :: u64) = 1" by simp
  show ?thesis using redis_free_tier_limit[OF live_redis_documented f w c t] unfolding one .
qed

end
