(* ===== verification/Fleet.thy ===== *)
theory Fleet
  imports Spending RedisLedger
begin

text \<open>
  A fleet: replicas of the service of src/main.rs that share one Redis server and one node. Each
  has its own configuration, breaker and streams; the Redis session store is the replay cache of
  all of them. A documented server gives the laws of \<open>claim_cache\<close>, as the in-process store does in
  theory \<open>Spending\<close>, so the accounting of the handlers is the one proved there.
\<close>

section \<open>Replicas\<close>

record ('n, 'r) fleet =
  fl_replicas :: "nat \<Rightarrow> ('n, 'r) service"
  fl_node :: 'n
  fl_redis :: 'r

text \<open>Replica \<open>i\<close> as it runs: with the node and the server in their present state.\<close>

definition replica :: "('n, 'r) fleet \<Rightarrow> nat \<Rightarrow> ('n, 'r) service" where
  "replica f i = (fl_replicas f i)\<lparr>sv_app := (sv_app (fl_replicas f i))\<lparr>ap_node := fl_node f, ap_redis := fl_redis f\<rparr>\<rparr>"

definition fleet_step ::
  "(string \<Rightarrow> bool) \<Rightarrow> ('n, 'r) platform \<Rightarrow> nat \<Rightarrow> event \<Rightarrow> ('n, 'r) fleet \<Rightarrow> ('n, 'r) fleet option" where
  "fleet_step hv P i e f =
     map_option (\<lambda>s. \<lparr>fl_replicas = (fl_replicas f)(i := s), fl_node = ap_node (sv_app s), fl_redis = ap_redis (sv_app s)\<rparr>)
       (service_step hv P e (replica f i))"

fun serve_fleet ::
  "(string \<Rightarrow> bool) \<Rightarrow> ('n, 'r) platform \<Rightarrow> (nat \<times> event) list \<Rightarrow> ('n, 'r) fleet \<Rightarrow> ('n, 'r) fleet option" where
  "serve_fleet hv P [] f = Some f"
| "serve_fleet hv P ((i, e) # es) f =
     (case fleet_step hv P i e f of None \<Rightarrow> None | Some f1 \<Rightarrow> serve_fleet hv P es f1)"

definition deployed :: "(nat \<Rightarrow> ('n, 'r) App) \<Rightarrow> 'n \<Rightarrow> 'r \<Rightarrow> ('n, 'r) fleet" where
  "deployed apps node redis = \<lparr>fl_replicas = (\<lambda>i. started (apps i)), fl_node = node, fl_redis = redis\<rparr>"

definition fleet_streams :: "('n, 'r) fleet \<Rightarrow> nat \<times> nat \<Rightarrow> StreamState" where
  "fleet_streams f = (\<lambda>(i, j). sv_streams (fl_replicas f i) j)"

section \<open>The Redis store as a cache of claims\<close>

text \<open>
  Claims made after the server's clock reads \<open>c\<close>, for 300 seconds of that clock; what the clocks of
  the replicas read does not matter.
\<close>

fun redis_remembers :: "('r \<Rightarrow> redis_data) \<Rightarrow> nat \<Rightarrow> SessionStore \<times> 'r \<Rightarrow> bool" where
  "redis_remembers V c (MemoryStore s, r) = False"
| "redis_remembers V c (RedisStore s, r) = (c \<le> rk_clock (V r))"

definition redis_during :: "('r \<Rightarrow> redis_data) \<Rightarrow> nat \<Rightarrow> SessionStore \<times> 'r \<Rightarrow> bool" where
  "redis_during V c st \<longleftrightarrow> rk_clock (V (snd st)) < c + 300"

definition stays_until :: "string \<Rightarrow> nat \<Rightarrow> redis_data \<Rightarrow> bool" where
  "stays_until k t d \<longleftrightarrow> (\<exists>t'. deadline_at d k = Some t' \<and> t \<le> t')"

definition redis_held :: "('r \<Rightarrow> redis_data) \<Rightarrow> nat \<Rightarrow> string \<Rightarrow> SessionStore \<times> 'r \<Rightarrow> bool" where
  "redis_held V c i st \<longleftrightarrow> stays_until (REDIS_REPLAY_PREFIX @ i) (c + 300) (V (snd st))"

lemma stays_until_kept: "key_kept k d d' \<Longrightarrow> rk_clock d' < t \<Longrightarrow> stays_until k t d \<Longrightarrow> stays_until k t d'"
  by (auto simp: key_kept_def stays_until_def deadline_at_def)

text \<open>A request that keeps the replay keys keeps the claims.\<close>

lemma kept_claims:
  assumes "\<And>i. key_kept (REDIS_REPLAY_PREFIX @ i) (V r) (V r')"
  shows "keeps_claims (redis_remembers V c) (redis_during V c) (redis_held V c) (s, r) (s, r')"
proof -
  have "rk_clock (V r) \<le> rk_clock (V r')" using assms by (simp add: key_kept_def)
  then show ?thesis using stays_until_kept[OF assms]
    by (cases s) (auto simp: keeps_claims_def redis_during_def redis_held_def)
qed

lemma step_claims:
  assumes "redis_documented R V" "\<And>i. \<not> writes_key C op (REDIS_REPLAY_PREFIX @ i)"
  shows "keeps_claims (redis_remembers V c) (redis_during V c) (redis_held V c) (s, r) (s, replica_step C R r op)"
  by (rule kept_claims) (rule step_keeps_other_keys[OF assms(1) assms(2)])

lemma same_server:
  "keeps_claims (redis_remembers V c) (redis_during V c) (redis_held V c) (MemoryStore s, r) (MemoryStore s', r)"
  by (simp add: keeps_claims_def redis_during_def redis_held_def)

lemma claim_keeps_key:
  fixes i :: string and ttl now :: u64
  assumes R: "redis_documented R V" and r': "r' = snd (redis_claim_payment R i ttl now r)"
  shows "rk_clock (V r) \<le> rk_clock (V r')"
    "rk_clock (V r') < t \<Longrightarrow> stays_until (REDIS_REPLAY_PREFIX @ i) t (V r) \<Longrightarrow>
       stays_until (REDIS_REPLAY_PREFIX @ i) t (V r')"
proof -
  let ?k = "REDIS_REPLAY_PREFIX @ i" and ?c = "CLAIM_SCRIPT R (REDIS_REPLAY_PREFIX @ i) (show_u64 now) (uint ttl)"
  obtain l r0 where l: "rd_link R r = (l, r0)" by fastforce
  then have k: "key_kept ?k (V r) (V r0)" using redis_documentedD(1)[OF R, of ?k r] by simp
  have r': "r' = (case l of NotSent e \<Rightarrow> r0 | _ \<Rightarrow> snd (?c r0))"
    unfolding r' snd_redis_ops round_trip_def l by (cases l) auto
  obtain x r1 where x: "?c r0 = (x, r1)" by fastforce
  from claim_script_effect[OF R x] have c: "rk_clock (V r1) = rk_clock (V r0)" "rk_keys (V r0) ?k \<noteq> None \<longrightarrow> V r1 = V r0"
    by auto
  from k c(1) r' x show "rk_clock (V r) \<le> rk_clock (V r')" by (cases l) (simp_all add: key_kept_def)
  assume "rk_clock (V r') < t" "stays_until ?k t (V r)"
  moreover from this(1) have "rk_clock (V r0) < t" using c(1) r' x by (cases l) simp_all
  ultimately have s: "stays_until ?k t (V r0)" using stays_until_kept[OF k] by simp
  then have "V r1 = V r0" using c(2) by (auto simp: stays_until_def deadline_at_def Option.bind_eq_Some_conv)
  with s r' x show "stays_until ?k t (V r')" by (cases l) simp_all
qed

lemma fresh_claim_stays:
  assumes R: "redis_documented R V" and c: "redis_claim_payment R i ttl now r = (Fresh, r1)" "300 \<le> ttl"
    and t: "t \<le> rk_clock (V r) + 300" "rk_clock (V r1) < t"
  shows "\<not> stays_until (REDIS_REPLAY_PREFIX @ i) t (V r)" "stays_until (REDIS_REPLAY_PREFIX @ i) t (V r1)"
proof -
  have "unat (300 :: u64) \<le> unat ttl" using c(2) by (simp only: word_le_nat_alt)
  then have "300 \<le> unat ttl" by simp
  with redis_claim_fresh(1,2)[OF R c(1)] t(1) show "stays_until (REDIS_REPLAY_PREFIX @ i) t (V r1)"
    by (auto simp: held_until_def stays_until_def)
  show "\<not> stays_until (REDIS_REPLAY_PREFIX @ i) t (V r)"
  proof
    assume "stays_until (REDIS_REPLAY_PREFIX @ i) t (V r)"
    then obtain t' where "held_until i t' (V r)" "t \<le> t'"
      by (auto simp: stays_until_def held_until_def deadline_at_def Option.bind_eq_Some_conv)
    with redis_claim_fresh(3)[OF R c(1)] t(2) show False by fastforce
  qed
qed

lemma redis_claim_cache:
  fixes R :: "'r redis"
  assumes R: "redis_documented R V"
  shows "claim_cache R (redis_remembers V c) (redis_during V c) (redis_held V c) (\<lambda>_. True)"
proof
  fix i :: string and ttl now :: u64 and st st' :: "SessionStore \<times> 'r" and cl
  assume cl: "store_claim_payment R i ttl now st = (cl, st')"
  show "keeps_claims (redis_remembers V c) (redis_during V c) (redis_held V c) st st'"
  proof (cases "(V, c, st)" rule: redis_remembers.cases)
    case (1 V' c' s r)
    with cl same_server show ?thesis by (auto split: prod.splits)
  next
    case (2 V' c' s r)
    with cl have st: "st = (RedisStore s, r)" "st' = (RedisStore s, snd (redis_claim_payment R i ttl now r))"
      by (auto split: prod.splits)
    have other: "key_kept (REDIS_REPLAY_PREFIX @ j) (V r) (V (snd (redis_claim_payment R i ttl now r)))" if "j \<noteq> i" for j
      using step_keeps_other_keys[OF R, of undefined "Serve s (Claim i ttl now)" "REDIS_REPLAY_PREFIX @ j" r] that by simp
    note own = claim_keeps_key[OF R refl, where r = r and i = i and ttl = ttl and now = now]
    have "stays_until (REDIS_REPLAY_PREFIX @ j) t (V r) \<Longrightarrow> rk_clock (V (snd (redis_claim_payment R i ttl now r))) < t \<Longrightarrow>
        stays_until (REDIS_REPLAY_PREFIX @ j) t (V (snd (redis_claim_payment R i ttl now r)))" for j t
      using stays_until_kept[OF other] own(2) by (cases "j = i") auto
    with own(1) st show ?thesis by (auto simp: keeps_claims_def redis_during_def redis_held_def)
  qed
next
  fix i :: string and ttl now :: u64 and st st' :: "SessionStore \<times> 'r"
  assume cl: "store_claim_payment R i ttl now st = (Fresh, st')" "300 \<le> ttl" "redis_during V c st'" "redis_remembers V c st"
  then obtain s r where st: "st = (RedisStore s, r)" by (cases "(V, c, st)" rule: redis_remembers.cases) auto
  with cl(1) obtain r1 where r1: "redis_claim_payment R i ttl now r = (Fresh, r1)" "st' = (RedisStore s, r1)"
    by (auto split: prod.splits)
  with fresh_claim_stays[OF R r1(1) cl(2), of "c + 300"] cl(3,4) st
  show "\<not> redis_held V c i st \<and> redis_held V c i st'" by (simp add: redis_held_def redis_during_def)
next
  fix i :: string and st :: "SessionStore \<times> 'r"
  assume d: "redis_during V c (store_release_payment R i st)"
  show "redis_during V c st \<and> (redis_remembers V c st \<longrightarrow> redis_remembers V c (store_release_payment R i st) \<and>
      (\<forall>j. j \<noteq> i \<longrightarrow> redis_held V c j st \<longrightarrow> redis_held V c j (store_release_payment R i st)))"
  proof (cases "(V, c, st)" rule: redis_remembers.cases)
    case (2 V' c' s r)
    have k: "key_kept (REDIS_REPLAY_PREFIX @ j) (V r) (V (redis_release_payment R i r))" if "j \<noteq> i" for j
      using step_keeps_other_keys[OF R, of undefined "Serve s (Release i)" "REDIS_REPLAY_PREFIX @ j" r] that by simp
    have "rk_clock (V r) \<le> rk_clock (V (redis_release_payment R i r))"
      using step_clock[OF R, of r undefined "Serve s (Release i)"] by simp
    with 2 d stays_until_kept[OF k] show ?thesis by (auto simp: redis_during_def redis_held_def)
  qed (use d in \<open>simp add: redis_during_def\<close>)
next
  fix C token policy now and st st' :: "SessionStore \<times> 'r" and oc
  assume "store_consume C R token policy now st = (oc, st')"
  then show "keeps_claims (redis_remembers V c) (redis_during V c) (redis_held V c) st st'"
  proof (cases "(V, c, st)" rule: redis_remembers.cases)
    case (2 V' c' s r)
    assume "store_consume C R token policy now st = (oc, st')"
    with 2 have "st = (RedisStore s, r)" "st' = (RedisStore s, replica_step C R r (Serve s (Consume token policy now)))"
      by (auto split: prod.splits)
    with step_claims[OF R, of C "Serve s (Consume token policy now)"] show ?thesis by (simp split: sum.split)
  qed (auto split: prod.splits simp: same_server)
next
  fix C raw payer policy quota t now and st st' :: "SessionStore \<times> 'r" and res
  assume "store_create_session C R raw payer policy quota t now st = (res, st')"
  then show "keeps_claims (redis_remembers V c) (redis_during V c) (redis_held V c) st st'"
  proof (cases "(V, c, st)" rule: redis_remembers.cases)
    case (2 V' c' s r)
    assume "store_create_session C R raw payer policy quota t now st = (res, st')"
    with 2 have "st = (RedisStore s, r)" "st' = (RedisStore s, replica_step C R r (Serve s (Create raw payer policy quota t now)))"
      by (auto split: prod.splits)
    with step_claims[OF R, of C "Serve s (Create raw payer policy quota t now)"] show ?thesis by simp
  qed (auto split: prod.splits simp: same_server)
next
  fix label ip m w now l and r r' :: 'r and a l' s
  assume "limiter_check R label ip m w now (l, r) = Some (a, l', r')"
  then have "r' = r \<or> r' = replica_step undefined R r (Meter label ip m w now)" by (cases l) auto
  with step_claims[OF R, of undefined "Meter label ip m w now"]
  show "keeps_claims (redis_remembers V c) (redis_during V c) (redis_held V c) (s, r) (s, r')"
    by (elim disjE) (simp_all del: replica_step.simps)
next
  fix now s n s' and r :: 'r
  assume "store_cleanup_expired now s = (n, s')"
  then show "keeps_claims (redis_remembers V c) (redis_during V c) (redis_held V c) (s, r) (s', r)"
    by (cases s) (auto simp: same_server split: prod.splits)
qed

section \<open>The invariant of the fleet\<close>

locale documented_server =
  fixes R :: "'r redis" and V :: "'r \<Rightarrow> redis_data"
  assumes documented: "redis_documented R V"

sublocale documented_server \<subseteq> claims: claim_cache R "redis_remembers V c" "redis_during V c" "redis_held V c" "\<lambda>_. True"
  for c
  by (rule redis_claim_cache[OF documented])

interpretation live: documented_server live_redis id
  by unfold_locales (rule live_redis_documented)

context documented_server
begin

definition fleet_single_spend :: "nat \<Rightarrow> wire \<Rightarrow> string \<Rightarrow> ('n \<times> node_call list, 'r) fleet \<Rightarrow> bool" where
  "fleet_single_spend c W pid f \<longleftrightarrow> (\<forall>i. claims.single_spend c W pid (sv_app (replica f i)) (fleet_streams f))"

text \<open>What one replica keeps, its neighbours see: they share the server and the node.\<close>

lemma neighbour_single_spend:
  assumes "claims.single_spend c W pid app streams" "ap_node app' = ap_node app" "ap_redis app' = ap_redis app"
    "redis_during V c (cache_of app) \<Longrightarrow> redis_remembers V c (cache_of app) \<Longrightarrow> redis_remembers V c (cache_of app')"
  shows "claims.single_spend c W pid app' streams"
  using assms by (auto simp: claims.single_spend_def settlements_def cache_of_def redis_during_def redis_held_def)

lemma fleet_step_single_spend:
  assumes "pf_redis P = R" "fleet_step hv P i e f = Some f'" "pf_node P = logged N" "W = pf_wire P"
    "fleet_single_spend c W pid f"
  shows "fleet_single_spend c W pid f'"
proof -
  let ?s = "replica f i"
  obtain s where s: "service_step hv P e ?s = Some s"
    "f' = \<lparr>fl_replicas = (fl_replicas f)(i := s), fl_node = ap_node (sv_app s), fl_redis = ap_redis (sv_app s)\<rparr>"
    using assms(2) by (auto simp: fleet_step_def)
  have spend: "claims.single_spend c W pid (sv_app (replica f j)) (fleet_streams f)" for j
    using assms(5) by (simp add: fleet_single_spend_def)
  have streams: "sv_streams ?s k = fleet_streams f (i, k)" for k by (simp add: replica_def fleet_streams_def)
  have "\<forall>k. keyed W (ss_pending (sv_streams ?s k))" using spend unfolding claims.single_spend_def streams by blast
  from claims.service_step_goes[OF assms(1) s(1) assms(3,4) _ this, of c pid]
  obtain k where k: "\<forall>j. j \<noteq> k \<longrightarrow> sv_streams s j = sv_streams ?s j" "keyed W (ss_pending (sv_streams s k))"
    "claims.goes c W pid (sv_app ?s) (awaited pid (ss_pending (sv_streams ?s k))) (sv_app s) (awaited pid (ss_pending (sv_streams s k)))"
    by auto
  have f': "fleet_streams f' = (fleet_streams f)((i, k) := sv_streams s k)"
    using k(1) s(2) by (auto simp: fleet_streams_def replica_def fun_eq_iff)
  have own: "claims.single_spend c W pid (sv_app s) (fleet_streams f')"
    unfolding f' using claims.single_spend_goes[OF spend k(2)] k(3) streams by simp
  have "claims.single_spend c W pid (sv_app (replica f' j)) (fleet_streams f')" for j
  proof (rule neighbour_single_spend[OF own])
    show "ap_node (sv_app (replica f' j)) = ap_node (sv_app s)" "ap_redis (sv_app (replica f' j)) = ap_redis (sv_app s)"
      using s(2) by (simp_all add: replica_def)
    assume d: "redis_during V c (cache_of (sv_app s))" and r: "redis_remembers V c (cache_of (sv_app s))"
    then have "redis_during V c (cache_of (sv_app ?s))" using k(3) by (simp add: claims.goes_def)
    then have "redis_during V c (cache_of (sv_app (replica f j)))"
      by (simp add: redis_during_def cache_of_def replica_def)
    then have "redis_remembers V c (cache_of (sv_app (replica f j)))" using spend[of j] by (simp add: claims.single_spend_def)
    with r s(2) show "redis_remembers V c (cache_of (sv_app (replica f' j)))"
      by (cases "ap_sessions (sv_app (fl_replicas f j))"; cases "ap_sessions (sv_app s)")
        (auto simp: cache_of_def replica_def)
  qed
  then show ?thesis by (simp add: fleet_single_spend_def)
qed

lemma serve_fleet_single_spend:
  assumes "pf_redis P = R" "pf_node P = logged N" "W = pf_wire P"
  shows "serve_fleet hv P es f = Some f' \<Longrightarrow> fleet_single_spend c W pid f \<Longrightarrow> fleet_single_spend c W pid f'"
proof (induction es arbitrary: f)
  case (Cons x es)
  obtain i e where x: "x = (i, e)" by (cases x)
  with Cons.prems(1) obtain f1 where "fleet_step hv P i e f = Some f1" "serve_fleet hv P es f1 = Some f'"
    by (auto split: option.splits)
  with Cons fleet_step_single_spend[OF assms(1) _ assms(2,3)] show ?case by blast
qed simp

lemma fleet_settles_once:
  assumes "pf_redis P = R" "pf_node P = logged N"
    and "serve_fleet hv P events (deployed apps node redis) = Some f"
    and "\<forall>i. \<exists>s. ap_sessions (apps i) = RedisStore s" "snd node = []"
    and "rk_clock (V (fl_redis f)) < rk_clock (V redis) + 300"
  shows "length (filter (settles (pf_wire P) pid) (snd (fl_node f))) \<le> 1"
proof -
  let ?c = "rk_clock (V redis)"
  have "redis_remembers V ?c (cache_of (sv_app (replica (deployed apps node redis) i)))" for i
    using assms(4) by (auto simp: replica_def deployed_def started_def cache_of_def dest!: spec[of _ i])
  then have "fleet_single_spend ?c (pf_wire P) pid (deployed apps node redis)"
    unfolding fleet_single_spend_def using assms(5)
    by (auto intro!: claims.single_spend_start simp: replica_def deployed_def started_def fleet_streams_def stream_default_def)
  from serve_fleet_single_spend[OF assms(1,2) refl assms(3) this]
  have "claims.single_spend ?c (pf_wire P) pid (sv_app (replica f 0)) (fleet_streams f)" by (simp add: fleet_single_spend_def)
  from claims.single_spend_count[OF this] assms(6) show ?thesis
    by (simp add: redis_during_def cache_of_def replica_def)
qed

end

section \<open>Properties\<close>

text \<open>C2: over Redis a payment is charged once by the whole fleet. Any number of replicas share the
  server and the node; each serves ext_authz checks, ext_proc streams and the facilitator API, and
  may have its own configuration. Whatever requests reach whichever replica, in whatever order,
  with streams that break off, replies of Redis lost and its commands failing, whatever the clocks
  of the replicas say and whatever the node answers: while less than 300 seconds pass on the
  server's clock, the node accepts at most one execution of a transaction. It is assumed that the
  server does what is documented and that no stream waits for a settlement at the start.\<close>

theorem fleet_settles_at_most_once:
  assumes "redis_documented R V"
    and "serve_fleet hv (P\<lparr>pf_node := logged N, pf_redis := R\<rparr>) events (deployed apps node redis) = Some fleet"
    and "\<forall>i. \<exists>s. ap_sessions (apps i) = RedisStore s" "snd node = []"
    and "rk_clock (V (fl_redis fleet)) < rk_clock (V redis) + 300"
  shows "length (filter (settles (pf_wire P) pid) (snd (fl_node fleet))) \<le> 1"
  using documented_server.fleet_settles_once[OF documented_server.intro[OF assms(1)] _ _ assms(2-5), of N pid] by simp

text \<open>
  Two replicas are shown the same payment; the first claims it, the second is refused, and the
  upstream of the first answers with 200.
\<close>

definition fleet_platform :: "(unit \<times> node_call list, redis_data) platform" where
  "fleet_platform = \<lparr>pf_node = logged demo_node, pf_wire = demo_wire, pf_redis = live_redis\<rparr>"

definition fleet_app :: "(unit \<times> node_call list, redis_data) App" where
  "fleet_app =
     \<lparr>ap_config = demo_config, ap_breaker = breaker_new, ap_sessions = RedisStore demo_redis_store,
      ap_limiter = RedisLimiter, ap_facilitator = demo_facilitator, ap_node = ((), []), ap_redis = empty_redis\<rparr>"

definition demo_claimed :: redis_data where
  "demo_claimed = snd (redis_claim_payment live_redis (hex_enc ''tx'') (replay_ttl (pr_max_timeout_seconds demo_requirements))
     1000 empty_redis)"

abbreviation demo_pending :: StreamState where
  "demo_pending \<equiv> stream_default\<lparr>ss_pending := Some \<lparr>pn_payload = demo_payload ''tx'', pn_requirements = demo_requirements,
     pn_payment_id = Some (hex_enc ''tx'')\<rparr>, ss_decide_ms := ''1.0''\<rparr>"

lemma demo_replay_ttl: "0 < replay_ttl w"
  using replay_ttl_at_least[of w] by (rule less_le_trans[rotated]) simp

lemma demo_redis_claims:
  "redis_claim_payment live_redis (hex_enc ''tx'') (replay_ttl (pr_max_timeout_seconds demo_requirements)) 1000 empty_redis =
     (Fresh, demo_claimed)"
  "redis_claim_payment live_redis (hex_enc ''tx'') (replay_ttl (pr_max_timeout_seconds demo_requirements)) 1000 demo_claimed =
     (PaymentClaim.Replay 1000, demo_claimed)"
  "rk_clock demo_claimed = 0"
proof -
  have t: "parse_u64 (show_nat 1000) = Some 1000" using parse_u64_show_u64[of 1000] by simp
  have w: "0 < uint (replay_ttl w)" for w using demo_replay_ttl[of w] by (simp add: word_less_def)
  note d = demo_claimed_def redis_claim_payment_def round_trip_def CLAIM_SCRIPT_def eff_bind_def eff_return_def
    live_redis_def empty_redis_def string_at_def
  show "redis_claim_payment live_redis (hex_enc ''tx'') (replay_ttl (pr_max_timeout_seconds demo_requirements)) 1000 empty_redis =
     (Fresh, demo_claimed)"
    "redis_claim_payment live_redis (hex_enc ''tx'') (replay_ttl (pr_max_timeout_seconds demo_requirements)) 1000 demo_claimed =
     (PaymentClaim.Replay 1000, demo_claimed)"
    "rk_clock demo_claimed = 0"
    by (simp_all add: d t w)
qed

lemma demo_fleet_request:
  assumes "redis_claim_payment live_redis (hex_enc ''tx'') (replay_ttl (pr_max_timeout_seconds demo_requirements)) 1000 r = (c, demo_claimed)"
    "c = Fresh \<or> c = PaymentClaim.Replay 1000"
  shows "\<exists>reply ss app1. handle_request_headers fleet_platform demo_moments stream_default paid_headers None None
      (fleet_app\<lparr>ap_node := ((), past), ap_redis := r\<rparr>) = Some (reply, ss, app1) \<and>
     (c = Fresh \<longrightarrow> ss = demo_pending \<and> ap_node app1 = ((), past @ demo_checks)) \<and>
     (c \<noteq> Fresh \<longrightarrow> ap_node app1 = ((), past)) \<and> ap_redis app1 = demo_claimed \<and>
     ap_config app1 = demo_config \<and> ap_facilitator app1 = demo_facilitator \<and> ap_sessions app1 = RedisStore demo_redis_store"
proof -
  note p = demo_presented[of "''tx''", simplified demo_trims, simplified, unfolded demo_platform_def, simplified]
  have b: "fst (state_at breaker_new l t) = Closed" for l t
    by (simp add: state_at_def window_of_def breaker_new_def window_state_at_def default_window_def)
  have pid: "payment_id demo_wire (demo_payload ''tx'') = Some (hex_enc ''tx'')"
    by (simp add: payment_id_def demo_wire_def demo_payload_def demo_crypto_def)
  have tm: "tm_requirements (resolve_terms demo_config [] None url) = demo_requirements" for url
    by (simp add: resolve_terms_def Let_def demo_root_terms)
  show ?thesis
    using b[of "''default''" 1000] p assms
    by (auto simp: handle_request_headers_def fleet_platform_def demo_header_maps Let_def fleet_app_def split_beta
        breaker_label_def DEFAULT_POLICY_LABEL_def demo_moments_def decider_decide_def decide_eq session_stage_def
        payment_stage_def claim_stage_def claim_error_def pid tm on_sessions_def verify_deferred_def
        on_node_def demo_facilitator_verify stream_default_def payment_rejected_def)
qed

text \<open>A server whose clock stands still keeps it still through a sale.\<close>

lemma live_sale_clock: "rk_clock (snd (redis_create_session C live_redis raw s payer policy quota ttl now r)) = rk_clock r"
proof -
  let ?k = "redis_key (new_session_id C raw)"
  have "[] \<noteq> ?k" by (simp add: redis_key_def redis_prefixes)
  from spares_create[OF live_redis_documented this] have
    "spares id [] (pipe_atomic [rd_hset live_redis ?k ''payer'' payer, rd_hset live_redis ?k ''quota'' (show_u64 quota),
      rd_hset live_redis ?k ''granted'' (show_u64 quota), rd_hset live_redis ?k ''policy'' (case policy of None \<Rightarrow> [] | Some p \<Rightarrow> p),
      rd_expire live_redis ?k (sint ttl)])" .
  moreover have "rd_link live_redis r = (Answered, r)" by (simp add: live_redis_def)
  ultimately show ?thesis
    by (simp add: redis_create_session_def Let_def snd_eff_bind_return round_trip_def spares_def del: pipe_atomic.simps)
qed

lemma live_mint_clock:
  "mint_session P mo policy tier payer app = (token, app') \<Longrightarrow> pf_redis P = live_redis \<Longrightarrow> ap_sessions app = RedisStore s \<Longrightarrow>
   rk_clock (ap_redis app') = rk_clock (ap_redis app)"
  by (auto simp: mint_session_def on_sessions_def Let_def split: option.splits prod.splits)
    (metis live_sale_clock snd_conv)+

lemma demo_fleet_response:
  assumes "ap_node app = ((), demo_checks)" "ap_config app = demo_config" "ap_facilitator app = demo_facilitator"
    "ap_sessions app = RedisStore s"
  shows "\<exists>reply app'. handle_response_headers fleet_platform demo_moments demo_pending ok_headers app =
      (reply, demo_pending\<lparr>ss_pending := None\<rparr>, app') \<and>
    ap_node app' = ((), demo_checks @ demo_checks @ [ExecuteCall ''tx'' ''sig'' (Inr (Some demo_executed))]) \<and>
    rk_clock (ap_redis app') = rk_clock (ap_redis app)"
proof -
  have s200: "is_success ''200''"
    by (simp add: is_success_def parse_unsigned_def parse_digits_def digits_value_def is_digit_def)
  obtain reply app' where h: "settle_pending fleet_platform demo_moments demo_pending
      (the (ss_pending demo_pending)) app = (reply, app')" by fastforce
  have "ap_node app' = ((), demo_checks @ demo_checks @ [ExecuteCall ''tx'' ''sig'' (Inr (Some demo_executed))]) \<and>
    rk_clock (ap_redis app') = rk_clock (ap_redis app)"
    using h assms by (auto simp: settle_pending_def on_node_def fleet_platform_def demo_settle Let_def split: prod.splits
        dest: mint_session_node live_mint_clock)
  with h show ?thesis
    by (simp add: handle_response_headers_def Let_def s200 demo_header_maps fleet_platform_def[THEN arg_cong[where f = pf_wire]])
qed

lemma demo_requests_message:
  "process_message fleet_platform demo_moments \<lparr>pq_attributes = [], pq_phase = RequestHeaders paid_headers\<rparr> ss app =
     handle_request_headers fleet_platform demo_moments ss paid_headers None None app"
  "process_message fleet_platform demo_moments \<lparr>pq_attributes = [], pq_phase = ResponseHeaders ok_headers\<rparr> ss app =
     (let (reply, ss', app') = handle_response_headers fleet_platform demo_moments ss ok_headers app in Some (reply, ss', app'))"
  by (simp_all add: process_message_def client_ip_from_attributes_def policy_from_attributes_def string_attribute_def)

definition demo_events :: "(nat \<times> event) list" where
  "demo_events =
     [(0, StreamMessage 0 demo_moments \<lparr>pq_attributes = [], pq_phase = RequestHeaders paid_headers\<rparr>),
      (1, StreamMessage 0 demo_moments \<lparr>pq_attributes = [], pq_phase = RequestHeaders paid_headers\<rparr>),
      (0, StreamMessage 0 demo_moments \<lparr>pq_attributes = [], pq_phase = ResponseHeaders ok_headers\<rparr>)]"

lemma demo_fleet:
  "\<exists>f. serve_fleet (\<lambda>_. True) fleet_platform demo_events (deployed (\<lambda>_. fleet_app) ((), []) empty_redis) = Some f \<and>
     fl_node f = ((), demo_checks @ demo_checks @ [ExecuteCall ''tx'' ''sig'' (Inr (Some demo_executed))]) \<and>
     rk_clock (fl_redis f) = 0"
proof -
  have app: "fleet_app\<lparr>ap_node := ((), []), ap_redis := empty_redis\<rparr> = fleet_app" by (simp add: fleet_app_def)
  obtain reply app1 where 1: "handle_request_headers fleet_platform demo_moments stream_default paid_headers None None fleet_app =
      Some (reply, demo_pending, app1)" "ap_node app1 = ((), demo_checks)" "ap_redis app1 = demo_claimed"
      "ap_config app1 = demo_config" "ap_facilitator app1 = demo_facilitator" "ap_sessions app1 = RedisStore demo_redis_store"
    using demo_fleet_request[OF demo_redis_claims(1), where past = "[]"] app by auto
  obtain reply2 ss2 app2 where 2: "handle_request_headers fleet_platform demo_moments stream_default paid_headers None None
      (fleet_app\<lparr>ap_node := ((), demo_checks), ap_redis := demo_claimed\<rparr>) = Some (reply2, ss2, app2)"
      "ap_node app2 = ((), demo_checks)" "ap_redis app2 = demo_claimed"
    using demo_fleet_request[OF demo_redis_claims(2), where past = demo_checks] by auto
  obtain reply3 app3 where 3: "handle_response_headers fleet_platform demo_moments demo_pending ok_headers
      (app1\<lparr>ap_node := ((), demo_checks), ap_redis := demo_claimed\<rparr>) = (reply3, demo_pending\<lparr>ss_pending := None\<rparr>, app3)"
      "ap_node app3 = ((), demo_checks @ demo_checks @ [ExecuteCall ''tx'' ''sig'' (Inr (Some demo_executed))])"
      "rk_clock (ap_redis app3) = 0"
    using demo_fleet_response[of "app1\<lparr>ap_node := ((), demo_checks), ap_redis := demo_claimed\<rparr>" demo_redis_store] 1 demo_redis_claims(3)
    by auto
  show ?thesis
    using 1 2 3 by (simp add: demo_events_def fleet_step_def deployed_def replica_def started_def service_step_def
        demo_requests_message app)
qed

theorem fleet_settles_at_most_once_witness:
  "length (filter (settles demo_wire (hex_enc ''tx''))
     (demo_checks @ demo_checks @ [ExecuteCall ''tx'' ''sig'' (Inr (Some demo_executed))])) \<le> 1"
proof -
  have p: "fleet_platform\<lparr>pf_node := logged demo_node, pf_redis := live_redis\<rparr> = fleet_platform" "pf_wire fleet_platform = demo_wire"
    by (simp_all add: fleet_platform_def)
  obtain f where f: "serve_fleet (\<lambda>_. True) (fleet_platform\<lparr>pf_node := logged demo_node, pf_redis := live_redis\<rparr>) demo_events
      (deployed (\<lambda>_. fleet_app) ((), []) empty_redis) = Some f"
    "fl_node f = ((), demo_checks @ demo_checks @ [ExecuteCall ''tx'' ''sig'' (Inr (Some demo_executed))])"
    "rk_clock (fl_redis f) = 0"
    using demo_fleet p by auto
  have s: "\<forall>i :: nat. \<exists>s. ap_sessions fleet_app = RedisStore s" by (simp add: fleet_app_def)
  have n: "snd ((), []) = []" by simp
  have c: "rk_clock (id (fl_redis f)) < rk_clock (id empty_redis) + 300" using f(3) by simp
  from fleet_settles_at_most_once[OF live_redis_documented f(1) s n c, of "hex_enc ''tx''"] f(2) p(2) show ?thesis by simp
qed

end
