(* ===== verification/PayClient.thy ===== *)
theory PayClient
  imports Facilitator
begin

text \<open>
  The payment client (src/payclient.rs): choosing how to fund a payment, building and signing it,
  presenting it to a gateway and reading the reply.

  The Sui SDK (transaction builder, keys, BCS), the client's fullnode, reqwest and the file system
  are outside: \<open>sdk\<close> and \<open>client_io\<close> are their interfaces, over a world of any type \<open>'w\<close>. The transaction
  builder is what the code tells it: a list of calls, whose results later calls name by position.
  An \<open>anyhow\<close> error is its chain of messages, the outermost first (without the cause of an amount that is
  not a number).
\<close>

section \<open>Errors\<close>

type_synonym anyhow = "string list"

definition context_of :: "string \<Rightarrow> ('w, anyhow, 'a) eff \<Rightarrow> ('w, anyhow, 'a) eff" where
  "context_of message m = eff_map_err (\<lambda>chain. message # chain) m"

section \<open>Funding paths\<close>

definition GAS_BUDGET :: u64 where "GAS_BUDGET = 10000000"
definition GASLESS_MINIMUM :: u64 where "GASLESS_MINIMUM = 10000"

datatype PaymentPath = Gasless | Sponsored | CoinObject

fun path_name :: "PaymentPath \<Rightarrow> string" where
  "path_name Gasless = ''gasless''"
| "path_name Sponsored = ''sponsored''"
| "path_name CoinObject = ''coin-object''"

definition parse_path :: "(string \<Rightarrow> string) \<Rightarrow> string \<Rightarrow> anyhow + PaymentPath" where
  "parse_path fmt p =
     (if p = ''gasless'' then Inr Gasless
      else if p = ''sponsored'' then Inr Sponsored
      else if p = ''coin-object'' \<or> p = ''coin_object'' then Inr CoinObject
      else Inl [''unknown payment path '' @ fmt p @ ''; expected gasless, sponsored or coin-object''])"

text \<open>\<open>collect::<Result<Vec<_>>>\<close>: the first error, or all the values.\<close>

fun collect_ok :: "('e + 'a) list \<Rightarrow> 'e + 'a list" where
  "collect_ok [] = Inr []"
| "collect_ok (x # xs) = and_then x (\<lambda>a. and_then (collect_ok xs) (\<lambda>as. Inr (a # as)))"

definition parse_list :: "(string \<Rightarrow> string) \<Rightarrow> string \<Rightarrow> anyhow + PaymentPath list" where
  "parse_list fmt s = collect_ok (map (parse_path fmt) (filter (\<lambda>p. p \<noteq> []) (map trim (split_on CHR '','' s))))"

definition DEFAULT_PAYMENT_PATHS :: "PaymentPath list" where
  "DEFAULT_PAYMENT_PATHS = [Gasless, Sponsored, CoinObject]"

datatype Skipped =
    BelowGaslessFloor u64 u64
  | AddressBalanceShort u64 u64
  | NoGasStationAdvertised
  | SponsorshipNotImplemented
  | CoinObjectsShort u64 u64

text \<open>The dash of a message, in UTF-8.\<close>

definition EM_DASH :: string where "EM_DASH = [CHR 0xE2, CHR 0x80, CHR 0x94]"

fun skipped_display :: "Skipped \<Rightarrow> string" where
  "skipped_display (BelowGaslessFloor amount floor) =
     ''price '' @ show_u64 amount @ '' is below the gasless floor of '' @ show_u64 floor @
     ''; Sui will not execute a gasless transfer that small''"
| "skipped_display (AddressBalanceShort held need) =
     ''address balance holds '' @ show_u64 held @ '', needs '' @ show_u64 need @
     ''. Coin objects do not count '' @ EM_DASH @ '' move funds across once with `0x2::coin::send_funds` (costs gas once)''"
| "skipped_display NoGasStationAdvertised = ''the server advertised no extra.gasStation''"
| "skipped_display SponsorshipNotImplemented =
     ''a gas station was advertised but the interactive sponsorship protocol is not implemented here''"
| "skipped_display (CoinObjectsShort held need) =
     ''Coin objects hold '' @ show_u64 held @ '', needs '' @ show_u64 need"

record Funding =
  address_balance :: u64
  coin_balance :: u64

definition path_check :: "PaymentPath \<Rightarrow> u64 \<Rightarrow> Funding \<Rightarrow> string option \<Rightarrow> Skipped option" where
  "path_check path amount funds gas_station =
     (case path of
        Gasless \<Rightarrow>
          if amount < GASLESS_MINIMUM then Some (BelowGaslessFloor amount GASLESS_MINIMUM)
          else if address_balance funds < amount then Some (AddressBalanceShort (address_balance funds) amount)
          else None
      | Sponsored \<Rightarrow> Some (case gas_station of None \<Rightarrow> NoGasStationAdvertised | Some _ \<Rightarrow> SponsorshipNotImplemented)
      | CoinObject \<Rightarrow>
          if coin_balance funds < amount then Some (CoinObjectsShort (coin_balance funds) amount)
          else None)"

text \<open>\<open>{:<12}\<close>: padded with spaces on the right.\<close>

definition pad_right :: "nat \<Rightarrow> string \<Rightarrow> string" where
  "pad_right n s = s @ replicate (n - length s) CHR '' ''"

definition no_path_available :: "string \<Rightarrow> u64 \<Rightarrow> Funding \<Rightarrow> (PaymentPath \<times> Skipped) list \<Rightarrow> string" where
  "no_path_available asset amount funds skipped =
     ''no usable payment path for '' @ show_u64 amount @ '' of '' @ asset @ ''. Holdings: '' @
     show_u64 (address_balance funds) @ '' in the address balance, '' @ show_u64 (coin_balance funds) @
     '' in Coin objects.'' @
     concat (map (\<lambda>(path, why). CHR 0x0A # ''  '' @ pad_right 12 (path_name path) @ '' '' @ skipped_display why) skipped) @
     (if address_balance funds = 0 \<and> coin_balance funds = 0
      then CHR 0x0A # ''  This address holds none of this coin. Fund it at https://faucet.circle.com (Sui Testnet).''
      else [])"

section \<open>The outside of the client\<close>

record ObjectInput =
  oi_id :: string
  oi_version :: u64
  oi_digest :: string

record Balance =
  bl_balance :: "u64 option"
  bl_address_balance :: "u64 option"
  bl_coin_balance :: "u64 option"

record OwnedObject =
  oo_object_id :: "string option"
  oo_version :: "u64 option"
  oo_digest :: "string option"
  oo_balance :: "u64 option"

record Epoch =
  ep_epoch :: "u64 option"
  ep_reference_gas_price :: "u64 option"

text \<open>\<open>TransactionExpiration::ValidDuring\<close>; the timestamp bounds are never set.\<close>

record ValidDuring =
  vd_min_epoch :: "u64 option"
  vd_max_epoch :: "u64 option"
  vd_chain :: string
  vd_nonce :: u32

datatype BuilderCall =
    SetSender string
  | SetGasPrice u64
  | SetGasBudget u64
  | AddGasObjects "ObjectInput list"
  | FundsWithdrawalCoin string u64
  | PureAddress string
  | PureU64 u64
  | ObjectArg ObjectInput
  | MoveCall string string string "string list" "nat list"
  | SplitCoins nat "nat list"
  | TransferObjects nat nat
  | SetExpiration ValidDuring

record 't SuiTransaction =
  st_gas_objects :: "ObjectInput list"
  st_rest :: 't

text \<open>
  Addresses, digests and type tags are the texts they display as; parsing one gives that text.
  \<open>'k\<close> is the type of private keys.
\<close>

record ('k, 't) sdk =
  parse_address :: "string \<Rightarrow> string + string"
  parse_digest :: "string \<Rightarrow> string + string"
  parse_type_tag :: "string \<Rightarrow> string + string"
  try_build :: "BuilderCall list \<Rightarrow> string + 't SuiTransaction"
  sign_transaction :: "'k \<Rightarrow> 't SuiTransaction \<Rightarrow> string + bytes"
  bcs_to_bytes :: "'t SuiTransaction \<Rightarrow> string + bytes"
  derive_address :: "'k \<Rightarrow> string"
  from_suiprivkey :: "string \<Rightarrow> string + 'k"
  key_of_bytes :: "bytes \<Rightarrow> 'k"
  keystore_from_str :: "string \<Rightarrow> string + string list"

record HttpRequestOut =
  ho_method :: string
  ho_url :: string
  ho_headers :: "(string \<times> string) list"
  ho_body :: "string option"

record HttpResponseIn =
  hi_status :: u16
  hi_headers :: "(string \<times> bytes) list"
  hi_text :: string

record 'w client_io =
  rpc_connect :: "string \<Rightarrow> ('w, string, unit) eff"
  get_balance :: "string \<Rightarrow> string \<Rightarrow> ('w, string, Balance option) eff"
  list_owned_objects :: "string \<Rightarrow> string \<Rightarrow> ('w, string, OwnedObject list) eff"
  get_epoch :: "('w, string, Epoch option) eff"
  get_service_info :: "('w, string, string option) eff"
  random_u32 :: "'w \<Rightarrow> u32 \<times> 'w"
  http_send :: "HttpRequestOut \<Rightarrow> ('w, string, HttpResponseIn) eff"
  env_var :: "string \<Rightarrow> string option"
  read_file :: "string \<Rightarrow> ('w, string, string) eff"

definition ZERO_ADDRESS :: string where "ZERO_ADDRESS = ''0x'' @ replicate 64 CHR ''0''"
definition SUI_FRAMEWORK :: string where "SUI_FRAMEWORK = ''0x'' @ replicate 63 CHR ''0'' @ ''2''"
definition ZERO_DIGEST :: string where "ZERO_DIGEST = replicate 32 CHR ''1''"

section \<open>Building a payment\<close>

definition funding :: "'w client_io \<Rightarrow> string \<Rightarrow> string \<Rightarrow> string \<Rightarrow> ('w, anyhow, Funding) eff" where
  "funding io rpc owner coin_type =
     eff_bind (context_of ''connecting to the fullnode'' (eff_map_err (\<lambda>e. [e]) (rpc_connect io rpc))) (\<lambda>_.
     eff_bind (context_of ''GetBalance'' (eff_map_err (\<lambda>e. [e]) (get_balance io owner coin_type))) (\<lambda>balance.
     let part = (\<lambda>f. case Option.bind balance f of None \<Rightarrow> 0 | Some v \<Rightarrow> v) in
     eff_return \<lparr>address_balance = part bl_address_balance, coin_balance = part bl_coin_balance\<rparr>))"

definition client_balance :: "'w client_io \<Rightarrow> string \<Rightarrow> string \<Rightarrow> string \<Rightarrow> ('w, anyhow, u64) eff" where
  "client_balance io rpc owner coin_type =
     eff_bind (context_of ''connecting to the fullnode'' (eff_map_err (\<lambda>e. [e]) (rpc_connect io rpc))) (\<lambda>_.
     eff_bind (context_of ''GetBalance'' (eff_map_err (\<lambda>e. [e]) (get_balance io owner coin_type))) (\<lambda>balance.
     eff_return (case Option.bind balance bl_balance of None \<Rightarrow> 0 | Some v \<Rightarrow> v)))"

definition nonce :: "u64 \<Rightarrow> u32 \<Rightarrow> u32" where
  "nonce salt random = xor random (ucast salt)"

definition current_epoch_expiration ::
  "('k, 't) sdk \<Rightarrow> 'w client_io \<Rightarrow> u64 \<Rightarrow> ('w, anyhow, ValidDuring) eff" where
  "current_epoch_expiration K io salt =
     eff_bind (eff_map_err (\<lambda>e. [''GetEpoch: '' @ e]) (get_epoch io)) (\<lambda>epoch.
     eff_bind (eff_lift (ok_or [''node returned no epoch''] (Option.bind epoch ep_epoch))) (\<lambda>epoch_id.
     eff_bind (eff_map_err (\<lambda>e. [''GetServiceInfo: '' @ e]) (get_service_info io)) (\<lambda>chain_id.
     eff_bind (eff_lift (ok_or [''node returned no chain id''] chain_id)) (\<lambda>chain_id.
     eff_bind (eff_lift (case parse_digest K chain_id of Inl e \<Rightarrow> Inl [''chain id is not a digest: '' @ e] | Inr d \<Rightarrow> Inr d)) (\<lambda>chain.
     (\<lambda>w. let (random, w1) = random_u32 io w in
       (Inr \<lparr>vd_min_epoch = Some epoch_id, vd_max_epoch = Some epoch_id, vd_chain = chain,
             vd_nonce = nonce salt random\<rparr>, w1)))))))"

text \<open>What the builder is told on the gasless path; results 4 and 5 are the coin and the recipient.\<close>

definition gasless_calls :: "string \<Rightarrow> string \<Rightarrow> string \<Rightarrow> u64 \<Rightarrow> ValidDuring \<Rightarrow> BuilderCall list" where
  "gasless_calls sender payee coin_type amount expiration =
     [SetSender sender, SetGasPrice 0, SetGasBudget 0,
      AddGasObjects [\<lparr>oi_id = ZERO_ADDRESS, oi_version = 0, oi_digest = ZERO_DIGEST\<rparr>],
      FundsWithdrawalCoin coin_type amount, PureAddress payee,
      MoveCall SUI_FRAMEWORK ''coin'' ''send_funds'' [coin_type] [4, 5],
      SetExpiration expiration]"

definition build_gasless_payment ::
  "wire \<Rightarrow> ('k, 't) sdk \<Rightarrow> 'w client_io \<Rightarrow> string \<Rightarrow> string \<Rightarrow> string \<Rightarrow> string \<Rightarrow> u64
    \<Rightarrow> ('w, anyhow, 't SuiTransaction) eff" where
  "build_gasless_payment W K io rpc sender payee asset amount =
     eff_bind (eff_map_err (\<lambda>e. [e]) (rpc_connect io rpc)) (\<lambda>_.
     eff_bind (context_of (''asset '' @ fmt_debug W asset @ '' is not a Move type tag'')
       (eff_map_err (\<lambda>e. [e]) (eff_lift (parse_type_tag K asset)))) (\<lambda>coin_type.
     eff_bind (current_epoch_expiration K io amount) (\<lambda>expiration.
     eff_bind (eff_lift (case try_build K (gasless_calls sender payee coin_type amount expiration) of
         Inl e \<Rightarrow> Inl [''building the gasless transaction: '' @ e] | Inr t \<Rightarrow> Inr t)) (\<lambda>transaction.
     eff_return (transaction\<lparr>st_gas_objects := []\<rparr>)))))"

record Coin =
  co_id :: string
  co_version :: u64
  co_digest :: string

text \<open>
  The first object that holds enough and is complete. An unreadable id or digest of that object is
  an error, not a reason to look further.
\<close>

fun first_coin :: "('k, 't) sdk \<Rightarrow> anyhow \<Rightarrow> u64 \<Rightarrow> OwnedObject list \<Rightarrow> anyhow + Coin" where
  "first_coin K none at_least [] = Inl none"
| "first_coin K none at_least (object # objects) =
     (if (case oo_balance object of None \<Rightarrow> 0 | Some b \<Rightarrow> b) < at_least then first_coin K none at_least objects
      else
        case (oo_object_id object, oo_version object, oo_digest object) of
          (Some raw_id, Some version, Some raw_digest) \<Rightarrow>
            (case parse_address K raw_id of
               Inl e \<Rightarrow> Inl [''object id: '' @ e]
             | Inr oid \<Rightarrow>
                 (case parse_digest K raw_digest of
                    Inl e \<Rightarrow> Inl [''digest: '' @ e]
                  | Inr digest \<Rightarrow> Inr \<lparr>co_id = oid, co_version = version, co_digest = digest\<rparr>))
        | _ \<Rightarrow> first_coin K none at_least objects)"

definition pick_coin ::
  "('k, 't) sdk \<Rightarrow> 'w client_io \<Rightarrow> string \<Rightarrow> string \<Rightarrow> u64 \<Rightarrow> ('w, anyhow, Coin) eff" where
  "pick_coin K io owner coin_type at_least =
     eff_bind (eff_map_err (\<lambda>e. [''ListOwnedObjects: '' @ e])
       (list_owned_objects io owner (''0x2::coin::Coin<'' @ coin_type @ ''>''))) (\<lambda>objects.
     eff_lift (first_coin K
       [''no '' @ coin_type @ '' coin owned by '' @ owner @ '' holds at least '' @ show_u64 at_least @
        ''. Fund it '' @ EM_DASH @ '' USDC at https://faucet.circle.com (Sui Testnet), SUI via `sui client faucet`.'']
       at_least objects))"

definition reference_gas_price :: "'w client_io \<Rightarrow> ('w, anyhow, u64) eff" where
  "reference_gas_price io =
     eff_bind (eff_map_err (\<lambda>e. [''GetEpoch: '' @ e]) (get_epoch io)) (\<lambda>epoch.
     eff_return (case Option.bind epoch ep_reference_gas_price of None \<Rightarrow> 1000 | Some p \<Rightarrow> p))"

definition coin_input :: "Coin \<Rightarrow> ObjectInput" where
  "coin_input c = \<lparr>oi_id = co_id c, oi_version = co_version c, oi_digest = co_digest c\<rparr>"

text \<open>The coin-object path; results 4 to 7 are the coin, the amount, the split part and the recipient.\<close>

definition coin_object_calls :: "string \<Rightarrow> string \<Rightarrow> Coin \<Rightarrow> Coin \<Rightarrow> u64 \<Rightarrow> u64 \<Rightarrow> BuilderCall list" where
  "coin_object_calls sender payee payment_coin gas_coin gas_price amount =
     [SetSender sender, SetGasBudget GAS_BUDGET, SetGasPrice gas_price, AddGasObjects [coin_input gas_coin],
      ObjectArg (coin_input payment_coin), PureU64 amount, SplitCoins 4 [5], PureAddress payee, TransferObjects 6 7]"

definition build_coin_object_payment ::
  "('k, 't) sdk \<Rightarrow> 'w client_io \<Rightarrow> string \<Rightarrow> string \<Rightarrow> string \<Rightarrow> string \<Rightarrow> u64
    \<Rightarrow> ('w, anyhow, 't SuiTransaction) eff" where
  "build_coin_object_payment K io rpc sender payee asset amount =
     eff_bind (eff_map_err (\<lambda>e. [e]) (rpc_connect io rpc)) (\<lambda>_.
     eff_bind (context_of (''finding a '' @ asset @ '' coin worth at least '' @ show_u64 amount)
       (pick_coin K io sender asset amount)) (\<lambda>payment_coin.
     eff_bind (context_of ''finding a SUI coin for gas'' (pick_coin K io sender ''0x2::sui::SUI'' GAS_BUDGET)) (\<lambda>gas_coin.
     eff_bind (reference_gas_price io) (\<lambda>gas_price.
     eff_lift (case try_build K (coin_object_calls sender payee payment_coin gas_coin gas_price amount) of
         Inl e \<Rightarrow> Inl [''building the transaction: '' @ e] | Inr t \<Rightarrow> Inr t)))))"

text \<open>
  The first path whose preconditions hold is taken, with whatever comes of it; the others are
  noted. \<open>None\<close> is the panic of \<open>unreachable!\<close>.
\<close>

fun try_paths ::
  "wire \<Rightarrow> ('k, 't) sdk \<Rightarrow> 'w client_io \<Rightarrow> string \<Rightarrow> string \<Rightarrow> string \<Rightarrow> string \<Rightarrow> u64 \<Rightarrow> Funding \<Rightarrow> string option
    \<Rightarrow> (PaymentPath \<times> Skipped) list \<Rightarrow> PaymentPath list \<Rightarrow> 'w \<Rightarrow> ((anyhow + 't SuiTransaction) \<times> 'w) option" where
  "try_paths W K io rpc sender payee asset amount funds gas_station skipped [] w =
     Some (Inl [no_path_available asset amount funds skipped], w)"
| "try_paths W K io rpc sender payee asset amount funds gas_station skipped (path # paths) w =
     (case path_check path amount funds gas_station of
        Some reason \<Rightarrow>
          try_paths W K io rpc sender payee asset amount funds gas_station (skipped @ [(path, reason)]) paths w
      | None \<Rightarrow>
          (case path of
             Gasless \<Rightarrow> Some (build_gasless_payment W K io rpc sender payee asset amount w)
           | CoinObject \<Rightarrow> Some (build_coin_object_payment K io rpc sender payee asset amount w)
           | Sponsored \<Rightarrow> None))"

definition build_payment ::
  "wire \<Rightarrow> ('k, 't) sdk \<Rightarrow> 'w client_io \<Rightarrow> string \<Rightarrow> string \<Rightarrow> string \<Rightarrow> string \<Rightarrow> u64 \<Rightarrow> PaymentPath list
    \<Rightarrow> string option \<Rightarrow> 'w \<Rightarrow> ((anyhow + 't SuiTransaction) \<times> 'w) option" where
  "build_payment W K io rpc sender payee asset amount paths gas_station w =
     (case context_of (''reading '' @ sender @ [CHR 0x27] @ ''s '' @ asset @ '' balance'') (funding io rpc sender asset) w of
        (Inl e, w1) \<Rightarrow> Some (Inl e, w1)
      | (Inr funds, w1) \<Rightarrow> try_paths W K io rpc sender payee asset amount funds gas_station [] paths w1)"

section \<open>Presenting a payment\<close>

text \<open>What the client reads of a challenge and of a receipt.\<close>

record ClientTerms =
  ct_scheme :: string
  ct_network :: string
  ct_amount :: string
  ct_asset :: string
  ct_pay_to :: string
  ct_max_timeout_seconds :: u64
  ct_extra :: "json option"

record ClientChallenge =
  cc_resource_url :: string
  cc_accepts :: "ClientTerms list"

record ClientReceipt =
  cr_success :: bool
  cr_error_reason :: "string option"
  cr_transaction :: string
  cr_network :: string

definition advertised_gas_station :: "ClientTerms \<Rightarrow> string option" where
  "advertised_gas_station terms =
     Option.bind (ct_extra terms) (\<lambda>extra. Option.bind (json_get ''gasStation'' extra) json_as_str)"

definition payment_json :: "string \<Rightarrow> ClientTerms \<Rightarrow> string \<Rightarrow> string \<Rightarrow> json" where
  "payment_json resource_url terms signature transaction =
     JObject
       [(''x402Version'', JNumber 2),
        (''resource'', JObject [(''url'', JString resource_url)]),
        (''accepted'', JObject
          [(''scheme'', JString (ct_scheme terms)), (''network'', JString (ct_network terms)),
           (''amount'', JString (ct_amount terms)), (''asset'', JString (ct_asset terms)),
           (''payTo'', JString (ct_pay_to terms)), (''maxTimeoutSeconds'', json_u64 (ct_max_timeout_seconds terms))]),
        (''payload'', JObject [(''signature'', JString signature), (''transaction'', JString transaction)])]"

definition sign_payment ::
  "wire \<Rightarrow> ('k, 't) sdk \<Rightarrow> 'k \<Rightarrow> string \<Rightarrow> ClientTerms \<Rightarrow> 't SuiTransaction \<Rightarrow> anyhow + string" where
  "sign_payment W K key resource_url terms transaction =
     and_then (case sign_transaction K key transaction of Inl e \<Rightarrow> Inl [''signing the payment'', e] | Inr s \<Rightarrow> Inr s) (\<lambda>signature.
     and_then (case bcs_to_bytes K transaction of Inl e \<Rightarrow> Inl [e] | Inr b \<Rightarrow> Inr b) (\<lambda>tx_bytes.
     and_then (case json_to_vec W (payment_json resource_url terms (b64_encode W signature) (b64_encode W tx_bytes)) of
         Inl e \<Rightarrow> Inl [e] | Inr v \<Rightarrow> Inr v) (\<lambda>v.
     Inr (b64_encode W v))))"

definition build_payment_header ::
  "wire \<Rightarrow> ('k, 't) sdk \<Rightarrow> 'w client_io \<Rightarrow> string \<Rightarrow> 'k \<Rightarrow> string \<Rightarrow> ClientTerms \<Rightarrow> PaymentPath list \<Rightarrow> 'w
    \<Rightarrow> ((anyhow + string) \<times> 'w) option" where
  "build_payment_header W K io rpc key resource_url terms paths w =
     (case parse_u64 (ct_amount terms) of
        None \<Rightarrow> Some (Inl [''amount '' @ fmt_debug W (ct_amount terms) @ '' is not an integer''], w)
      | Some amount \<Rightarrow>
          (case parse_address K (ct_pay_to terms) of
             Inl e \<Rightarrow> Some (Inl [''payTo '' @ fmt_debug W (ct_pay_to terms) @ '' is not a Sui address'', e], w)
           | Inr payee \<Rightarrow>
               (case build_payment W K io rpc (derive_address K key) payee (ct_asset terms) amount paths
                       (advertised_gas_station terms) w of
                  None \<Rightarrow> None
                | Some (Inl e, w1) \<Rightarrow>
                    Some (Inl ((''building the payment transaction for '' @ show_u64 amount @ '' of '' @ ct_asset terms) # e), w1)
                | Some (Inr transaction, w1) \<Rightarrow>
                    Some (sign_payment W K key resource_url terms transaction, w1))))"

section \<open>The key\<close>

text \<open>\<open>PathBuf::join\<close> of a relative path.\<close>

definition path_join :: "string \<Rightarrow> string \<Rightarrow> string" where
  "path_join base rel =
     (if base = [] then rel else if last base = CHR ''/'' then base @ rel else base @ ''/'' @ rel)"

definition keystore_path :: "'w client_io \<Rightarrow> string" where
  "keystore_path io =
     (case env_var io ''SUI_KEYSTORE_PATH'' of
        Some p \<Rightarrow> p
      | None \<Rightarrow> path_join (case env_var io ''HOME'' of None \<Rightarrow> [] | Some h \<Rightarrow> h) ''.sui/sui_config/sui.keystore'')"

definition key_of_entry :: "wire \<Rightarrow> ('k, 't) sdk \<Rightarrow> string \<Rightarrow> anyhow + 'k" where
  "key_of_entry W K first =
     (case b64_decode W first of
        Inl e \<Rightarrow> Inl [''keystore entry is not base64'', e]
      | Inr [] \<Rightarrow> Inl [''keystore entry is empty'']
      | Inr (flag # key) \<Rightarrow>
          if of_char flag \<noteq> (0 :: nat)
          then Inl [''the first keystore entry is not ed25519 (scheme flag '' @ show_nat (of_char flag) @
                    ''); set X402_SUI_PRIVATE_KEY'']
          else if length key \<noteq> 32 then Inl [''keystore entry is not a 32-byte ed25519 key'']
          else Inr (key_of_bytes K key))"

definition load_key :: "wire \<Rightarrow> ('k, 't) sdk \<Rightarrow> 'w client_io \<Rightarrow> ('w, anyhow, 'k) eff" where
  "load_key W K io =
     (case env_var io ''X402_SUI_PRIVATE_KEY'' of
        Some encoded \<Rightarrow>
          eff_lift (case from_suiprivkey K (trim encoded) of
              Inl e \<Rightarrow> Inl [''X402_SUI_PRIVATE_KEY is not a suiprivkey: '' @ e] | Inr k \<Rightarrow> Inr k)
      | None \<Rightarrow>
          (let path = keystore_path io in
           eff_bind (context_of (''reading '' @ path @
               ''. Set X402_SUI_PRIVATE_KEY, or install the sui CLI and create an address.'')
             (eff_map_err (\<lambda>e. [e]) (read_file io path))) (\<lambda>raw.
           eff_bind (eff_lift (case keystore_from_str K raw of
               Inl e \<Rightarrow> Inl [''parsing the sui keystore'', e] | Inr entries \<Rightarrow> Inr entries)) (\<lambda>entries.
           case entries of
             [] \<Rightarrow> eff_fail [''the sui keystore is empty'']
           | first # _ \<Rightarrow> eff_lift (key_of_entry W K first)))))"

section \<open>Sending a request\<close>

record ClientMeter =
  cm_tier :: "string option"
  cm_free_remaining :: "u64 option"
  cm_free_limit :: "u64 option"
  cm_free_reset :: "u64 option"
  cm_session_remaining :: "u64 option"
  cm_session_quota :: "u64 option"
  cm_session_expires :: "u64 option"

record 'f Attempt =
  at_status :: u16
  at_body :: string
  at_payment_required :: "ClientChallenge option"
  at_payment_response :: "ClientReceipt option"
  at_session :: "string option"
  at_meter_read :: ClientMeter
  at_elapsed_ms :: 'f
  at_server_timing :: "(string \<times> 'f) list"
  at_upstream_ms :: "'f option"

text \<open>Parsing of the reply that belongs to crates: numbers as \<open>f64\<close>, JSON, header text, method names.\<close>

record 'f replies_io =
  parse_f64 :: "string \<Rightarrow> 'f option"
  challenge_from_slice :: "bytes \<Rightarrow> string + ClientChallenge"
  receipt_from_slice :: "bytes \<Rightarrow> string + ClientReceipt"
  header_to_str :: "bytes \<Rightarrow> string option"
  method_from_str :: "string \<Rightarrow> string + string"

fun find_map :: "('a \<Rightarrow> 'b option) \<Rightarrow> 'a list \<Rightarrow> 'b option" where
  "find_map f [] = None"
| "find_map f (x # xs) = (case f x of Some y \<Rightarrow> Some y | None \<Rightarrow> find_map f xs)"

definition parse_metric :: "(string \<Rightarrow> 'f option) \<Rightarrow> string \<Rightarrow> (string \<times> 'f) option" where
  "parse_metric parse metric =
     (case split_on CHR '';'' metric of
        [] \<Rightarrow> None
      | name # parts \<Rightarrow>
          map_option (Pair (trim name))
            (find_map (\<lambda>p. Option.bind (strip_prefix (trim p) ''dur='') parse) parts))"

definition parse_server_timing :: "(string \<Rightarrow> 'f option) \<Rightarrow> string \<Rightarrow> (string \<times> 'f) list" where
  "parse_server_timing parse raw = List.map_filter (parse_metric parse) (split_on CHR '','' raw)"

definition attempt_of :: "wire \<Rightarrow> 'f replies_io \<Rightarrow> 'f \<Rightarrow> HttpResponseIn \<Rightarrow> 'f Attempt" where
  "attempt_of W R elapsed response =
     (let hdr = (\<lambda>name. Option.bind (map_of (hi_headers response) name) (header_to_str R));
          number = (\<lambda>name. Option.bind (hdr name) (\<lambda>v. parse_u64 (trim v))) in
      \<lparr>at_status = hi_status response, at_body = hi_text response,
       at_payment_required = Option.bind (hdr ''payment-required'') (\<lambda>raw.
         Option.bind (r_ok (b64_decode W (trim raw))) (\<lambda>b. r_ok (challenge_from_slice R b))),
       at_payment_response = Option.bind (hdr ''payment-response'') (\<lambda>raw.
         Option.bind (r_ok (b64_decode W (trim raw))) (\<lambda>b. r_ok (receipt_from_slice R b))),
       at_session = hdr ''x-payment-session'',
       at_meter_read =
         \<lparr>cm_tier = hdr ''x-x402-tier'', cm_free_remaining = number ''x-x402-free-remaining'',
          cm_free_limit = number ''x-x402-free-limit'', cm_free_reset = number ''x-x402-free-reset'',
          cm_session_remaining = number ''x-x402-session-remaining'', cm_session_quota = number ''x-x402-session-quota'',
          cm_session_expires = number ''x-x402-session-expires''\<rparr>,
       at_elapsed_ms = elapsed,
       at_server_timing = (case hdr ''server-timing'' of None \<Rightarrow> [] | Some raw \<Rightarrow> parse_server_timing (parse_f64 R) raw),
       at_upstream_ms = Option.bind (hdr ''x-envoy-upstream-service-time'') (\<lambda>v. parse_f64 R (trim v))\<rparr>)"

definition client_send ::
  "wire \<Rightarrow> 'f replies_io \<Rightarrow> 'w client_io \<Rightarrow> 'f \<Rightarrow> string \<Rightarrow> string \<Rightarrow> (string \<times> string) list \<Rightarrow> string \<Rightarrow> string option
    \<Rightarrow> ('w, anyhow, 'f Attempt) eff" where
  "client_send W R io elapsed method url headers body payment =
     eff_bind (eff_lift (case method_from_str R method of
         Inl e \<Rightarrow> Inl [''invalid HTTP method'', e] | Inr m \<Rightarrow> Inr m)) (\<lambda>m.
     let request =
       \<lparr>ho_method = m, ho_url = url,
        ho_headers = headers @ (case payment of None \<Rightarrow> [] | Some p \<Rightarrow> [(HEADER_PAYMENT_SIGNATURE, p)]),
        ho_body = (if body \<noteq> [] then Some body else None)\<rparr> in
     eff_bind (context_of ''sending the request'' (eff_map_err (\<lambda>e. [e]) (http_send io request))) (\<lambda>response.
     eff_return (attempt_of W R elapsed response)))"

section \<open>Facts on the client\<close>

lemma context_of_Inr_iff [simp]: "context_of msg m w = (Inr a, w') \<longleftrightarrow> m w = (Inr a, w')"
  by (simp add: context_of_def)

lemma path_check_None:
  "path_check path amount funds gas_station = None \<longleftrightarrow>
     path = Gasless \<and> GASLESS_MINIMUM \<le> amount \<and> amount \<le> address_balance funds \<or>
     path = CoinObject \<and> amount \<le> coin_balance funds"
  by (cases path) (auto simp: path_check_def not_less)

text \<open>The path a payment takes, with the paths passed over before it.\<close>

lemma try_paths_cases:
  "(\<exists>pre path post. paths = pre @ path # post \<and> (\<forall>q \<in> set pre. path_check q amount funds gas_station \<noteq> None) \<and>
      path_check path amount funds gas_station = None \<and>
      try_paths W K io rpc sender payee asset amount funds gas_station skipped paths w =
        Some (case path of Gasless \<Rightarrow> build_gasless_payment W K io rpc sender payee asset amount w
              | _ \<Rightarrow> build_coin_object_payment K io rpc sender payee asset amount w)) \<or>
   (\<forall>q \<in> set paths. path_check q amount funds gas_station \<noteq> None) \<and>
     try_paths W K io rpc sender payee asset amount funds gas_station skipped paths w =
       Some (Inl [no_path_available asset amount funds
         (skipped @ map (\<lambda>q. (q, the (path_check q amount funds gas_station))) paths)], w)"
proof (induction paths arbitrary: skipped)
  case (Cons p ps)
  show ?case
  proof (cases "path_check p amount funds gas_station")
    case None
    then have "p \<noteq> Sponsored" by (auto simp: path_check_def)
    with None have "try_paths W K io rpc sender payee asset amount funds gas_station skipped (p # ps) w =
        Some (case p of Gasless \<Rightarrow> build_gasless_payment W K io rpc sender payee asset amount w
              | _ \<Rightarrow> build_coin_object_payment K io rpc sender payee asset amount w)"
      by (cases p) simp_all
    with None show ?thesis by (intro disjI1 exI[of _ "[]"] exI[of _ p] exI[of _ ps]) simp
  next
    case (Some reason)
    from Cons.IH[of "skipped @ [(p, reason)]"] show ?thesis
    proof (elim disjE exE conjE)
      fix pre path post
      assume "ps = pre @ path # post" "\<forall>q \<in> set pre. path_check q amount funds gas_station \<noteq> None"
        "path_check path amount funds gas_station = None"
        "try_paths W K io rpc sender payee asset amount funds gas_station (skipped @ [(p, reason)]) ps w =
          Some (case path of Gasless \<Rightarrow> build_gasless_payment W K io rpc sender payee asset amount w
              | _ \<Rightarrow> build_coin_object_payment K io rpc sender payee asset amount w)"
      with Some show ?thesis
        by (intro disjI1 exI[of _ "p # pre"] exI[of _ path] exI[of _ post]) auto
    qed (use Some in simp)
  qed
qed simp

section \<open>What a built transaction does\<close>

text \<open>
  The meaning of the calls the builder was told, as Sui documents programmable transactions, for
  the properties: every call yields a value that later calls refer to by its position.
  \<open>send_funds\<close> and \<open>TransferObjects\<close> hand a value to an address; a Move call that is not known here
  is noted as handing over something unknown.
\<close>

datatype pay_value =
    NoValue
  | Funds string u64
  | WholeCoin ObjectInput
  | CoinPart ObjectInput u64
  | Number u64
  | Payee string

record pay_effect =
  pe_sender :: "string option"
  pe_gas_price :: "u64 option"
  pe_gas_budget :: "u64 option"
  pe_gas :: "ObjectInput list"
  pe_valid :: "ValidDuring option"
  pe_transfers :: "(pay_value \<times> pay_value) list"
  pe_values :: "pay_value list"

definition value_at :: "pay_effect \<Rightarrow> nat \<Rightarrow> pay_value" where
  "value_at e i = (if i < length (pe_values e) then pe_values e ! i else NoValue)"

definition yields :: "pay_value \<Rightarrow> pay_effect \<Rightarrow> pay_effect" where
  "yields v e = e\<lparr>pe_values := pe_values e @ [v]\<rparr>"

definition hands_over :: "pay_value \<Rightarrow> pay_value \<Rightarrow> pay_effect \<Rightarrow> pay_effect" where
  "hands_over v r e = e\<lparr>pe_transfers := pe_transfers e @ [(v, r)]\<rparr>"

fun split_off :: "pay_value \<Rightarrow> pay_value \<Rightarrow> pay_value" where
  "split_off (WholeCoin c) (Number n) = CoinPart c n"
| "split_off _ _ = NoValue"

fun sent_funds :: "string list \<Rightarrow> pay_value \<Rightarrow> pay_value" where
  "sent_funds [coin_type] (Funds t n) = (if t = coin_type then Funds t n else NoValue)"
| "sent_funds _ _ = NoValue"

fun read_call :: "BuilderCall \<Rightarrow> pay_effect \<Rightarrow> pay_effect" where
  "read_call (SetSender a) e = yields NoValue (e\<lparr>pe_sender := Some a\<rparr>)"
| "read_call (SetGasPrice p) e = yields NoValue (e\<lparr>pe_gas_price := Some p\<rparr>)"
| "read_call (SetGasBudget b) e = yields NoValue (e\<lparr>pe_gas_budget := Some b\<rparr>)"
| "read_call (AddGasObjects objects) e = yields NoValue (e\<lparr>pe_gas := pe_gas e @ objects\<rparr>)"
| "read_call (FundsWithdrawalCoin coin_type amount) e = yields (Funds coin_type amount) e"
| "read_call (PureAddress a) e = yields (Payee a) e"
| "read_call (PureU64 n) e = yields (Number n) e"
| "read_call (ObjectArg object) e = yields (WholeCoin object) e"
| "read_call (MoveCall package module function types args) e =
     yields NoValue (case args of
         [c, r] \<Rightarrow>
           if package = SUI_FRAMEWORK \<and> module = ''coin'' \<and> function = ''send_funds''
           then hands_over (sent_funds types (value_at e c)) (value_at e r) e
           else hands_over NoValue NoValue e
       | _ \<Rightarrow> hands_over NoValue NoValue e)"
| "read_call (SplitCoins c amounts) e =
     yields (case amounts of [i] \<Rightarrow> split_off (value_at e c) (value_at e i) | _ \<Rightarrow> NoValue) e"
| "read_call (TransferObjects v r) e = yields NoValue (hands_over (value_at e v) (value_at e r) e)"
| "read_call (SetExpiration valid) e = yields NoValue (e\<lparr>pe_valid := Some valid\<rparr>)"

definition payment_of :: "BuilderCall list \<Rightarrow> pay_effect" where
  "payment_of calls = fold read_call calls
     \<lparr>pe_sender = None, pe_gas_price = None, pe_gas_budget = None, pe_gas = [], pe_valid = None,
      pe_transfers = [], pe_values = []\<rparr>"

fun amount_of :: "pay_value \<Rightarrow> nat" where
  "amount_of (Funds coin_type n) = unat n"
| "amount_of (CoinPart c n) = unat n"
| "amount_of _ = 0"

text \<open>How much a transaction hands to an address.\<close>

definition amount_to :: "string \<Rightarrow> pay_effect \<Rightarrow> nat" where
  "amount_to payee e = sum_list (map (\<lambda>(v, r). if r = Payee payee then amount_of v else 0) (pe_transfers e))"

text \<open>The transaction came from these calls, with its gas objects as built or taken out.\<close>

definition built_from :: "('k, 't) sdk \<Rightarrow> BuilderCall list \<Rightarrow> 't SuiTransaction \<Rightarrow> bool" where
  "built_from K calls t \<longleftrightarrow> try_build K calls = Inr t \<or>
     (\<exists>t0. try_build K calls = Inr t0 \<and> t = t0\<lparr>st_gas_objects := []\<rparr>)"

text \<open>A gasless payment: exactly \<open>amount\<close> of the asset from the sender's address balance to the payee.\<close>

definition pays_gasless ::
  "('k, 't) sdk \<Rightarrow> string \<Rightarrow> string \<Rightarrow> string \<Rightarrow> u64 \<Rightarrow> 't SuiTransaction \<Rightarrow> bool" where
  "pays_gasless K sender payee asset amount t \<longleftrightarrow> st_gas_objects t = [] \<and>
     (\<exists>calls t0 coin_type valid.
        try_build K calls = Inr t0 \<and> t = t0\<lparr>st_gas_objects := []\<rparr> \<and> parse_type_tag K asset = Inr coin_type \<and>
        pe_sender (payment_of calls) = Some sender \<and>
        pe_gas_price (payment_of calls) = Some 0 \<and> pe_gas_budget (payment_of calls) = Some 0 \<and>
        pe_transfers (payment_of calls) = [(Funds coin_type amount, Payee payee)] \<and>
        pe_valid (payment_of calls) = Some valid \<and> vd_min_epoch valid \<noteq> None \<and> vd_max_epoch valid = vd_min_epoch valid)"

text \<open>The node lists this object, readable and holding enough, among the owner's coins of the type.\<close>

definition owns_coin :: "('k, 't) sdk \<Rightarrow> 'w client_io \<Rightarrow> string \<Rightarrow> string \<Rightarrow> u64 \<Rightarrow> ObjectInput \<Rightarrow> bool" where
  "owns_coin K io owner coin_type at_least c \<longleftrightarrow>
     (\<exists>w objects w' object raw_id raw_digest.
        list_owned_objects io owner (''0x2::coin::Coin<'' @ coin_type @ ''>'') w = (Inr objects, w') \<and> object \<in> set objects \<and>
        at_least \<le> (case oo_balance object of None \<Rightarrow> 0 | Some b \<Rightarrow> b) \<and>
        oo_object_id object = Some raw_id \<and> parse_address K raw_id = Inr (oi_id c) \<and>
        oo_version object = Some (oi_version c) \<and>
        oo_digest object = Some raw_digest \<and> parse_digest K raw_digest = Inr (oi_digest c))"

text \<open>A payment from a coin: exactly \<open>amount\<close> is split off and handed to the payee; another coin pays the gas.\<close>

definition pays_from_coin ::
  "('k, 't) sdk \<Rightarrow> 'w client_io \<Rightarrow> string \<Rightarrow> string \<Rightarrow> string \<Rightarrow> u64 \<Rightarrow> 't SuiTransaction \<Rightarrow> bool" where
  "pays_from_coin K io sender payee asset amount t \<longleftrightarrow>
     (\<exists>calls coin gas w epoch w'.
        try_build K calls = Inr t \<and> owns_coin K io sender asset amount coin \<and>
        owns_coin K io sender ''0x2::sui::SUI'' GAS_BUDGET gas \<and> get_epoch io w = (Inr epoch, w') \<and>
        pe_sender (payment_of calls) = Some sender \<and>
        pe_gas_price (payment_of calls) =
          Some (case Option.bind epoch ep_reference_gas_price of None \<Rightarrow> 1000 | Some p \<Rightarrow> p) \<and>
        pe_gas_budget (payment_of calls) = Some GAS_BUDGET \<and> pe_gas (payment_of calls) = [gas] \<and>
        pe_transfers (payment_of calls) = [(CoinPart coin amount, Payee payee)])"

lemma gasless_effect:
  "payment_of (gasless_calls sender payee coin_type amount valid) =
     \<lparr>pe_sender = Some sender, pe_gas_price = Some 0, pe_gas_budget = Some 0,
      pe_gas = [\<lparr>oi_id = ZERO_ADDRESS, oi_version = 0, oi_digest = ZERO_DIGEST\<rparr>], pe_valid = Some valid,
      pe_transfers = [(Funds coin_type amount, Payee payee)],
      pe_values = [NoValue, NoValue, NoValue, NoValue, Funds coin_type amount, Payee payee, NoValue, NoValue]\<rparr>"
  by (simp add: payment_of_def gasless_calls_def yields_def hands_over_def value_at_def)

lemma coin_object_effect:
  "payment_of (coin_object_calls sender payee coin gas price amount) =
     \<lparr>pe_sender = Some sender, pe_gas_price = Some price, pe_gas_budget = Some GAS_BUDGET, pe_gas = [coin_input gas],
      pe_valid = None, pe_transfers = [(CoinPart (coin_input coin) amount, Payee payee)],
      pe_values = [NoValue, NoValue, NoValue, NoValue, WholeCoin (coin_input coin), Number amount,
        CoinPart (coin_input coin) amount, Payee payee, NoValue]\<rparr>"
  by (simp add: payment_of_def coin_object_calls_def yields_def hands_over_def value_at_def)

lemma first_coin_ok:
  "first_coin K none at_least objects = Inr c \<Longrightarrow>
   \<exists>object \<in> set objects. at_least \<le> (case oo_balance object of None \<Rightarrow> 0 | Some b \<Rightarrow> b) \<and>
     (\<exists>raw_id raw_digest. oo_object_id object = Some raw_id \<and> parse_address K raw_id = Inr (co_id c) \<and>
        oo_version object = Some (co_version c) \<and> oo_digest object = Some raw_digest \<and> parse_digest K raw_digest = Inr (co_digest c))"
proof (induction objects)
  case (Cons object objects)
  let ?held = "case oo_balance object of None \<Rightarrow> 0 | Some b \<Rightarrow> b"
  show ?case
  proof (cases "at_least \<le> ?held \<and> oo_object_id object \<noteq> None \<and> oo_version object \<noteq> None \<and> oo_digest object \<noteq> None")
    case True
    then obtain raw_id version raw_digest where o: "at_least \<le> ?held" "oo_object_id object = Some raw_id"
      "oo_version object = Some version" "oo_digest object = Some raw_digest" by blast
    from o(1) have "\<not> ?held < at_least" by (simp only: not_less)
    with Cons.prems o(2-4) have "parse_address K raw_id = Inr (co_id c) \<and> version = co_version c \<and> parse_digest K raw_digest = Inr (co_digest c)"
      by (simp only: first_coin.simps if_False option.case prod.case) (auto split: sum.splits)
    with o show ?thesis by auto
  next
    case False
    then have "first_coin K none at_least (object # objects) = first_coin K none at_least objects"
      by (auto simp: not_le split: option.split)
    with Cons show ?thesis by auto
  qed
qed simp

lemma pick_coin_owned:
  assumes "pick_coin K io owner coin_type at_least w = (Inr c, w')"
  shows "owns_coin K io owner coin_type at_least (coin_input c)"
proof -
  obtain objects none w1 where o: "list_owned_objects io owner (''0x2::coin::Coin<'' @ coin_type @ ''>'') w = (Inr objects, w1)"
    "first_coin K none at_least objects = Inr c"
    using assms by (auto simp: pick_coin_def)
  from first_coin_ok[OF o(2)] o(1) show ?thesis unfolding owns_coin_def coin_input_def by fastforce
qed

lemma build_gasless_payment_ok:
  assumes "build_gasless_payment W K io rpc sender payee asset amount w = (Inr t, w')"
  shows "pays_gasless K sender payee asset amount t"
proof -
  obtain coin_type valid w1 w2 t0 where b: "parse_type_tag K asset = Inr coin_type"
    "current_epoch_expiration K io amount w1 = (Inr valid, w2)"
    "try_build K (gasless_calls sender payee coin_type amount valid) = Inr t0" "t = t0\<lparr>st_gas_objects := []\<rparr>"
    using assms by (auto simp: build_gasless_payment_def split: sum.splits)
  from b(2) have "vd_min_epoch valid \<noteq> None" "vd_max_epoch valid = vd_min_epoch valid"
    by (auto simp: current_epoch_expiration_def case_prod_beta Let_def)
  with b show ?thesis unfolding pays_gasless_def
    by (intro conjI exI[of _ "gasless_calls sender payee coin_type amount valid"] exI[of _ t0] exI[of _ coin_type] exI[of _ valid])
      (simp_all add: gasless_effect)
qed

lemma build_coin_object_payment_ok:
  assumes "build_coin_object_payment K io rpc sender payee asset amount w = (Inr t, w')"
  shows "pays_from_coin K io sender payee asset amount t"
proof -
  obtain coin gas price w1 w2 w3 w4 where b: "pick_coin K io sender asset amount w1 = (Inr coin, w2)"
    "pick_coin K io sender ''0x2::sui::SUI'' GAS_BUDGET w2 = (Inr gas, w3)" "reference_gas_price io w3 = (Inr price, w4)"
    "try_build K (coin_object_calls sender payee coin gas price amount) = Inr t"
    using assms by (auto simp: build_coin_object_payment_def split: sum.splits)
  from b(3) obtain epoch where "get_epoch io w3 = (Inr epoch, w4)"
    "price = (case Option.bind epoch ep_reference_gas_price of None \<Rightarrow> 1000 | Some p \<Rightarrow> p)"
    by (auto simp: reference_gas_price_def)
  with b(4) pick_coin_owned[OF b(1)] pick_coin_owned[OF b(2)] show ?thesis unfolding pays_from_coin_def
    by (intro exI[of _ "coin_object_calls sender payee coin gas price amount"] exI[of _ "coin_input coin"]
        exI[of _ "coin_input gas"] exI[of _ w3] exI[of _ epoch] exI[of _ w4]) (simp add: coin_object_effect)
qed

text \<open>Whatever way is taken, the payee is handed the amount.\<close>

lemma build_payment_amount:
  assumes "build_payment W K io rpc sender payee asset amount paths gas_station w = Some (Inr t, w')"
  shows "\<exists>calls. built_from K calls t \<and> amount_to payee (payment_of calls) = unat amount"
proof -
  obtain funds w1 where "try_paths W K io rpc sender payee asset amount funds gas_station [] paths w1 = Some (Inr t, w')"
    using assms by (auto simp: build_payment_def split: prod.splits sum.splits)
  then have "(\<exists>w. build_gasless_payment W K io rpc sender payee asset amount w = (Inr t, w')) \<or>
      (\<exists>w. build_coin_object_payment K io rpc sender payee asset amount w = (Inr t, w'))"
    using try_paths_cases[of paths amount funds gas_station W K io rpc sender payee asset "[]" w1]
    by (elim disjE exE conjE; simp split: PaymentPath.splits; metis PaymentPath.exhaust)
  then have "pays_gasless K sender payee asset amount t \<or> pays_from_coin K io sender payee asset amount t"
    by (elim disjE exE) (simp_all add: build_gasless_payment_ok build_coin_object_payment_ok)
  then show ?thesis
  proof
    assume "pays_gasless K sender payee asset amount t"
    then obtain calls t0 coin_type where "built_from K calls t" "pe_transfers (payment_of calls) = [(Funds coin_type amount, Payee payee)]"
      unfolding pays_gasless_def built_from_def by blast
    then show ?thesis by (intro exI[of _ calls]) (simp add: amount_to_def)
  next
    assume "pays_from_coin K io sender payee asset amount t"
    then obtain calls coin where "built_from K calls t" "pe_transfers (payment_of calls) = [(CoinPart coin amount, Payee payee)]"
      unfolding pays_from_coin_def built_from_def by blast
    then show ?thesis by (intro exI[of _ calls]) (simp add: amount_to_def)
  qed
qed

section \<open>What the gateway reads\<close>

text \<open>What the crates of the codec promise for the values the client writes.\<close>

definition base64_laws :: "wire \<Rightarrow> bool" where
  "base64_laws W \<longleftrightarrow> b64_encode W [] = [] \<and>
     (\<forall>b. b64_decode W (b64_encode W b) = Inr b \<and> (\<forall>c \<in> set (b64_encode W b). graphic c))"

text \<open>A signature and a serialised transaction are never empty.\<close>

definition sdk_laws :: "('k, 't) sdk \<Rightarrow> bool" where
  "sdk_laws K \<longleftrightarrow> (\<forall>key t. sign_transaction K key t \<noteq> Inr [] \<and> bcs_to_bytes K t \<noteq> Inr [])"

definition client_requirements :: "ClientTerms \<Rightarrow> PaymentRequirements" where
  "client_requirements terms =
     \<lparr>pr_scheme = ct_scheme terms, pr_network = ct_network terms, pr_amount = ct_amount terms,
      pr_asset = ct_asset terms, pr_pay_to = ct_pay_to terms,
      pr_max_timeout_seconds = ct_max_timeout_seconds terms, pr_extra = None\<rparr>"

definition serde_laws :: "wire \<Rightarrow> bool" where
  "serde_laws W \<longleftrightarrow>
     (\<forall>j v p. json_to_vec W j = Inr v \<and> payload_of_json j = Some p \<longrightarrow> payload_from_slice W v = Inr p) \<and>
     (\<forall>j s. sui_of_json j = Some s \<longrightarrow> sui_from_value W j = Inr s)"

text \<open>The terms the client reads are the ones the server offers.\<close>

definition reads_offer :: "ClientTerms \<Rightarrow> PaymentRequirements \<Rightarrow> bool" where
  "reads_offer terms req \<longleftrightarrow> ct_scheme terms = pr_scheme req \<and> ct_network terms = pr_network req \<and>
     ct_amount terms = pr_amount req \<and> ct_asset terms = pr_asset req \<and> ct_pay_to terms = pr_pay_to req"

lemma payload_of_payment_json:
  "payload_of_json (payment_json url terms sg tx) = Some
     \<lparr>pp_x402_version = 2,
      pp_resource = Some \<lparr>ri_url = url, ri_description = None, ri_mime_type = None, ri_service_name = None,
        ri_tags = None, ri_icon_url = None\<rparr>,
      pp_accepted = client_requirements terms,
      pp_payload = JObject [(''signature'', JString sg), (''transaction'', JString tx)], pp_extensions = None\<rparr>"
  using uint_bounded[of "ct_max_timeout_seconds terms"]
  by (simp add: payload_of_json_def payment_json_def resource_of_json_def requirements_of_json_def req_field_def
      opt_field_def client_requirements_def)

lemma sign_payment_ok:
  "sign_payment W K key url terms t = Inr header \<longleftrightarrow>
   (\<exists>sg b v. sign_transaction K key t = Inr sg \<and> bcs_to_bytes K t = Inr b \<and>
      json_to_vec W (payment_json url terms (b64_encode W sg) (b64_encode W b)) = Inr v \<and> header = b64_encode W v)"
  by (auto simp: sign_payment_def split: sum.splits)

lemma build_payment_header_ok:
  assumes "build_payment_header W K io rpc key url terms paths w = Some (Inr header, w')"
  shows "\<exists>amount payee t. parse_u64 (ct_amount terms) = Some amount \<and> parse_address K (ct_pay_to terms) = Inr payee \<and>
    build_payment W K io rpc (derive_address K key) payee (ct_asset terms) amount paths (advertised_gas_station terms) w =
      Some (Inr t, w') \<and> sign_payment W K key url terms t = Inr header"
  using assms by (auto simp: build_payment_header_def split: option.splits sum.splits)

text \<open>The payment as the gateway decodes it.\<close>

definition client_payload :: "wire \<Rightarrow> string \<Rightarrow> ClientTerms \<Rightarrow> bytes \<Rightarrow> bytes \<Rightarrow> PaymentPayload" where
  "client_payload W url terms sg tx =
     \<lparr>pp_x402_version = 2,
      pp_resource = Some \<lparr>ri_url = url, ri_description = None, ri_mime_type = None, ri_service_name = None,
        ri_tags = None, ri_icon_url = None\<rparr>,
      pp_accepted = client_requirements terms,
      pp_payload = JObject [(''signature'', JString (b64_encode W sg)), (''transaction'', JString (b64_encode W tx))],
      pp_extensions = None\<rparr>"

definition client_sui :: "wire \<Rightarrow> bytes \<Rightarrow> bytes \<Rightarrow> SuiExactPayload" where
  "client_sui W sg tx = \<lparr>sp_signature = b64_encode W sg, sp_transaction = b64_encode W tx\<rparr>"

lemma base64_lawsD:
  assumes "base64_laws W"
  shows "b64_decode W (b64_encode W b) = Inr b" "trim (b64_encode W b) = b64_encode W b"
    "b64_encode W b = [] \<longleftrightarrow> b = []"
proof -
  show "b64_decode W (b64_encode W b) = Inr b" "trim (b64_encode W b) = b64_encode W b"
    using assms by (simp_all add: base64_laws_def)
  show "b64_encode W b = [] \<longleftrightarrow> b = []" using assms unfolding base64_laws_def by (metis sum.inject(2))
qed

lemma client_header_decodes:
  assumes "build_payment_header W K io rpc key url terms paths w = Some (Inr header, w')" "base64_laws W" "serde_laws W"
  obtains amount payee t sg tx where "parse_u64 (ct_amount terms) = Some amount" "parse_address K (ct_pay_to terms) = Inr payee"
    "build_payment W K io rpc (derive_address K key) payee (ct_asset terms) amount paths (advertised_gas_station terms) w =
      Some (Inr t, w')"
    "sign_transaction K key t = Inr sg" "bcs_to_bytes K t = Inr tx"
    "decode_header W (payload_from_slice W) header = Inr (client_payload W url terms sg tx)"
proof -
  obtain amount payee t where b: "parse_u64 (ct_amount terms) = Some amount" "parse_address K (ct_pay_to terms) = Inr payee"
    "build_payment W K io rpc (derive_address K key) payee (ct_asset terms) amount paths (advertised_gas_station terms) w =
      Some (Inr t, w')" "sign_payment W K key url terms t = Inr header"
    using build_payment_header_ok[OF assms(1)] by blast
  obtain sg b v where s: "sign_transaction K key t = Inr sg" "bcs_to_bytes K t = Inr b"
    "json_to_vec W (payment_json url terms (b64_encode W sg) (b64_encode W b)) = Inr v" "header = b64_encode W v"
    using b(4) unfolding sign_payment_ok by blast
  have "payload_from_slice W v = Inr (client_payload W url terms sg b)"
    using assms(3) s(3) payload_of_payment_json[of url terms "b64_encode W sg" "b64_encode W b"]
    by (simp add: serde_laws_def client_payload_def)
  then have "decode_header W (payload_from_slice W) header = Inr (client_payload W url terms sg b)"
    using base64_lawsD[OF assms(2)] by (simp add: decode_header_def s(4))
  with b(1-3) s(1,2) show ?thesis by (rule that)
qed

lemma client_payload_reads:
  assumes "base64_laws W" "serde_laws W"
  shows "sui_from_value W (pp_payload (client_payload W url terms sg tx)) = Inr (client_sui W sg tx)"
    and "sui_decode W (client_sui W sg tx) = Inr (tx, sg)"
    and "payment_id W (client_payload W url terms sg tx) = Some (hex_encode (hashing W) (sha256 W tx))"
proof -
  show s: "sui_from_value W (pp_payload (client_payload W url terms sg tx)) = Inr (client_sui W sg tx)"
    using assms(2) by (simp add: serde_laws_def sui_of_json_def req_field_def client_payload_def client_sui_def)
  show d: "sui_decode W (client_sui W sg tx) = Inr (tx, sg)"
    using base64_lawsD[OF assms(1)] by (simp add: sui_decode_def client_sui_def)
  from s d show "payment_id W (client_payload W url terms sg tx) = Some (hex_encode (hashing W) (sha256 W tx))"
    by (rule payment_id_of_decoded)
qed

lemma client_payload_terms:
  assumes "base64_laws W" "serde_laws W" "reads_offer terms req" "pr_network req = fac_network F"
    "sg \<noteq> []" "tx \<noteq> []"
  shows "check_terms W F (client_payload W url terms sg tx) req = Inr (client_sui W sg tx)"
  using client_payload_reads(1)[OF assms(1,2), of url terms sg tx] assms(3-6) base64_lawsD[OF assms(1)]
  by (simp add: check_terms_ok_iff terms_agree_def client_requirements_def reads_offer_def client_payload_def client_sui_def)

section \<open>A concrete wallet, for the witnesses\<close>

text \<open>
  A builder whose transactions are the calls it was told, a wallet with 20000 units in its address
  balance and in Coin objects, and a codec that writes one payment document (\<open>doc\<close>) and writes
  bytes as hex.
\<close>

definition demo_sdk :: "(unit, BuilderCall list) sdk" where
  "demo_sdk =
     \<lparr>parse_address = Inr, parse_digest = Inr, parse_type_tag = Inr,
      try_build = (\<lambda>calls. Inr \<lparr>st_gas_objects = [], st_rest = calls\<rparr>),
      sign_transaction = (\<lambda>k t. Inr ''sig''), bcs_to_bytes = (\<lambda>t. Inr ''tx''), derive_address = (\<lambda>k. ''0xb2''),
      from_suiprivkey = (\<lambda>s. Inr ()), key_of_bytes = (\<lambda>b. ()), keystore_from_str = (\<lambda>s. Inr [s])\<rparr>"

definition demo_wallet_io ::
  "(HttpRequestOut \<Rightarrow> (unit, string, HttpResponseIn) eff) \<Rightarrow> (string \<Rightarrow> string option) \<Rightarrow> unit client_io" where
  "demo_wallet_io send env =
     \<lparr>rpc_connect = (\<lambda>url. eff_return ()),
      get_balance = (\<lambda>owner coin. eff_return (Some \<lparr>bl_balance = Some 40000, bl_address_balance = Some 20000, bl_coin_balance = Some 20000\<rparr>)),
      list_owned_objects = (\<lambda>owner type. eff_return []),
      get_epoch = eff_return (Some \<lparr>ep_epoch = Some 9, ep_reference_gas_price = None\<rparr>),
      get_service_info = eff_return (Some ''69WiPg3D''), random_u32 = (\<lambda>w. (7, w)),
      http_send = send, env_var = env, read_file = (\<lambda>f. eff_fail ''no such file'')\<rparr>"

abbreviation demo_client_io :: "unit client_io" where
  "demo_client_io \<equiv> demo_wallet_io (\<lambda>r. eff_fail ''refused'') (\<lambda>v. None)"

definition demo_client_terms :: ClientTerms where
  "demo_client_terms =
     \<lparr>ct_scheme = ''exact'', ct_network = ''sui:testnet'', ct_amount = ''10000'', ct_asset = ''0x2::usdc::USDC'',
      ct_pay_to = ''0x00000000000000000000000000000000000000000000000000000000000000a1'',
      ct_max_timeout_seconds = 120, ct_extra = None\<rparr>"

definition demo_document :: json where
  "demo_document = payment_json ''http://shop/'' demo_client_terms (hex_enc ''sig'') (hex_enc ''tx'')"

definition client_wire :: wire where
  "client_wire = demo_wire
     \<lparr>b64_encode := hex_enc, b64_decode := (\<lambda>s. ok_or ''not hex'' (hex_dec s)),
      json_to_vec := (\<lambda>v. if v = demo_document then Inr ''doc'' else Inl ''unsupported''),
      payload_from_slice := (\<lambda>b. Inr
        \<lparr>pp_x402_version = 2,
         pp_resource = Some \<lparr>ri_url = ''http://shop/'', ri_description = None, ri_mime_type = None, ri_service_name = None,
           ri_tags = None, ri_icon_url = None\<rparr>,
         pp_accepted = client_requirements demo_client_terms,
         pp_payload = JObject [(''signature'', JString (hex_enc ''sig'')), (''transaction'', JString (hex_enc ''tx''))], pp_extensions = None\<rparr>)\<rparr>"

lemma demo_funding: "funding (demo_wallet_io send env) rpc owner coin () = (Inr \<lparr>address_balance = 20000, coin_balance = 20000\<rparr>, ())"
  by (simp add: funding_def demo_wallet_io_def context_of_def eff_bind_def eff_map_err_def eff_return_def)

lemma client_wire_laws: "base64_laws client_wire" "serde_laws client_wire"
proof -
  have "hex_laws demo_crypto" by (rule demo_crypto_laws)
  then show "base64_laws client_wire"
    using hex_encode_chars[of demo_crypto]
    by (auto simp: base64_laws_def client_wire_def hex_laws_def demo_crypto_def)
  have "sui_from_value client_wire j = Inr sui" if "sui_of_json j = Some sui" for j sui
    using that by (cases j) (auto simp: sui_of_json_def req_field_def client_wire_def demo_wire_def bind_eq_Some_conv split: if_splits)
  moreover have "payload_from_slice client_wire v = Inr p" if "json_to_vec client_wire j = Inr v" "payload_of_json j = Some p" for j v p
    using that payload_of_payment_json
    by (auto simp: client_wire_def demo_document_def split: if_splits)
  ultimately show "serde_laws client_wire" unfolding serde_laws_def by blast
qed

lemma demo_gasless:
  "build_gasless_payment W demo_sdk (demo_wallet_io send env) rpc sender payee asset amount () =
     (Inr \<lparr>st_gas_objects = [], st_rest = gasless_calls sender payee asset amount
        \<lparr>vd_min_epoch = Some 9, vd_max_epoch = Some 9, vd_chain = ''69WiPg3D'', vd_nonce = nonce amount 7\<rparr>\<rparr>, ())"
  by (simp add: build_gasless_payment_def current_epoch_expiration_def demo_wallet_io_def demo_sdk_def context_of_def)

lemma demo_path: "path_check Gasless 10000 \<lparr>address_balance = 20000, coin_balance = 20000\<rparr> gas_station = None"
  by (simp add: path_check_None GASLESS_MINIMUM_def)

lemma demo_signature: "sign_payment client_wire demo_sdk () ''http://shop/'' demo_client_terms t = Inr (hex_enc ''doc'')"
  by (simp add: sign_payment_def demo_sdk_def client_wire_def demo_document_def)

lemma demo_payment_header:
  "build_payment_header client_wire demo_sdk (demo_wallet_io send env) rpc () ''http://shop/'' demo_client_terms
     DEFAULT_PAYMENT_PATHS () = Some (Inr (hex_enc ''doc''), ())"
proof -
  have "parse_u64 (ct_amount demo_client_terms) = Some 10000"
    by (simp add: demo_client_terms_def parse_u64_def parse_unsigned_def parse_digits_def digits_value_def is_digit_def)
  moreover have "parse_address demo_sdk a = Inr a" for a by (simp add: demo_sdk_def)
  moreover have "build_payment client_wire demo_sdk (demo_wallet_io send env) rpc sender payee asset 10000 DEFAULT_PAYMENT_PATHS g () =
      Some (build_gasless_payment client_wire demo_sdk (demo_wallet_io send env) rpc sender payee asset 10000 ())" for sender payee asset g
    by (simp add: build_payment_def context_of_def eff_map_err_def demo_funding DEFAULT_PAYMENT_PATHS_def demo_path)
  ultimately show ?thesis by (simp add: build_payment_header_def demo_gasless demo_signature)
qed

text \<open>
  An SDK that tells transactions apart: this payment is \<open>tx\<close> when serialised and \<open>sig\<close> when signed, any
  other transaction is something else.
\<close>

definition shop_payment :: "BuilderCall list SuiTransaction" where
  "shop_payment = \<lparr>st_gas_objects = [], st_rest = gasless_calls ''0xb2'' (ct_pay_to demo_client_terms) (ct_asset demo_client_terms) 10000
     \<lparr>vd_min_epoch = Some 9, vd_max_epoch = Some 9, vd_chain = ''69WiPg3D'', vd_nonce = nonce 10000 7\<rparr>\<rparr>"

definition shop_sdk :: "(unit, BuilderCall list) sdk" where
  "shop_sdk = demo_sdk
     \<lparr>sign_transaction := (\<lambda>k t. Inr (if t = shop_payment then ''sig'' else ''another signature'')),
      bcs_to_bytes := (\<lambda>t. Inr (if t = shop_payment then ''tx'' else ''another transaction''))\<rparr>"

lemma shop_sdk_laws: "sdk_laws shop_sdk"
  by (simp add: sdk_laws_def shop_sdk_def)

lemma shop_amount: "parse_u64 (ct_amount demo_client_terms) = Some 10000"
  by (simp add: demo_client_terms_def parse_u64_def parse_unsigned_def parse_digits_def digits_value_def is_digit_def)

lemma shop_keys: "parse_address shop_sdk a = Inr a" "derive_address shop_sdk key = ''0xb2''"
  "sign_transaction shop_sdk key shop_payment = Inr ''sig''" "bcs_to_bytes shop_sdk shop_payment = Inr ''tx''"
  by (simp_all add: shop_sdk_def demo_sdk_def)

lemma shop_build:
  "build_payment client_wire shop_sdk demo_client_io rpc ''0xb2'' (ct_pay_to demo_client_terms) (ct_asset demo_client_terms) 10000
     DEFAULT_PAYMENT_PATHS g () = Some (Inr shop_payment, ())"
proof -
  have "build_gasless_payment client_wire shop_sdk demo_client_io rpc ''0xb2'' (ct_pay_to demo_client_terms)
      (ct_asset demo_client_terms) 10000 () = (Inr shop_payment, ())"
    by (simp add: build_gasless_payment_def current_epoch_expiration_def demo_wallet_io_def shop_sdk_def demo_sdk_def
        context_of_def shop_payment_def)
  then show ?thesis by (simp add: build_payment_def context_of_def eff_map_err_def demo_funding DEFAULT_PAYMENT_PATHS_def demo_path)
qed

lemma shop_header:
  "build_payment_header client_wire shop_sdk demo_client_io rpc () ''http://shop/'' demo_client_terms
     DEFAULT_PAYMENT_PATHS () = Some (Inr (hex_enc ''doc''), ())"
proof -
  have "sign_payment client_wire shop_sdk () ''http://shop/'' demo_client_terms shop_payment = Inr (hex_enc ''doc'')"
    by (simp add: sign_payment_def shop_keys client_wire_def demo_document_def)
  then show ?thesis by (simp add: build_payment_header_def shop_amount shop_keys shop_build)
qed

section \<open>Properties\<close>

text \<open>C18: what the client sends, the gateway understands. A payment header that the client builds for
  the offered terms decodes, passes every check of terms the facilitator makes before it asks the
  fullnode, and carries exactly the signature and the bytes of one transaction: the one that
  \<open>build_payment\<close> returned for the offered amount, asset and recipient and the key's own address. The
  hash of those bytes is its replay key.\<close>

theorem client_payment_is_understood:
  assumes "build_payment_header W K io rpc key url terms paths w = Some (Inr header, w')"
    and "base64_laws W" "serde_laws W" "sdk_laws K" "reads_offer terms req" "pr_network req = fac_network F"
  shows "\<exists>amount payee t sg b payload sui.
    parse_u64 (pr_amount req) = Some amount \<and> parse_address K (pr_pay_to req) = Inr payee \<and>
    build_payment W K io rpc (derive_address K key) payee (pr_asset req) amount paths (advertised_gas_station terms) w =
      Some (Inr t, w') \<and>
    sign_transaction K key t = Inr sg \<and> bcs_to_bytes K t = Inr b \<and>
    decode_header W (payload_from_slice W) header = Inr payload \<and>
    check_terms W F payload req = Inr sui \<and> sui_decode W sui = Inr (b, sg) \<and>
    payment_id W payload = Some (hex_encode (hashing W) (sha256 W b))"
proof -
  obtain amount payee t sg tx where t: "parse_u64 (ct_amount terms) = Some amount" "parse_address K (ct_pay_to terms) = Inr payee"
    "build_payment W K io rpc (derive_address K key) payee (ct_asset terms) amount paths (advertised_gas_station terms) w = Some (Inr t, w')"
    "sign_transaction K key t = Inr sg" "bcs_to_bytes K t = Inr tx"
    "decode_header W (payload_from_slice W) header = Inr (client_payload W url terms sg tx)"
    using assms(1-3) by (rule client_header_decodes)
  have n: "sg \<noteq> []" "tx \<noteq> []" using assms(4) t(4,5) by (auto simp: sdk_laws_def)
  have o: "ct_amount terms = pr_amount req" "ct_pay_to terms = pr_pay_to req" "ct_asset terms = pr_asset req"
    using assms(5) by (simp_all add: reads_offer_def)
  note c = client_payload_terms[OF assms(2,3,5,6) n, of url]
  show ?thesis
    by (rule exI[of _ amount], rule exI[of _ payee], rule exI[of _ t], rule exI[of _ sg], rule exI[of _ tx],
        rule exI[of _ "client_payload W url terms sg tx"], rule exI[of _ "client_sui W sg tx"])
      (use t c client_payload_reads(2,3)[OF assms(2,3)] in \<open>simp add: o[symmetric]\<close>)
qed

theorem client_payment_is_understood_witness:
  "\<exists>payload sui. decode_header client_wire (payload_from_slice client_wire) (hex_enc ''doc'') = Inr payload \<and>
    check_terms client_wire demo_facilitator payload demo_requirements = Inr sui \<and>
    sui_decode client_wire sui = Inr (''tx'', ''sig'') \<and> payment_id client_wire payload = Some (hex_enc ''tx'')"
proof -
  have r: "reads_offer demo_client_terms demo_requirements" by (simp add: reads_offer_def demo_client_terms_def)
  have f: "pr_network demo_requirements = fac_network demo_facilitator" by (simp add: demo_facilitator_def)
  have h: "hex_encode (hashing client_wire) (sha256 client_wire ''tx'') = hex_enc ''tx''"
    by (simp add: client_wire_def demo_wire_def demo_crypto_def)
  have q: "pr_asset demo_requirements = ct_asset demo_client_terms" "pr_pay_to demo_requirements = ct_pay_to demo_client_terms"
    "pr_amount demo_requirements = ct_amount demo_client_terms"
    using r by (simp_all add: reads_offer_def)
  obtain amount payee t sg b payload sui where
    p: "parse_u64 (pr_amount demo_requirements) = Some amount" "parse_address shop_sdk (pr_pay_to demo_requirements) = Inr payee"
    "build_payment client_wire shop_sdk demo_client_io [] (derive_address shop_sdk ()) payee (pr_asset demo_requirements) amount
      DEFAULT_PAYMENT_PATHS (advertised_gas_station demo_client_terms) () = Some (Inr t, ())"
    "sign_transaction shop_sdk () t = Inr sg" "bcs_to_bytes shop_sdk t = Inr b"
    and d: "decode_header client_wire (payload_from_slice client_wire) (hex_enc ''doc'') = Inr payload"
    "check_terms client_wire demo_facilitator payload demo_requirements = Inr sui" "sui_decode client_wire sui = Inr (b, sg)"
    "payment_id client_wire payload = Some (hex_encode (hashing client_wire) (sha256 client_wire b))"
    using client_payment_is_understood[OF shop_header client_wire_laws shop_sdk_laws r f] by blast
  from p(1) have "amount = 10000" by (simp only: q shop_amount option.inject)
  moreover from p(2) have "payee = ct_pay_to demo_client_terms" by (simp only: q shop_keys sum.inject)
  ultimately have "t = shop_payment" using p(3) by (simp only: q shop_keys shop_build option.inject prod.inject sum.inject)
  with p(4,5) have "sg = ''sig''" "b = ''tx''" by (simp_all add: shop_keys)
  with d h show ?thesis by auto
qed

text \<open>C28: the client takes the first way of paying that it can afford, and only that one. Whatever list
  of ways it is given, building never panics; it pays on the first one whose preconditions hold;
  if that attempt fails, the error is returned and no costlier way is tried; and if none is
  usable, the error names every way with its reason, in order. A transaction it returns does
  exactly this, read from the calls the builder was told: a gasless one hands exactly the price,
  in the asset and from the sender's address balance, to the recipient and does nothing else, with gas
  price and budget zero, no gas object, and valid in one epoch; one that pays from a coin splits
  exactly the price off a coin of the asset that the sender owns and that holds enough, and hands
  that part to the recipient, with a SUI coin of the sender for the gas, the network's reference
  price and the fixed budget.\<close>

theorem first_affordable_path_is_taken:
  assumes "funding io rpc sender asset w = (Inr funds, w1)"
  shows "\<exists>result w'. build_payment W K io rpc sender payee asset amount paths gas_station w = Some (result, w') \<and>
    (if \<forall>q \<in> set paths. path_check q amount funds gas_station \<noteq> None
     then result = Inl [no_path_available asset amount funds
            (map (\<lambda>q. (q, the (path_check q amount funds gas_station))) paths)]
     else \<exists>pre path post. paths = pre @ path # post \<and> (\<forall>q \<in> set pre. path_check q amount funds gas_station \<noteq> None) \<and>
       (path = Gasless \<and> GASLESS_MINIMUM \<le> amount \<and> amount \<le> address_balance funds \<and>
          (result, w') = build_gasless_payment W K io rpc sender payee asset amount w1 \<and>
          (\<forall>t. result = Inr t \<longrightarrow> pays_gasless K sender payee asset amount t) \<or>
        path = CoinObject \<and> amount \<le> coin_balance funds \<and>
          (result, w') = build_coin_object_payment K io rpc sender payee asset amount w1 \<and>
          (\<forall>t. result = Inr t \<longrightarrow> pays_from_coin K io sender payee asset amount t)))"
proof -
  have eq: "build_payment W K io rpc sender payee asset amount paths gas_station w =
      try_paths W K io rpc sender payee asset amount funds gas_station [] paths w1"
    using assms by (simp add: build_payment_def context_of_def eff_map_err_def)
  from try_paths_cases[of paths amount funds gas_station W K io rpc sender payee asset "[]" w1] show ?thesis
  proof (elim disjE exE conjE)
    fix pre path post
    assume p: "paths = pre @ path # post" "\<forall>q \<in> set pre. path_check q amount funds gas_station \<noteq> None"
      "path_check path amount funds gas_station = None"
      "try_paths W K io rpc sender payee asset amount funds gas_station [] paths w1 =
        Some (case path of Gasless \<Rightarrow> build_gasless_payment W K io rpc sender payee asset amount w1
              | _ \<Rightarrow> build_coin_object_payment K io rpc sender payee asset amount w1)"
    from p(3) consider (gasless) "path = Gasless" "GASLESS_MINIMUM \<le> amount" "amount \<le> address_balance funds"
      | (coins) "path = CoinObject" "amount \<le> coin_balance funds"
      unfolding path_check_None by blast
    then show ?thesis
    proof cases
      case gasless
      obtain result w' where r: "build_gasless_payment W K io rpc sender payee asset amount w1 = (result, w')" by fastforce
      then have "\<forall>t. result = Inr t \<longrightarrow> pays_gasless K sender payee asset amount t"
        by (auto dest: build_gasless_payment_ok)
      with p eq r gasless show ?thesis by (intro exI[of _ result] exI[of _ w']) auto
    next
      case coins
      obtain result w' where r: "build_coin_object_payment K io rpc sender payee asset amount w1 = (result, w')" by fastforce
      then have "\<forall>t. result = Inr t \<longrightarrow> pays_from_coin K io sender payee asset amount t"
        by (auto dest: build_coin_object_payment_ok)
      with p eq r coins show ?thesis by (intro exI[of _ result] exI[of _ w']) auto
    qed
  qed (use eq in simp)
qed

theorem first_affordable_path_is_taken_witness:
  "\<exists>t. build_payment client_wire shop_sdk demo_client_io ''rpc'' ''0xb2'' (ct_pay_to demo_client_terms) (ct_asset demo_client_terms) 10000
      DEFAULT_PAYMENT_PATHS None () = Some (Inr t, ()) \<and>
    pays_gasless shop_sdk ''0xb2'' (ct_pay_to demo_client_terms) (ct_asset demo_client_terms) 10000 t"
proof -
  have d: "DEFAULT_PAYMENT_PATHS = pre @ path # post \<Longrightarrow>
      \<forall>q \<in> set pre. path_check q 10000 \<lparr>address_balance = 20000, coin_balance = 20000\<rparr> None \<noteq> None \<Longrightarrow> path = Gasless" for pre path post
    using demo_path[of None] by (auto simp: DEFAULT_PAYMENT_PATHS_def Cons_eq_append_conv)
  have g: "\<not> (\<forall>q \<in> set DEFAULT_PAYMENT_PATHS. path_check q 10000 \<lparr>address_balance = 20000, coin_balance = 20000\<rparr> None \<noteq> None)"
    using demo_path[of None] by (simp add: DEFAULT_PAYMENT_PATHS_def)
  show ?thesis
    using first_affordable_path_is_taken[OF demo_funding[of "\<lambda>r. eff_fail ''refused''" "\<lambda>v. None" "''rpc''" "''0xb2''"
      "ct_asset demo_client_terms"], of client_wire shop_sdk "ct_pay_to demo_client_terms" 10000 DEFAULT_PAYMENT_PATHS None]
    unfolding if_not_P[OF g] by (auto simp: shop_build dest: d)
qed

end
