(* ===== verification/PayCli.thy ===== *)
theory PayCli
  imports PayClient
begin

text \<open>
  The command-line client (src/bin/x402-pay.rs): ask for the resource, read the challenge, build and
  sign a payment for the first terms offered, and ask again with it. The parsed arguments are
  \<open>PayArgs\<close>; what is printed is a list of texts, one per \<open>println!\<close>; the result is the error \<open>main\<close>
  returns or the exit code. The durations the client measures are arguments.
\<close>

section \<open>Arguments\<close>

record PayArgs =
  arg_url :: string
  arg_method :: string
  arg_data :: string
  arg_headers :: "string list"
  arg_rpc :: string
  arg_dry_run :: bool
  arg_payment_paths :: string

definition split_once :: "char \<Rightarrow> string \<Rightarrow> (string \<times> string) option" where
  "split_once d s = (if d \<in> set s then Some (takeWhile (\<lambda>c. c \<noteq> d) s, tl (dropWhile (\<lambda>c. c \<noteq> d) s)) else None)"

definition header_arg :: "(string \<Rightarrow> string) \<Rightarrow> string \<Rightarrow> anyhow + string \<times> string" where
  "header_arg fmt h =
     (case split_once CHR '':'' h of
        None \<Rightarrow> Inl [''header '' @ fmt h @ '' is not `Name: value`'']
      | Some (name, value) \<Rightarrow> Inr (trim name, trim value))"

section \<open>The run\<close>

definition NEWLINE :: string where "NEWLINE = [CHR 0x0A]"
definition ELLIPSIS :: string where "ELLIPSIS = [CHR 0xE2, CHR 0x80, CHR 0xA6]"

definition offer_lines :: "ClientChallenge \<Rightarrow> ClientTerms \<Rightarrow> string list" where
  "offer_lines challenge terms =
     [''402 Payment Required'',
      ''  resource  '' @ cc_resource_url challenge,
      ''  network   '' @ ct_network terms,
      ''  amount    '' @ ct_amount terms @ '' of '' @ ct_asset terms,
      ''  payTo     '' @ ct_pay_to terms]"

definition result_lines :: "'f Attempt \<Rightarrow> string list" where
  "result_lines paid =
     [show_nat (unat (at_status paid))] @
     (case at_payment_response paid of
        None \<Rightarrow> []
      | Some receipt \<Rightarrow>
          [if cr_success receipt then ''  settled  tx '' @ cr_transaction receipt @ '' on '' @ cr_network receipt
           else ''  refused  '' @ (case cr_error_reason receipt of None \<Rightarrow> ''no reason given'' | Some e \<Rightarrow> e)]) @
     (case at_session paid of
        None \<Rightarrow> []
      | Some session \<Rightarrow>
          [''  session  '' @ session, ''           present this as `x-payment-session` to reuse the paid tier'']) @
     [NEWLINE @ at_body paid]"

text \<open>The reply to the first request, read as a challenge with terms of the scheme the client speaks.\<close>

definition read_offer :: "'f Attempt \<Rightarrow> anyhow + ClientChallenge \<times> ClientTerms" where
  "read_offer first =
     and_then (ok_or [''402 without a PAYMENT-REQUIRED header; is this an x402 endpoint?''] (at_payment_required first)) (\<lambda>challenge.
     case cc_accepts challenge of
       [] \<Rightarrow> Inl [''challenge advertised no payment options'']
     | terms # _ \<Rightarrow> Inr (challenge, terms))"

text \<open>Key, funding paths and the signed header for the terms.\<close>

definition prepare_payment ::
  "wire \<Rightarrow> ('k, 't) sdk \<Rightarrow> 'w client_io \<Rightarrow> PayArgs \<Rightarrow> ClientChallenge \<Rightarrow> ClientTerms \<Rightarrow> 'w
    \<Rightarrow> ((anyhow + string) \<times> string list \<times> 'w) option" where
  "prepare_payment W K io A challenge terms w =
     (case load_key W K io w of
        (Inl e, w1) \<Rightarrow> Some (Inl e, [], w1)
      | (Inr key, w1) \<Rightarrow>
          (let paying = [''  paying as '' @ derive_address K key] in
           case parse_list (fmt_debug W) (arg_payment_paths A) of
             Inl e \<Rightarrow> Some (Inl e, paying, w1)
           | Inr paths \<Rightarrow>
               (case build_payment_header W K io (arg_rpc A) key (cc_resource_url challenge) terms paths w1 of
                  None \<Rightarrow> None
                | Some (r, w2) \<Rightarrow> Some (r, paying, w2))))"

definition retry_with_payment ::
  "wire \<Rightarrow> 'f replies_io \<Rightarrow> 'w client_io \<Rightarrow> 'f \<Rightarrow> PayArgs \<Rightarrow> (string \<times> string) list \<Rightarrow> string \<Rightarrow> 'w
    \<Rightarrow> (anyhow + nat) \<times> string list \<times> 'w" where
  "retry_with_payment W R io elapsed A headers header w =
     (if arg_dry_run A
      then (Inr 0, [NEWLINE @ ''--dry-run: built and signed, not sent'', ''PAYMENT-SIGNATURE: '' @ header], w)
      else
        (let retrying = [NEWLINE @ ''retrying with payment'' @ ELLIPSIS] in
         case client_send W R io elapsed (arg_method A) (arg_url A) headers (arg_data A) (Some header) w of
           (Inl e, w1) \<Rightarrow> (Inl e, retrying, w1)
         | (Inr paid, w1) \<Rightarrow> (Inr (if at_status paid \<noteq> 200 then 1 else 0), retrying @ result_lines paid, w1)))"

text \<open>What follows a 402.\<close>

definition pay_challenge ::
  "wire \<Rightarrow> 'f replies_io \<Rightarrow> ('k, 't) sdk \<Rightarrow> 'w client_io \<Rightarrow> 'f \<Rightarrow> PayArgs \<Rightarrow> (string \<times> string) list \<Rightarrow> 'f Attempt \<Rightarrow> 'w
    \<Rightarrow> ((anyhow + nat) \<times> string list \<times> 'w) option" where
  "pay_challenge W R K io elapsed A headers first w =
     (case read_offer first of
        Inl e \<Rightarrow> Some (Inl e, [], w)
      | Inr (challenge, terms) \<Rightarrow>
          (let offer = offer_lines challenge terms in
           if ct_scheme terms \<noteq> ''exact''
           then Some (Inl [''this client implements the `exact` scheme; the resource wants `'' @ ct_scheme terms @ ''`''], offer, w)
           else
             (case prepare_payment W K io A challenge terms w of
                None \<Rightarrow> None
              | Some (Inl e, out, w1) \<Rightarrow> Some (Inl e, offer @ out, w1)
              | Some (Inr header, out, w1) \<Rightarrow>
                  (case retry_with_payment W R io elapsed A headers header w1 of
                     (r, out1, w2) \<Rightarrow> Some (r, offer @ out @ out1, w2)))))"

definition pay_main ::
  "wire \<Rightarrow> 'f replies_io \<Rightarrow> ('k, 't) sdk \<Rightarrow> 'w client_io \<Rightarrow> 'f \<Rightarrow> 'f \<Rightarrow> PayArgs \<Rightarrow> 'w
    \<Rightarrow> ((anyhow + nat) \<times> string list \<times> 'w) option" where
  "pay_main W R K io elapsed1 elapsed2 A w =
     (case collect_ok (map (header_arg (fmt_debug W)) (arg_headers A)) of
        Inl e \<Rightarrow> Some (Inl e, [], w)
      | Inr headers \<Rightarrow>
          (case client_send W R io elapsed1 (arg_method A) (arg_url A) headers (arg_data A) None w of
             (Inl e, w1) \<Rightarrow> Some (Inl e, [], w1)
           | (Inr first, w1) \<Rightarrow>
               if at_status first \<noteq> 402
               then Some (Inr 0, [show_nat (unat (at_status first)) @ '' (no payment required)'', at_body first], w1)
               else pay_challenge W R K io elapsed2 A headers first w1))"

section \<open>What goes over the wire\<close>

text \<open>The client's outside with a record of the requests it sends.\<close>

definition beside :: "('w, 'e, 'a) eff \<Rightarrow> ('w \<times> 'l, 'e, 'a) eff" where
  "beside m s = (case m (fst s) of (r, w) \<Rightarrow> (r, w, snd s))"

definition traced :: "'w client_io \<Rightarrow> ('w \<times> HttpRequestOut list) client_io" where
  "traced io =
     \<lparr>rpc_connect = (\<lambda>url. beside (rpc_connect io url)),
      get_balance = (\<lambda>owner coin. beside (get_balance io owner coin)),
      list_owned_objects = (\<lambda>owner type. beside (list_owned_objects io owner type)),
      get_epoch = beside (get_epoch io), get_service_info = beside (get_service_info io),
      random_u32 = (\<lambda>s. case random_u32 io (fst s) of (n, w) \<Rightarrow> (n, w, snd s)),
      http_send = (\<lambda>request s. case http_send io request (fst s) of (r, w) \<Rightarrow> (r, w, snd s @ [request])),
      env_var = env_var io, read_file = (\<lambda>f. beside (read_file io f))\<rparr>"

text \<open>A computation that sends nothing over HTTP.\<close>

definition quiet :: "('w \<times> HttpRequestOut list, 'e, 'a) eff \<Rightarrow> bool" where
  "quiet m \<longleftrightarrow> (\<forall>s r s'. m s = (r, s') \<longrightarrow> snd s' = snd s)"

named_theorems quiet_rules

lemma quiet_bind [quiet_rules]: "quiet m \<Longrightarrow> (\<And>a. quiet (f a)) \<Longrightarrow> quiet (eff_bind m f)"
  unfolding quiet_def eff_bind_def by (auto split: prod.splits sum.splits) (metis snd_conv)+

lemma quiet_simple [quiet_rules]: "quiet (eff_return a)" "quiet (eff_fail e)" "quiet (eff_lift x)" "quiet (beside n)"
  by (auto simp: quiet_def beside_def split: prod.splits)

lemma quiet_map_err [quiet_rules]: "quiet m \<Longrightarrow> quiet (eff_map_err h m)"
  unfolding quiet_def eff_map_err_def by (auto split: prod.splits sum.splits)

lemma quiet_context [quiet_rules]: "quiet m \<Longrightarrow> quiet (context_of c m)"
  unfolding context_of_def by (rule quiet_map_err)

lemma traced_simps [simp]:
  "rpc_connect (traced io) url = beside (rpc_connect io url)"
  "get_balance (traced io) owner coin = beside (get_balance io owner coin)"
  "list_owned_objects (traced io) owner type = beside (list_owned_objects io owner type)"
  "get_epoch (traced io) = beside (get_epoch io)" "get_service_info (traced io) = beside (get_service_info io)"
  "read_file (traced io) f = beside (read_file io f)" "env_var (traced io) = env_var io"
  by (simp_all add: traced_def)

lemma quiet_random [quiet_rules]:
  "quiet (\<lambda>w. case random_u32 (traced io) w of (random, w1) \<Rightarrow> (Inr (g random), w1))"
  by (auto simp: quiet_def traced_def split: prod.splits)

lemma quiet_funding [quiet_rules]: "quiet (funding (traced io) rpc owner coin)"
  by (auto simp: funding_def Let_def intro!: quiet_rules)

lemma quiet_pick_coin [quiet_rules]: "quiet (pick_coin K (traced io) owner coin at_least)"
  by (auto simp: pick_coin_def intro!: quiet_rules)

lemma quiet_gasless [quiet_rules]: "quiet (build_gasless_payment W K (traced io) rpc sender payee asset amount)"
  by (auto simp: build_gasless_payment_def current_epoch_expiration_def intro!: quiet_rules)

lemma quiet_coin_object [quiet_rules]: "quiet (build_coin_object_payment K (traced io) rpc sender payee asset amount)"
  by (auto simp: build_coin_object_payment_def reference_gas_price_def intro!: quiet_rules)

lemma quiet_load_key [quiet_rules]: "quiet (load_key W K (traced io))"
  by (auto simp: load_key_def Let_def intro!: quiet_rules split: option.splits list.splits)

lemma quietD: "quiet m \<Longrightarrow> m s = (r, s') \<Longrightarrow> snd s' = snd s"
  unfolding quiet_def by blast

lemma try_paths_quiet:
  assumes "try_paths W K (traced io) rpc sender payee asset amount funds g [] paths s = Some (b, s')"
  shows "snd s' = snd s"
  using try_paths_cases[of paths amount funds g W K "traced io" rpc sender payee asset "[]" s]
proof (elim disjE exE conjE)
  fix path
  assume "try_paths W K (traced io) rpc sender payee asset amount funds g [] paths s =
      Some (case path of Gasless \<Rightarrow> build_gasless_payment W K (traced io) rpc sender payee asset amount s
        | _ \<Rightarrow> build_coin_object_payment K (traced io) rpc sender payee asset amount s)"
  with assms have "build_gasless_payment W K (traced io) rpc sender payee asset amount s = (b, s') \<or>
      build_coin_object_payment K (traced io) rpc sender payee asset amount s = (b, s')"
    by (cases path) simp_all
  then show ?thesis by (elim disjE) (erule quietD[rotated], rule quiet_rules)+
qed (use assms in simp)

lemma build_payment_header_quiet:
  assumes "build_payment_header W K (traced io) rpc key url terms paths s = Some (r, s')"
  shows "snd s' = snd s"
proof (cases "parse_u64 (ct_amount terms)")
  case (Some amount)
  show ?thesis
  proof (cases "parse_address K (ct_pay_to terms)")
    case (Inr payee)
    let ?asset = "ct_asset terms" and ?sender = "derive_address K key"
    have "\<exists>b. build_payment W K (traced io) rpc ?sender payee ?asset amount paths (advertised_gas_station terms) s = Some (b, s')"
      using assms Some Inr by (auto simp: build_payment_header_def split: option.splits sum.splits)
    then obtain b where b: "build_payment W K (traced io) rpc ?sender payee ?asset amount paths (advertised_gas_station terms) s = Some (b, s')"
      by blast
    obtain f s1 where f: "context_of (''reading '' @ ?sender @ [CHR 0x27] @ ''s '' @ ?asset @ '' balance'')
        (funding (traced io) rpc ?sender ?asset) s = (f, s1)" by (meson surj_pair)
    then have s1: "snd s1 = snd s" by (rule quietD[rotated]) (intro quiet_rules)
    show ?thesis
    proof (cases f)
      case (Inr funds)
      have "try_paths W K (traced io) rpc ?sender payee ?asset amount funds (advertised_gas_station terms) [] paths s1 = Some (b, s')"
        using b f Inr by (simp add: build_payment_def del: context_of_Inr_iff)
      then have "snd s' = snd s1" by (rule try_paths_quiet)
      with s1 show ?thesis by simp
    qed (use b f s1 in \<open>simp add: build_payment_def\<close>)
  qed (use assms Some in \<open>simp add: build_payment_header_def\<close>)
qed (use assms in \<open>simp add: build_payment_header_def\<close>)

lemma prepare_payment_quiet:
  assumes "prepare_payment W K (traced io) A challenge terms s = Some (r, out, s')"
  shows "snd s' = snd s"
proof -
  obtain k s1 where k: "load_key W K (traced io) s = (k, s1)" by (meson surj_pair)
  then have "snd s1 = snd s" by (rule quietD[OF quiet_load_key])
  with assms k show ?thesis
    by (auto simp: prepare_payment_def Let_def split: sum.splits option.splits dest!: build_payment_header_quiet)
qed

text \<open>The request that one attempt sends.\<close>

definition sent_request :: "string \<Rightarrow> string \<Rightarrow> (string \<times> string) list \<Rightarrow> string \<Rightarrow> string option \<Rightarrow> HttpRequestOut" where
  "sent_request method url headers body payment =
     \<lparr>ho_method = method, ho_url = url,
      ho_headers = headers @ (case payment of None \<Rightarrow> [] | Some p \<Rightarrow> [(HEADER_PAYMENT_SIGNATURE, p)]),
      ho_body = (if body \<noteq> [] then Some body else None)\<rparr>"

lemma client_send_sends:
  assumes "client_send W R (traced io) elapsed method url headers body payment s = (r, s')"
  shows "(\<exists>e. method_from_str R method = Inl e \<and> r = Inl [''invalid HTTP method'', e] \<and> s' = s) \<or>
    (\<exists>m. method_from_str R method = Inr m \<and> snd s' = snd s @ [sent_request m url headers body payment])"
  using assms
  by (auto simp: client_send_def traced_def sent_request_def context_of_def Let_def eff_bind_def eff_map_err_def eff_lift_def
      eff_return_def split: sum.splits prod.splits)

lemma build_payment_total:
  "\<exists>r s'. build_payment W K io rpc sender payee asset amount paths g s = Some (r, s')"
proof -
  have "\<exists>r s'. try_paths W K io rpc sender payee asset amount funds g [] paths s1 = Some (r, s')" for funds s1
    using try_paths_cases[of paths amount funds g W K io rpc sender payee asset "[]" s1] by (metis surj_pair)
  then show ?thesis by (auto simp: build_payment_def split: prod.split sum.split)
qed

lemma build_payment_header_total:
  "\<exists>r s'. build_payment_header W K io rpc key url terms paths s = Some (r, s')"
proof (cases "parse_u64 (ct_amount terms)")
  case (Some amount)
  show ?thesis
  proof (cases "parse_address K (ct_pay_to terms)")
    case (Inr payee)
    obtain b s1 where "build_payment W K io rpc (derive_address K key) payee (ct_asset terms) amount paths
        (advertised_gas_station terms) s = Some (b, s1)"
      using build_payment_total[of W K io rpc "derive_address K key" payee "ct_asset terms" amount paths
        "advertised_gas_station terms" s] by blast
    with Some Inr show ?thesis by (cases b) (simp_all add: build_payment_header_def)
  qed (use Some in \<open>simp add: build_payment_header_def\<close>)
qed (simp add: build_payment_header_def)

lemma prepare_payment_total: "\<exists>r out s'. prepare_payment W K io A challenge terms s = Some (r, out, s')"
proof -
  obtain k s1 where k: "load_key W K io s = (k, s1)" by (meson surj_pair)
  show ?thesis
  proof (cases k)
    case (Inr key)
    have "\<exists>r s2. build_payment_header W K io (arg_rpc A) key (cc_resource_url challenge) terms paths s1 = Some (r, s2)" for paths
      using build_payment_header_total[of W K io "arg_rpc A" key "cc_resource_url challenge" terms paths s1] .
    with k Inr show ?thesis
      by (cases "parse_list (fmt_debug W) (arg_payment_paths A)") (force simp: prepare_payment_def split: option.splits)+
  qed (use k in \<open>simp add: prepare_payment_def\<close>)
qed

lemma prepare_payment_ok:
  assumes "prepare_payment W K io A challenge terms s = Some (Inr header, out, s')"
  shows "\<exists>key paths s1. build_payment_header W K io (arg_rpc A) key (cc_resource_url challenge) terms paths s1 = Some (Inr header, s')"
  using assms by (fastforce simp: prepare_payment_def Let_def split: prod.splits sum.splits option.splits)

text \<open>
  The second request of a run: for the first terms of the challenge, of scheme \<open>exact\<close>, with the header built
  for them; \<open>r\<close> is the result of the run, \<open>s1\<close> and \<open>s'\<close> are the states before and after.
\<close>

definition pays_offer ::
  "wire \<Rightarrow> 'f replies_io \<Rightarrow> ('k, 't) sdk \<Rightarrow> 'w client_io \<Rightarrow> 'f \<Rightarrow> PayArgs \<Rightarrow> (string \<times> string) list \<Rightarrow> 'f Attempt
    \<Rightarrow> 'w \<times> HttpRequestOut list \<Rightarrow> string \<Rightarrow> anyhow + nat \<Rightarrow> 'w \<times> HttpRequestOut list \<Rightarrow> bool" where
  "pays_offer W R K io t A headers first s1 header r s' \<longleftrightarrow>
     \<not> arg_dry_run A \<and> at_status first = 402 \<and>
     (\<exists>challenge terms rest key paths s2 s3 reply.
        at_payment_required first = Some challenge \<and> cc_accepts challenge = terms # rest \<and> ct_scheme terms = ''exact'' \<and>
        build_payment_header W K (traced io) (arg_rpc A) key (cc_resource_url challenge) terms paths s2 = Some (Inr header, s3) \<and>
        snd s3 = snd s1 \<and>
        client_send W R (traced io) t (arg_method A) (arg_url A) headers (arg_data A) (Some header) s3 = (reply, s') \<and>
        (r = Inr 0 \<longleftrightarrow> (\<exists>paid. reply = Inr paid \<and> at_status paid = 200)))"

text \<open>After a 402: nothing more is sent, or the payment is.\<close>

lemma pay_challenge_cases:
  assumes "at_status first = 402"
  shows "\<exists>r out s'. pay_challenge W R K (traced io) t A headers first s = Some (r, out, s') \<and>
    (snd s' = snd s \<or> (\<exists>header. pays_offer W R K io t A headers first s header r s'))"
proof (cases "read_offer first")
  case (Inr offered)
  obtain challenge terms where o: "offered = (challenge, terms)" by fastforce
  obtain rest where first: "at_payment_required first = Some challenge" "cc_accepts challenge = terms # rest"
    using Inr by (cases "at_payment_required first") (auto simp: read_offer_def o split: list.splits)
  obtain p out1 s3 where p: "prepare_payment W K (traced io) A challenge terms s = Some (p, out1, s3)"
    using prepare_payment_total[of W K "traced io" A challenge terms s] by (elim exE)
  have s3: "snd s3 = snd s" using p by (rule prepare_payment_quiet)
  show ?thesis
  proof (cases "ct_scheme terms = ''exact'' \<and> \<not> arg_dry_run A \<and> is_ok p")
    case True
    then obtain header where h: "p = Inr header" by (cases p) simp_all
    obtain reply s' where reply: "client_send W R (traced io) t (arg_method A) (arg_url A) headers (arg_data A) (Some header) s3 = (reply, s')"
      by (meson surj_pair)
    obtain key paths s2 where "build_payment_header W K (traced io) (arg_rpc A) key (cc_resource_url challenge) terms paths s2 = Some (Inr header, s3)"
      using prepare_payment_ok[OF p[unfolded h]] by blast
    moreover obtain r out where "pay_challenge W R K (traced io) t A headers first s = Some (r, out, s')"
      "r = Inr 0 \<longleftrightarrow> (\<exists>paid. reply = Inr paid \<and> at_status paid = 200)"
      using True Inr o p h reply by (cases reply) (auto simp: pay_challenge_def retry_with_payment_def Let_def)
    ultimately show ?thesis using True first s3 reply assms unfolding pays_offer_def by blast
  next
    case False
    have "\<exists>r out s'. pay_challenge W R K (traced io) t A headers first s = Some (r, out, s') \<and> snd s' = snd s"
    proof (cases "ct_scheme terms = ''exact''")
      case True
      with False Inr o p have "\<exists>r out. pay_challenge W R K (traced io) t A headers first s = Some (r, out, s3)"
        by (cases p) (simp_all add: pay_challenge_def retry_with_payment_def Let_def)
      with s3 show ?thesis by blast
    next
      case False
      with Inr o have "\<exists>r out. pay_challenge W R K (traced io) t A headers first s = Some (r, out, s)"
        by (simp add: pay_challenge_def Let_def)
      then show ?thesis by blast
    qed
    then show ?thesis by blast
  qed
qed (simp add: pay_challenge_def)

lemma pays_offer_sends:
  assumes "pays_offer W R K io t A headers first s1 header r s'" "method_from_str R (arg_method A) = Inr m"
  shows "snd s' = snd s1 @ [sent_request m (arg_url A) headers (arg_data A) (Some header)]"
proof -
  obtain s3 reply where s3: "snd s3 = snd s1"
    and send2: "client_send W R (traced io) t (arg_method A) (arg_url A) headers (arg_data A) (Some header) s3 = (reply, s')"
    using assms(1) unfolding pays_offer_def by blast
  from client_send_sends[OF send2] assms(2) s3 show ?thesis by auto
qed

section \<open>Property\<close>

text \<open>C25: the command-line client pays only when asked, and once. Whatever the arguments, the endpoint and the
  wallet, a run never panics and sends at most two requests, to the URL given and with the body
  given. The first carries no payment; the second is sent only after a 402 whose first terms are of
  scheme \<open>exact\<close>, never with \<open>--dry-run\<close>, and differs from the first by exactly one header, the
  payment built for those terms. The exit code is then 0 exactly if the reply was 200.\<close>

theorem client_pays_only_when_asked:
  "\<exists>r out s'. pay_main W R K (traced io) t1 t2 A s = Some (r, out, s') \<and>
    (snd s' = snd s \<or>
     (\<exists>headers m. collect_ok (map (header_arg (fmt_debug W)) (arg_headers A)) = Inr headers \<and>
        method_from_str R (arg_method A) = Inr m \<and>
        (snd s' = snd s @ [sent_request m (arg_url A) headers (arg_data A) None] \<or>
         (\<exists>first s1 header.
            client_send W R (traced io) t1 (arg_method A) (arg_url A) headers (arg_data A) None s = (Inr first, s1) \<and>
            pays_offer W R K io t2 A headers first s1 header r s' \<and>
            snd s' = snd s @ [sent_request m (arg_url A) headers (arg_data A) None,
              sent_request m (arg_url A) headers (arg_data A) (Some header)]))))"
proof (cases "collect_ok (map (header_arg (fmt_debug W)) (arg_headers A))")
  case (Inr headers)
  note h = Inr
  obtain reply1 s1 where send1: "client_send W R (traced io) t1 (arg_method A) (arg_url A) headers (arg_data A) None s = (reply1, s1)"
    by (meson surj_pair)
  show ?thesis
  proof (cases reply1)
    case (Inl e)
    with client_send_sends[OF send1] send1 h show ?thesis by (auto simp: pay_main_def)
  next
    case (Inr first)
    obtain m where m: "method_from_str R (arg_method A) = Inr m"
      and s1: "snd s1 = snd s @ [sent_request m (arg_url A) headers (arg_data A) None]"
      using client_send_sends[OF send1] Inr by auto
    show ?thesis
    proof (cases "at_status first = 402")
      case True
      obtain r out s' where p: "pay_challenge W R K (traced io) t2 A headers first s1 = Some (r, out, s')"
        and c: "snd s' = snd s1 \<or> (\<exists>header. pays_offer W R K io t2 A headers first s1 header r s')"
        using pay_challenge_cases[OF True] by blast
      have "pay_main W R K (traced io) t1 t2 A s = Some (r, out, s')"
        using h send1 Inr True p by (simp add: pay_main_def)
      moreover have "snd s' = snd s @ [sent_request m (arg_url A) headers (arg_data A) None,
          sent_request m (arg_url A) headers (arg_data A) (Some header)]"
        if "pays_offer W R K io t2 A headers first s1 header r s'" for header
        using pays_offer_sends[OF that m] s1 by simp
      ultimately show ?thesis using c s1 m h send1[unfolded Inr] by metis
    next
      case False
      with send1 Inr m s1 h show ?thesis by (auto simp: pay_main_def)
    qed
  qed
qed (simp add: pay_main_def)

end
