(* ===== verification/DemoServer.thy ===== *)
theory DemoServer
  imports PayCli IpAddr
begin

text \<open>
  The demo console (src/bin/x402-demo.rs): a server that requests the gateway's targets on behalf of a
  browser and pays with its own wallet when challenged, under two spend controls, and a few pages
  around it. Routing and JSON extraction are axum; a handler is a function of what was extracted. The
  mutex around \<open>spent\<close> and the entry lock of \<open>per_ip\<close> make \<open>pay_and_retry\<close> and \<open>admit_visitor\<close> steps that no other
  handler interrupts.
\<close>

section \<open>What is for sale\<close>

definition MIDDLE_DOT :: string where "MIDDLE_DOT = [CHR 0xC2, CHR 0xB7]"
definition RIGHT_ARROW :: string where "RIGHT_ARROW = [CHR 0xE2, CHR 0x86, CHR 0x92]"

record DemoArgs =
  da_rpc :: string
  da_max_plays :: u64
  da_plays_per_ip_hourly :: u64
  da_static_dir :: string
  da_prize_video :: "string option"
  da_gateway :: string
  da_metrics :: string
  da_facilitator_api :: string
  da_asset :: string

record Target =
  tg_id :: string
  tg_label :: string
  tg_upstream :: string
  tg_detail :: string
  tg_path :: string
  tg_method :: string
  tg_content_type :: string
  tg_body :: string
  tg_free :: bool

definition TARGETS :: "Target list" where
  "TARGETS =
     [\<lparr>tg_id = ''free'', tg_label = ''GraphQL '' @ MIDDLE_DOT @ '' chain identity'', tg_upstream = ''graphql.testnet.sui.io'',
       tg_detail = ''Free. Metered and passed straight through '' @ EM_DASH @ '' a price of zero is still a policy.'',
       tg_path = ''/free/graphql'', tg_method = ''POST'', tg_content_type = ''application/json'',
       tg_body = ''{\"query\":\"{ chainIdentifier }\"}'', tg_free = True\<rparr>,
      \<lparr>tg_id = ''graphql'', tg_label = ''GraphQL '' @ MIDDLE_DOT @ '' latest checkpoint'', tg_upstream = ''graphql.testnet.sui.io'',
       tg_detail = ''Small free allowance, then a price. This is the wall the demo is about.'',
       tg_path = ''/graphql'', tg_method = ''POST'', tg_content_type = ''application/json'',
       tg_body = ''{\"query\":\"{ checkpoint { sequenceNumber digest } epoch { epochId } }\"}'', tg_free = False\<rparr>,
      \<lparr>tg_id = ''grpc'', tg_label = ''gRPC '' @ MIDDLE_DOT @ '' LedgerService'', tg_upstream = ''fullnode.testnet.sui.io'',
       tg_detail = ''A binary protocol nobody else gates. Different price, different receiving wallet, same filter.'',
       tg_path = ''/sui.rpc.v2.LedgerService/GetServiceInfo'', tg_method = ''POST'',
       tg_content_type = ''application/grpc-web+proto'', tg_body = [], tg_free = False\<rparr>,
      \<lparr>tg_id = ''fail'', tg_label = ''An upstream that always fails'', tg_upstream = ''this box, port 8402'',
       tg_detail = ''Also has no payment code. Returns 503 on purpose: verified, served a failure, and NOT charged.'',
       tg_path = ''/boom'', tg_method = ''POST'', tg_content_type = ''application/json'', tg_body = ''{}'', tg_free = False\<rparr>,
      \<lparr>tg_id = ''spin'', tg_label = ''Spin the wheel'', tg_upstream = ''this box, port 8402'',
       tg_detail = ''An ordinary HTTP handler with NO payment code of its own. The gateway sells it; the app never finds out.'',
       tg_path = ''/spin'', tg_method = ''POST'', tg_content_type = ''application/json'', tg_body = ''{}'', tg_free = False\<rparr>]"

definition target :: "string \<Rightarrow> Target option" where
  "target wanted = find (\<lambda>t. tg_id t = wanted) TARGETS"

definition trim_end_slashes :: "string \<Rightarrow> string" where
  "trim_end_slashes s = rev (dropWhile (\<lambda>c. c = CHR ''/'') (rev s))"

definition is_grpc_web :: "Target \<Rightarrow> bool" where
  "is_grpc_web t = starts_with (tg_content_type t) ''application/grpc-web''"

definition grpc_web_body :: "Target \<Rightarrow> string" where
  "grpc_web_body t = (if is_grpc_web t then replicate 5 (CHR 0x00) else tg_body t)"

definition forwarded :: "'f replies_io \<Rightarrow> (string \<times> bytes) list \<Rightarrow> (string \<times> string) list" where
  "forwarded R incoming =
     List.map_filter (\<lambda>name. map_option (Pair name) (Option.bind (map_of incoming name) (header_to_str R)))
       [''x-forwarded-host'', ''x-forwarded-proto'']"

section \<open>Previews\<close>

text \<open>A control character of a UTF-8 text other than newline, return and tab.\<close>

fun has_control :: "string \<Rightarrow> bool" where
  "has_control [] = False"
| "has_control (c # cs) =
     ((of_char c < (32 :: nat) \<and> c \<noteq> CHR 0x0A \<and> c \<noteq> CHR 0x0D \<and> c \<noteq> CHR 0x09) \<or> c = CHR 0x7F \<or>
      (c = CHR 0xC2 \<and> (case cs of [] \<Rightarrow> False | d # _ \<Rightarrow> (0x80 :: nat) \<le> of_char d \<and> of_char d \<le> (0x9F :: nat))) \<or>
      has_control cs)"

definition is_continuation :: "char \<Rightarrow> bool" where
  "is_continuation c \<longleftrightarrow> (0x80 :: nat) \<le> of_char c \<and> of_char c \<le> (0xBF :: nat)"

text \<open>The byte offsets of \<open>char_indices\<close>.\<close>

definition char_starts :: "string \<Rightarrow> nat list" where
  "char_starts s = filter (\<lambda>i. \<not> is_continuation (s ! i)) [0..<length s]"

definition PREVIEW_MAX :: nat where "PREVIEW_MAX = 600"

definition trim_body :: "string \<Rightarrow> string" where
  "trim_body body =
     (if has_control body then ''<'' @ show_nat (length body) @ '' bytes of grpc-web frames>''
      else if length body \<le> PREVIEW_MAX then body
      else
        (let early = takeWhile (\<lambda>i. i \<le> PREVIEW_MAX) (char_starts body);
             cut = (if early = [] then 0 else last early) in
         take cut body @ ELLIPSIS))"

section \<open>The trace\<close>

text \<open>The arithmetic of binary64 that the trace uses.\<close>

record 'f float_ops =
  fl_zero :: 'f
  fl_add :: "'f \<Rightarrow> 'f \<Rightarrow> 'f"
  fl_sub :: "'f \<Rightarrow> 'f \<Rightarrow> 'f"
  fl_max :: "'f \<Rightarrow> 'f \<Rightarrow> 'f"

record 'f Span =
  sn_name :: string
  sn_actor :: string
  sn_start_ms :: 'f
  sn_dur_ms :: 'f
  sn_depth :: nat
  sn_outcome :: string
  sn_detail :: string

definition http_detail :: "'f Attempt \<Rightarrow> string" where
  "http_detail a = ''HTTP '' @ show_nat (unat (at_status a))"

definition attempt_spans :: "'f float_ops \<Rightarrow> 'f Attempt \<Rightarrow> 'f \<Rightarrow> bool \<Rightarrow> 'f Span list" where
  "attempt_spans fl attempt start paid =
     (let timing = map_of (at_server_timing attempt) in
      (case timing ''x402-decide'' of
         None \<Rightarrow> []
       | Some decide \<Rightarrow>
           [\<lparr>sn_name = (if paid then ''verify payment'' else ''check the meter''), sn_actor = ''verifier'',
             sn_start_ms = start, sn_dur_ms = decide, sn_depth = 1, sn_outcome = ''ok'',
             sn_detail = (if paid then ''signature, simulation, live inputs, exact credit''
                          else ''free-tier or session check; no chain access'')\<rparr>]) @
      (case at_upstream_ms attempt of
         None \<Rightarrow> []
       | Some upstream \<Rightarrow>
           [\<lparr>sn_name = ''upstream serves the request'', sn_actor = ''envoy '' @ RIGHT_ARROW @ '' upstream'',
             sn_start_ms = fl_add fl start (case timing ''x402-decide'' of None \<Rightarrow> fl_zero fl | Some d \<Rightarrow> d),
             sn_dur_ms = upstream, sn_depth = 1, sn_outcome = (if at_status attempt = 200 then ''ok'' else ''err''),
             sn_detail = http_detail attempt\<rparr>]) @
      (case timing ''x402-settle'' of
         Some settle \<Rightarrow>
           [\<lparr>sn_name = ''settle on chain'', sn_actor = ''verifier'',
             sn_start_ms = fl_max fl (fl_sub fl (fl_add fl start (at_elapsed_ms attempt)) settle) start,
             sn_dur_ms = settle, sn_depth = 1, sn_outcome = ''pay'',
             sn_detail = ''broadcast the client'' @ [CHR 0x27] @ ''s signed transaction''\<rparr>]
       | None \<Rightarrow>
           if paid \<and> at_status attempt \<noteq> 200
           then
             [\<lparr>sn_name = ''settle on chain'', sn_actor = ''verifier'',
               sn_start_ms = fl_add fl start (at_elapsed_ms attempt), sn_dur_ms = fl_zero fl,
               sn_depth = 1, sn_outcome = ''skip'',
               sn_detail = ''SKIPPED '' @ EM_DASH @ '' upstream did not return 2xx, so nothing was charged''\<rparr>]
           else []))"

section \<open>Selling one request\<close>

record SendRequest =
  sd_target :: string
  sd_session :: "string option"

text \<open>\<open>ApiError\<close>, which is always answered with 429.\<close>

record ApiError =
  ae_error :: string
  ae_detail :: string

text \<open>The exchange as the page shows it (\<open>Wire\<close>).\<close>

record Exchange =
  xc_challenge :: "json option"
  xc_payment :: "json option"
  xc_receipt :: "json option"
  xc_first_status :: u16
  xc_paid_status :: "u16 option"

record 'f SendResult =
  se_target :: string
  se_status :: u16
  se_paid :: bool
  se_session :: "string option"
  se_meter :: ClientMeter
  se_transaction :: string
  se_network :: string
  se_body :: string
  se_plays_remaining :: u64
  se_wire :: Exchange
  se_trace :: "'f Span list"
  se_settled :: bool

record DemoState =
  ds_spent :: u64
  ds_per_ip :: "IpAddr \<Rightarrow> (u64 \<times> u64) option"

definition demo_start :: DemoState where
  "demo_start = \<lparr>ds_spent = 0, ds_per_ip = (\<lambda>_. None)\<rparr>"

text \<open>The readings of the clocks, in the order the handler takes them.\<close>

record 'f demo_moments =
  dm_first_elapsed :: 'f
  dm_now :: u64
  dm_build_start :: 'f
  dm_build_end :: 'f
  dm_paid_start :: 'f
  dm_paid_elapsed :: 'f

text \<open>\<open>Display\<close> of an \<open>anyhow\<close> error: its outermost message.\<close>

definition anyhow_display :: "anyhow \<Rightarrow> string" where
  "anyhow_display e = (case e of [] \<Rightarrow> [] | message # _ \<Rightarrow> message)"

definition api_error :: "string \<Rightarrow> string \<Rightarrow> ApiError" where
  "api_error error detail = \<lparr>ae_error = error, ae_detail = detail\<rparr>"

text \<open>A request against a target, with the reply to its first attempt.\<close>

record 'f Asked =
  ak_target :: Target
  ak_url :: string
  ak_headers :: "(string \<times> string) list"
  ak_body :: string
  ak_session :: "string option"
  ak_first :: "'f Attempt"
  ak_trace :: "'f Span list"

definition request_headers ::
  "'f replies_io \<Rightarrow> Target \<Rightarrow> (string \<times> bytes) list \<Rightarrow> string option \<Rightarrow> (string \<times> string) list" where
  "request_headers R t incoming session =
     [(''content-type'', tg_content_type t)] @ forwarded R incoming @
     (case session of None \<Rightarrow> [] | Some s \<Rightarrow> [(''x-payment-session'', s)]) @
     (if is_grpc_web t then [(''x-grpc-web'', ''1'')] else [])"

definition first_span :: "'f float_ops \<Rightarrow> 'f Attempt \<Rightarrow> 'f Span" where
  "first_span fl first =
     \<lparr>sn_name = (if at_status first = 402 then ''request without payment'' else ''request''),
      sn_actor = ''demo '' @ RIGHT_ARROW @ '' gateway'', sn_start_ms = fl_zero fl, sn_dur_ms = at_elapsed_ms first, sn_depth = 0,
      sn_outcome = (if at_status first = 402 then ''pay'' else if at_status first = 200 then ''ok'' else ''err''),
      sn_detail = http_detail first\<rparr>"

text \<open>Up to the first reply.\<close>

definition ask ::
  "wire \<Rightarrow> 'f replies_io \<Rightarrow> 'f float_ops \<Rightarrow> 'w client_io \<Rightarrow> DemoArgs \<Rightarrow> 'f \<Rightarrow> (string \<times> bytes) list \<Rightarrow> SendRequest
    \<Rightarrow> ('w, ApiError, 'f Asked) eff" where
  "ask W R fl io args elapsed incoming request w =
     (case target (sd_target request) of
        None \<Rightarrow> (Inl (api_error ''unknown_target'' (''no target named '' @ fmt_debug W (sd_target request))), w)
      | Some t \<Rightarrow>
          (let url = trim_end_slashes (da_gateway args) @ tg_path t;
               headers = request_headers R t incoming (sd_session request);
               body = grpc_web_body t in
           case client_send W R io elapsed (tg_method t) url headers body None w of
             (Inl e, w1) \<Rightarrow> (Inl (api_error ''gateway_unreachable'' (anyhow_display e)), w1)
           | (Inr first, w1) \<Rightarrow>
               (Inr \<lparr>ak_target = t, ak_url = url, ak_headers = headers, ak_body = body, ak_session = sd_session request,
                     ak_first = first, ak_trace = first_span fl first # attempt_spans fl first (fl_zero fl) False\<rparr>, w1)))"

definition plays_remaining :: "DemoArgs \<Rightarrow> u64 \<Rightarrow> u64" where
  "plays_remaining args spent = sat_sub (da_max_plays args) spent"

text \<open>Served without payment.\<close>

definition served :: "'f Asked \<Rightarrow> u64 \<Rightarrow> 'f SendResult" where
  "served asked remaining =
     (let first = ak_first asked in
      \<lparr>se_target = tg_id (ak_target asked), se_status = at_status first, se_paid = False, se_session = ak_session asked,
       se_meter = at_meter_read first, se_transaction = [], se_network = [], se_body = trim_body (at_body first),
       se_plays_remaining = remaining,
       se_wire = \<lparr>xc_challenge = None, xc_payment = None, xc_receipt = None, xc_first_status = at_status first, xc_paid_status = None\<rparr>,
       se_trace = ak_trace asked, se_settled = False\<rparr>)"

text \<open>The hourly allowance of a visitor.\<close>

definition visitor_limit_message :: "u64 \<Rightarrow> string" where
  "visitor_limit_message limit =
     ''this demo pays from one small testnet wallet, so it allows '' @ show_u64 limit @
     '' paid requests per hour per visitor. Try again next hour, or point your own wallet at the same gateway.''"

definition admit_visitor ::
  "DemoArgs \<Rightarrow> (IpAddr \<Rightarrow> (u64 \<times> u64) option) \<Rightarrow> IpAddr \<times> u64 \<Rightarrow> (ApiError + unit) \<times> (IpAddr \<Rightarrow> (u64 \<times> u64) option)" where
  "admit_visitor args per_ip = (\<lambda>(ip, now).
     (let hour = now div 3600;
          (h, plays) = (case per_ip ip of None \<Rightarrow> (hour, 0) | Some entry \<Rightarrow> if fst entry \<noteq> hour then (hour, 0) else entry) in
      if da_plays_per_ip_hourly args \<le> plays
      then (Inl (api_error ''rate_limited'' (visitor_limit_message (da_plays_per_ip_hourly args))), per_ip(ip \<mapsto> (h, plays)))
      else (Inr (), per_ip(ip \<mapsto> (h, plays + 1)))))"

definition challenge_json :: "ClientChallenge \<Rightarrow> json" where
  "challenge_json challenge =
     JObject
       [(''resource'', JObject [(''url'', JString (cc_resource_url challenge))]),
        (''accepts'', JArray (map (\<lambda>terms. JObject
          ([(''scheme'', JString (ct_scheme terms)), (''network'', JString (ct_network terms)),
            (''amount'', JString (ct_amount terms)), (''asset'', JString (ct_asset terms)),
            (''payTo'', JString (ct_pay_to terms)), (''maxTimeoutSeconds'', json_u64 (ct_max_timeout_seconds terms))] @
           (case ct_extra terms of None \<Rightarrow> [] | Some extra \<Rightarrow> [(''extra'', extra)]))) (cc_accepts challenge)))]"

definition receipt_json :: "ClientReceipt \<Rightarrow> json" where
  "receipt_json receipt =
     JObject
       [(''success'', JBool (cr_success receipt)),
        (''errorReason'', (case cr_error_reason receipt of None \<Rightarrow> JNull | Some e \<Rightarrow> JString e)),
        (''transaction'', JString (cr_transaction receipt)), (''network'', JString (cr_network receipt))]"

definition base64_json :: "wire \<Rightarrow> (bytes \<Rightarrow> json option) \<Rightarrow> string \<Rightarrow> json option" where
  "base64_json W from_slice raw = Option.bind (r_ok (b64_decode W (trim raw))) from_slice"

text \<open>A receipt that says money moved: not the stub facilitator's.\<close>

definition moved_money :: "ClientReceipt option \<Rightarrow> bool" where
  "moved_money receipt =
     (case receipt of None \<Rightarrow> False | Some r \<Rightarrow> cr_success r \<and> \<not> starts_with (cr_transaction r) ''stub-'')"

definition sold :: "wire \<Rightarrow> (bytes \<Rightarrow> json option) \<Rightarrow> 'f Asked \<Rightarrow> ClientChallenge \<Rightarrow> string \<Rightarrow> 'f Attempt \<Rightarrow> 'f Span list \<Rightarrow> u64
    \<Rightarrow> 'f SendResult" where
  "sold W from_slice asked challenge payment paid trace remaining =
     (let receipt = at_payment_response paid in
      \<lparr>se_target = tg_id (ak_target asked), se_status = at_status paid, se_paid = True,
       se_session = (case at_session paid of None \<Rightarrow> ak_session asked | Some s \<Rightarrow> Some s),
       se_meter = at_meter_read paid,
       se_transaction = (case receipt of None \<Rightarrow> [] | Some r \<Rightarrow> cr_transaction r),
       se_network = (case receipt of None \<Rightarrow> [] | Some r \<Rightarrow> cr_network r),
       se_body = trim_body (at_body paid), se_plays_remaining = remaining,
       se_wire = \<lparr>xc_challenge = Some (challenge_json challenge), xc_payment = base64_json W from_slice payment,
         xc_receipt = map_option receipt_json receipt, xc_first_status = at_status (ak_first asked),
         xc_paid_status = Some (at_status paid)\<rparr>,
       se_trace = trace, se_settled = moved_money receipt\<rparr>)"

definition payment_spans :: "'f float_ops \<Rightarrow> 'f demo_moments \<Rightarrow> 'f Attempt \<Rightarrow> 'f Span list" where
  "payment_spans fl mo paid =
     [\<lparr>sn_name = ''build and sign the payment'', sn_actor = ''demo wallet'', sn_start_ms = dm_build_start mo,
       sn_dur_ms = fl_sub fl (dm_build_end mo) (dm_build_start mo), sn_depth = 0, sn_outcome = ''pay'',
       sn_detail = ''pick a coin, read gas price, build a PTB, sign locally''\<rparr>,
      \<lparr>sn_name = ''request with payment'', sn_actor = ''demo '' @ RIGHT_ARROW @ '' gateway'', sn_start_ms = dm_paid_start mo,
       sn_dur_ms = at_elapsed_ms paid, sn_depth = 0, sn_outcome = (if at_status paid = 200 then ''ok'' else ''err''),
       sn_detail = http_detail paid\<rparr>] @
     attempt_spans fl paid (dm_paid_start mo) True"

definition budget_exhausted :: ApiError where
  "budget_exhausted = api_error ''budget_exhausted''
     (''the demo wallet'' @ [CHR 0x27] @ ''s gas budget for this run is spent. Testnet SUI is free '' @ EM_DASH @
      '' top it up with `sui client faucet` and restart.'')"

text \<open>What the handler does while it holds the lock on \<open>spent\<close>. \<open>None\<close> is a panic.\<close>

definition pay_and_retry ::
  "wire \<Rightarrow> 'f replies_io \<Rightarrow> 'f float_ops \<Rightarrow> (bytes \<Rightarrow> json option) \<Rightarrow> ('k, 't) sdk \<Rightarrow> 'w client_io \<Rightarrow> DemoArgs \<Rightarrow> 'f demo_moments
    \<Rightarrow> 'f Asked \<Rightarrow> u64 \<Rightarrow> 'w \<Rightarrow> ((ApiError + 'f SendResult) \<times> u64 \<times> 'w) option" where
  "pay_and_retry W R fl from_slice K io args mo asked spent w =
     (if da_max_plays args \<le> spent then Some (Inl budget_exhausted, spent, w)
      else
        (case at_payment_required (ak_first asked) of
           None \<Rightarrow> Some (Inl (api_error ''malformed_challenge'' ''402 without a PAYMENT-REQUIRED header''), spent, w)
         | Some challenge \<Rightarrow>
        (case cc_accepts challenge of
           [] \<Rightarrow> Some (Inl (api_error ''malformed_challenge'' ''challenge advertised no payment options''), spent, w)
         | terms # _ \<Rightarrow>
        (case load_key W K io w of
           (Inl e, w1) \<Rightarrow> Some (Inl (api_error ''no_wallet'' (anyhow_display e)), spent, w1)
         | (Inr key, w1) \<Rightarrow>
        (case build_payment_header W K io (da_rpc args) key (cc_resource_url challenge) terms DEFAULT_PAYMENT_PATHS w1 of
           None \<Rightarrow> None
         | Some (Inl e, w2) \<Rightarrow> Some (Inl (api_error ''payment_failed'' (anyhow_display e)), spent, w2)
         | Some (Inr payment, w2) \<Rightarrow>
        (case client_send W R io (dm_paid_elapsed mo) (tg_method (ak_target asked)) (ak_url asked) (ak_headers asked)
                (ak_body asked) (Some payment) w2 of
           (Inl e, w3) \<Rightarrow> Some (Inl (api_error ''gateway_unreachable'' (anyhow_display e)), spent, w3)
         | (Inr paid, w3) \<Rightarrow>
             (let spent1 = (if moved_money (at_payment_response paid) then spent + 1 else spent) in
              Some (Inr (sold W from_slice asked challenge payment paid (ak_trace asked @ payment_spans fl mo paid)
                (plays_remaining args spent1)), spent1, w3))))))))"

text \<open>The handler of \<open>/send\<close>, undisturbed.\<close>

definition send ::
  "wire \<Rightarrow> 'f replies_io \<Rightarrow> 'f float_ops \<Rightarrow> (bytes \<Rightarrow> json option) \<Rightarrow> ('k, 't) sdk \<Rightarrow> 'w client_io \<Rightarrow> DemoArgs \<Rightarrow> 'f demo_moments
    \<Rightarrow> IpAddr \<Rightarrow> (string \<times> bytes) list \<Rightarrow> SendRequest \<Rightarrow> DemoState \<Rightarrow> 'w
    \<Rightarrow> ((ApiError + 'f SendResult) \<times> DemoState \<times> 'w) option" where
  "send W R fl from_slice K io args mo peer incoming request s w =
     (case ask W R fl io args (dm_first_elapsed mo) incoming request w of
        (Inl e, w1) \<Rightarrow> Some (Inl e, s, w1)
      | (Inr asked, w1) \<Rightarrow>
          if at_status (ak_first asked) \<noteq> 402
          then Some (Inr (served asked (plays_remaining args (ds_spent s))), s, w1)
          else
            (case admit_visitor args (ds_per_ip s) (peer, dm_now mo) of
               (Inl e, per_ip) \<Rightarrow> Some (Inl e, s\<lparr>ds_per_ip := per_ip\<rparr>, w1)
             | (Inr _, per_ip) \<Rightarrow>
                 (case pay_and_retry W R fl from_slice K io args mo asked (ds_spent s) w1 of
                    None \<Rightarrow> None
                  | Some (r, spent, w2) \<Rightarrow> Some (r, s\<lparr>ds_spent := spent, ds_per_ip := per_ip\<rparr>, w2))))"

text \<open>The start: no usable key, no service.\<close>

definition demo_main :: "wire \<Rightarrow> ('k, 't) sdk \<Rightarrow> 'w client_io \<Rightarrow> ('w, anyhow, DemoState) eff" where
  "demo_main W K io = eff_bind (context_of ''loading the demo wallet key'' (load_key W K io)) (\<lambda>_. eff_return demo_start)"

section \<open>The pages\<close>

record HttpReply =
  hr_status :: u16
  hr_headers :: "(string \<times> bytes) list"
  hr_body :: bytes

record PolicyRow =
  pl_name :: string
  pl_pay_to :: string

record ForwardedRequest =
  fw_method :: string
  fw_url :: string
  fw_headers :: "(string \<times> bytes) list"
  fw_body :: bytes

text \<open>
  \<open>reqwest::get\<close> (\<open>None\<close>: the body could not be read), the request of the proxy, files, and the JSON
  reader for the policy table and for values.
\<close>

record 'w pages_io =
  pg_get :: "string \<Rightarrow> ('w, string, string option) eff"
  pg_forward :: "ForwardedRequest \<Rightarrow> ('w, string, HttpReply) eff"
  pg_file :: "string \<Rightarrow> ('w, string, bytes) eff"
  pg_rows :: "string \<Rightarrow> PolicyRow list option"
  pg_json :: "string \<Rightarrow> json option"

definition text_reply :: "u16 \<Rightarrow> string \<Rightarrow> HttpReply" where
  "text_reply status body = \<lparr>hr_status = status, hr_headers = [(''content-type'', ''text/plain; charset=utf-8'')], hr_body = body\<rparr>"

definition typed_reply :: "string \<Rightarrow> string \<Rightarrow> HttpReply" where
  "typed_reply content_type body = \<lparr>hr_status = 200, hr_headers = [(''content-type'', content_type)], hr_body = body\<rparr>"

definition policies_url :: "DemoArgs \<Rightarrow> string" where
  "policies_url args = trim_end_slashes (da_facilitator_api args) @ ''/policies''"

definition policies_proxy :: "'w pages_io \<Rightarrow> DemoArgs \<Rightarrow> 'w \<Rightarrow> HttpReply \<times> 'w" where
  "policies_proxy P args w =
     (case pg_get P (policies_url args) w of
        (Inr (Some body), w1) \<Rightarrow> (typed_reply ''application/json'' body, w1)
      | (Inr None, w1) \<Rightarrow> (text_reply 502 ''[]'', w1)
      | (Inl _, w1) \<Rightarrow> (typed_reply ''application/json'' ''[]'', w1))"

definition metrics_proxy :: "'w pages_io \<Rightarrow> DemoArgs \<Rightarrow> 'w \<Rightarrow> HttpReply \<times> 'w" where
  "metrics_proxy P args w =
     (case pg_get P (da_metrics args @ ''/metrics'') w of
        (Inr (Some body), w1) \<Rightarrow> (text_reply 200 body, w1)
      | (Inr None, w1) \<Rightarrow> (text_reply 502 [], w1)
      | (Inl _, w1) \<Rightarrow> (text_reply 200 [], w1))"

record Payee =
  py_target :: string
  py_address :: string
  py_balance :: "u64 option"

record Balances =
  bs_payer :: string
  bs_payer_balance :: "u64 option"
  bs_payees :: "Payee list"
  bs_asset :: string

definition charges :: "PolicyRow \<Rightarrow> bool" where
  "charges row \<longleftrightarrow> (\<exists>t \<in> set TARGETS. tg_id t = pl_name row \<and> \<not> tg_free t)"

text \<open>A wallet that is already listed gets the policy's name added.\<close>

fun merge_payee :: "string \<Rightarrow> string \<Rightarrow> Payee list \<Rightarrow> Payee list" where
  "merge_payee name address [] = []"
| "merge_payee name address (p # ps) =
     (if py_address p = address then p\<lparr>py_target := py_target p @ '' + '' @ name\<rparr> # ps
      else p # merge_payee name address ps)"

text \<open>\<open>.ok()\<close> of a balance.\<close>

definition balance_ok :: "'w client_io \<Rightarrow> DemoArgs \<Rightarrow> string \<Rightarrow> 'w \<Rightarrow> u64 option \<times> 'w" where
  "balance_ok io args owner w = (case client_balance io (da_rpc args) owner (da_asset args) w of (r, w1) \<Rightarrow> (r_ok r, w1))"

fun collect_payees :: "('k, 't) sdk \<Rightarrow> 'w client_io \<Rightarrow> DemoArgs \<Rightarrow> PolicyRow list \<Rightarrow> Payee list \<Rightarrow> 'w \<Rightarrow> Payee list \<times> 'w" where
  "collect_payees K io args [] payees w = (payees, w)"
| "collect_payees K io args (row # rows) payees w =
     (if \<not> charges row then collect_payees K io args rows payees w
      else if pl_pay_to row \<in> py_address ` set payees
      then collect_payees K io args rows (merge_payee (pl_name row) (pl_pay_to row) payees) w
      else
        (let (balance, w1) =
           (case parse_address K (pl_pay_to row) of Inl _ \<Rightarrow> (None, w) | Inr address \<Rightarrow> balance_ok io args address w) in
         collect_payees K io args rows
           (payees @ [\<lparr>py_target = pl_name row, py_address = pl_pay_to row, py_balance = balance\<rparr>]) w1))"

definition balances :: "wire \<Rightarrow> ('k, 't) sdk \<Rightarrow> 'w client_io \<Rightarrow> 'w pages_io \<Rightarrow> DemoArgs \<Rightarrow> 'w \<Rightarrow> (HttpReply + Balances) \<times> 'w" where
  "balances W K io P args w =
     (case load_key W K io w of
        (Inl _, w1) \<Rightarrow> (Inl (text_reply 503 ''no demo wallet''), w1)
      | (Inr key, w1) \<Rightarrow>
          (let payer = derive_address K key;
               (page, w2) = pg_get P (policies_url args) w1;
               table = (case Option.bind (Option.bind (r_ok page) (\<lambda>b. b)) (pg_rows P) of None \<Rightarrow> [] | Some rows \<Rightarrow> rows);
               (payees, w3) = collect_payees K io args table [] w2;
               (balance, w4) = balance_ok io args payer w3 in
           (Inr \<lparr>bs_payer = payer, bs_payer_balance = balance, bs_payees = payees, bs_asset = da_asset args\<rparr>, w4)))"

definition be_u64 :: "bytes \<Rightarrow> u64" where
  "be_u64 b = word_of_nat (foldl (\<lambda>n c. n * 256 + of_char c) 0 b)"

definition chain_id_from :: "(string \<Rightarrow> json option) \<Rightarrow> string \<Rightarrow> string" where
  "chain_id_from from_str body =
     (case Option.bind (Option.bind (Option.bind (from_str body) (json_get ''data'')) (json_get ''chainIdentifier'')) json_as_str of
        None \<Rightarrow> [] | Some s \<Rightarrow> s)"

definition roll_of :: "wire \<Rightarrow> string \<Rightarrow> u64" where
  "roll_of W seed = be_u64 (take 8 (sha256 W seed)) mod 100 + 1"

definition wheel :: "wire \<Rightarrow> 'w client_io \<Rightarrow> 'w pages_io \<Rightarrow> DemoArgs \<Rightarrow> 'w \<Rightarrow> json \<times> 'w" where
  "wheel W io P args w =
     (case http_send io
        \<lparr>ho_method = ''POST'', ho_url = trim_end_slashes (da_gateway args) @ ''/free/graphql'',
         ho_headers = [(''content-type'', ''application/json'')],
         ho_body = Some ''{\"query\":\"{ chainIdentifier checkpoint { digest } }\"}''\<rparr> w of
      (reply, w1) \<Rightarrow>
        (let seed = (case reply of Inl _ \<Rightarrow> [] | Inr response \<Rightarrow> hi_text response) in
         (JObject [(''roll'', json_u64 (roll_of W seed)), (''seed'', JString (chain_id_from (pg_json P) seed))], w1)))"

definition broken :: "u16 \<times> json" where
  "broken =
     (503, JObject [(''error'', JString ''this upstream fails on purpose''),
        (''expect'', JString ''no settlement, no charge, and the signed payment is released for retry'')])"

definition index :: "'w pages_io \<Rightarrow> DemoArgs \<Rightarrow> 'w \<Rightarrow> HttpReply \<times> 'w" where
  "index P args w =
     (let path = path_join (da_static_dir args) ''index.html'' in
      case pg_file P path w of
        (Inr body, w1) \<Rightarrow>
          (\<lparr>hr_status = 200, hr_headers = [(''content-type'', ''text/html; charset=utf-8''),
             (''cache-control'', ''no-store, must-revalidate'')], hr_body = body\<rparr>, w1)
      | (Inl e, w1) \<Rightarrow> (text_reply 404 (''could not read '' @ path @ '': '' @ e), w1))"

definition prize :: "'w pages_io \<Rightarrow> DemoArgs \<Rightarrow> 'w \<Rightarrow> HttpReply \<times> 'w" where
  "prize P args w =
     (let path = (case da_prize_video args of Some explicit \<Rightarrow> explicit | None \<Rightarrow> path_join (da_static_dir args) ''rickroll.mp4'') in
      case pg_file P path w of
        (Inr body, w1) \<Rightarrow>
          (\<lparr>hr_status = 200, hr_headers = [(''content-type'', ''video/mp4''), (''cache-control'', ''public, max-age=86400'')],
            hr_body = body\<rparr>, w1)
      | (Inl e, w1) \<Rightarrow> (text_reply 404 (path @ '': '' @ e), w1))"

text \<open>The fallback: everything else goes to the gateway. The body is \<open>None\<close> when it cannot be read.\<close>

definition BODY_LIMIT :: nat where "BODY_LIMIT = 1048576"

definition gateway_proxy ::
  "'w pages_io \<Rightarrow> DemoArgs \<Rightarrow> string \<Rightarrow> string option \<Rightarrow> (string \<times> bytes) list \<Rightarrow> bytes option \<Rightarrow> 'w \<Rightarrow> HttpReply \<times> 'w" where
  "gateway_proxy P args method path headers body w =
     (case body of
        None \<Rightarrow> (text_reply 400 ''body too large'', w)
      | Some bytes \<Rightarrow>
          if BODY_LIMIT < length bytes then (text_reply 400 ''body too large'', w)
          else
            (case pg_forward P
               \<lparr>fw_method = method,
                fw_url = trim_end_slashes (da_gateway args) @ (case path of None \<Rightarrow> ''/'' | Some p \<Rightarrow> p),
                fw_headers = filter (\<lambda>(name, _). \<not> eq_ignore_ascii_case name ''host'') headers,
                fw_body = bytes\<rparr> w of
               (Inr response, w1) \<Rightarrow>
                 (\<lparr>hr_status = hr_status response,
                   hr_headers = filter (\<lambda>(name, _). \<not> (eq_ignore_ascii_case name ''content-length'' \<or>
                     eq_ignore_ascii_case name ''transfer-encoding'')) (hr_headers response),
                   hr_body = hr_body response\<rparr>, w1)
             | (Inl e, w1) \<Rightarrow> (text_reply 502 (''gateway unreachable: '' @ e), w1)))"

section \<open>Concurrent visitors\<close>

text \<open>
  Where a handler is: its first reply is read, it was admitted, or it is done. Each step is one locked
  region of the code. What the outside does between two steps is left open: every step starts from
  any world.
\<close>

datatype 'f handler = Challenged IpAddr "'f Asked" | Admitted "'f Asked" | Answered "ApiError + 'f SendResult"

record 'f Demo =
  demo_state :: DemoState
  demo_handlers :: "nat \<Rightarrow> 'f handler option"

definition demo_init :: "'f Demo" where
  "demo_init = \<lparr>demo_state = demo_start, demo_handlers = (\<lambda>_. None)\<rparr>"

definition result_settled :: "ApiError + 'f SendResult \<Rightarrow> bool" where
  "result_settled r = (case r of Inl _ \<Rightarrow> False | Inr result \<Rightarrow> se_settled result)"

inductive demo_step ::
  "wire \<Rightarrow> 'f replies_io \<Rightarrow> 'f float_ops \<Rightarrow> (bytes \<Rightarrow> json option) \<Rightarrow> ('k, 't) sdk \<Rightarrow> 'w client_io \<Rightarrow> DemoArgs
    \<Rightarrow> 'f Demo \<Rightarrow> 'f Demo \<Rightarrow> bool"
  for W R fl from_slice K io args where
  refused: "demo_handlers d i = None \<Longrightarrow> ask W R fl io args t incoming request w = (Inl e, w1) \<Longrightarrow>
    demo_step W R fl from_slice K io args d (d\<lparr>demo_handlers := (demo_handlers d)(i \<mapsto> Answered (Inl e))\<rparr>)"
| free: "demo_handlers d i = None \<Longrightarrow> ask W R fl io args t incoming request w = (Inr asked, w1) \<Longrightarrow>
    at_status (ak_first asked) \<noteq> 402 \<Longrightarrow>
    r = Inr (served asked (plays_remaining args (ds_spent (demo_state d)))) \<Longrightarrow>
    demo_step W R fl from_slice K io args d (d\<lparr>demo_handlers := (demo_handlers d)(i \<mapsto> Answered r)\<rparr>)"
| challenged: "demo_handlers d i = None \<Longrightarrow> ask W R fl io args t incoming request w = (Inr asked, w1) \<Longrightarrow>
    at_status (ak_first asked) = 402 \<Longrightarrow>
    demo_step W R fl from_slice K io args d (d\<lparr>demo_handlers := (demo_handlers d)(i \<mapsto> Challenged peer asked)\<rparr>)"
| limited: "demo_handlers d i = Some (Challenged peer asked) \<Longrightarrow>
    admit_visitor args (ds_per_ip (demo_state d)) (peer, now) = (Inl e, per_ip) \<Longrightarrow>
    demo_step W R fl from_slice K io args d
      (d\<lparr>demo_state := (demo_state d)\<lparr>ds_per_ip := per_ip\<rparr>, demo_handlers := (demo_handlers d)(i \<mapsto> Answered (Inl e))\<rparr>)"
| admitted: "demo_handlers d i = Some (Challenged peer asked) \<Longrightarrow>
    admit_visitor args (ds_per_ip (demo_state d)) (peer, now) = (Inr u, per_ip) \<Longrightarrow>
    demo_step W R fl from_slice K io args d
      (d\<lparr>demo_state := (demo_state d)\<lparr>ds_per_ip := per_ip\<rparr>, demo_handlers := (demo_handlers d)(i \<mapsto> Admitted asked)\<rparr>)"
| paid: "demo_handlers d i = Some (Admitted asked) \<Longrightarrow>
    pay_and_retry W R fl from_slice K io args mo asked (ds_spent (demo_state d)) w = Some (r, spent, w1) \<Longrightarrow>
    demo_step W R fl from_slice K io args d
      (d\<lparr>demo_state := (demo_state d)\<lparr>ds_spent := spent\<rparr>, demo_handlers := (demo_handlers d)(i \<mapsto> Answered r)\<rparr>)"

section \<open>Facts on the console\<close>

definition settled_handlers :: "'f Demo \<Rightarrow> nat set" where
  "settled_handlers d = {i. \<exists>r. demo_handlers d i = Some (Answered r) \<and> result_settled r}"

lemma result_settled_simps [simp]:
  "\<not> result_settled (Inl e)" "\<not> result_settled (Inr (served asked n))"
  by (simp_all add: result_settled_def served_def Let_def)

lemma pay_and_retry_counts:
  assumes "pay_and_retry W R fl from_slice K io args mo asked spent w = Some (r, spent1, w1)"
  shows "spent1 = (if result_settled r then spent + 1 else spent) \<and> (result_settled r \<longrightarrow> spent < da_max_plays args)"
  using assms
  by (auto simp: pay_and_retry_def result_settled_def sold_def Let_def not_le
      split: if_splits option.splits list.splits sum.splits prod.splits)

lemma settled_handlers_update:
  assumes "\<And>r. demo_handlers d i \<noteq> Some (Answered r)" "demo_handlers d' = (demo_handlers d)(i \<mapsto> h)"
  shows "settled_handlers d' = settled_handlers d \<union> (case h of Answered r \<Rightarrow> if result_settled r then {i} else {} | _ \<Rightarrow> {})"
    and "i \<notin> settled_handlers d"
  using assms by (auto simp: settled_handlers_def split: handler.splits)

definition budget_kept :: "DemoArgs \<Rightarrow> 'f Demo \<Rightarrow> bool" where
  "budget_kept args d \<longleftrightarrow> finite (settled_handlers d) \<and>
     unat (ds_spent (demo_state d)) = card (settled_handlers d) \<and> ds_spent (demo_state d) \<le> da_max_plays args"

lemma budget_kept_unsettled:
  assumes "budget_kept args d" "\<And>r. demo_handlers d i \<noteq> Some (Answered r)" "\<And>r. h = Answered r \<Longrightarrow> \<not> result_settled r"
    "demo_handlers d' = (demo_handlers d)(i \<mapsto> h)" "ds_spent (demo_state d') = ds_spent (demo_state d)"
  shows "budget_kept args d'"
  using assms(1,3,5) settled_handlers_update(1)[OF assms(2,4)] by (auto simp: budget_kept_def split: handler.splits)

lemma budget_kept_step:
  assumes "demo_step W R fl from_slice K io args d d'" "budget_kept args d"
  shows "budget_kept args d'"
  using assms
proof (induction rule: demo_step.induct)
  case (paid d i asked mo w r spent w1)
  note c = pay_and_retry_counts[OF paid(2)]
  let ?d = "d\<lparr>demo_state := (demo_state d)\<lparr>ds_spent := spent\<rparr>, demo_handlers := (demo_handlers d)(i \<mapsto> Answered r)\<rparr>"
  have u: "settled_handlers ?d = settled_handlers d \<union> (if result_settled r then {i} else {})" "i \<notin> settled_handlers d"
    using settled_handlers_update[of d i ?d "Answered r"] paid(1) by simp_all
  show ?case
  proof (cases "result_settled r")
    case True
    with c have "spent = ds_spent (demo_state d) + 1" "ds_spent (demo_state d) < da_max_plays args" by simp_all
    then have "unat spent = Suc (unat (ds_spent (demo_state d)))" "spent \<le> da_max_plays args"
      by (simp_all add: word_less_nat_alt word_le_nat_alt unat_succ_below)
    with paid(3) u True show ?thesis by (simp add: budget_kept_def)
  next
    case False
    with c u paid(3) show ?thesis by (simp add: budget_kept_def)
  qed
next
  case (refused d i t incoming request w e w1)
  show ?case by (rule budget_kept_unsettled[of args d i "Answered (Inl e)"]) (use refused in simp_all)
next
  case (free d i t incoming request w asked w1 r)
  show ?case by (rule budget_kept_unsettled[of args d i "Answered r"]) (use free in simp_all)
next
  case (challenged d i t incoming request w asked w1 peer)
  show ?case by (rule budget_kept_unsettled[of args d i "Challenged peer asked"]) (use challenged in simp_all)
next
  case (limited d i peer asked now e per_ip)
  show ?case by (rule budget_kept_unsettled[of args d i "Answered (Inl e)"]) (use limited in simp_all)
next
  case (admitted d i peer asked now u per_ip)
  show ?case by (rule budget_kept_unsettled[of args d i "Admitted asked"]) (use admitted in simp_all)
qed

lemma budget_kept_init: "budget_kept args demo_init"
  by (simp add: budget_kept_def demo_init_def settled_handlers_def demo_start_def)

text \<open>The hourly allowance of one visitor.\<close>

definition local_admit :: "DemoArgs \<Rightarrow> (u64 \<times> u64) option \<Rightarrow> IpAddr \<times> u64 \<Rightarrow> (ApiError + unit) \<times> (u64 \<times> u64) option" where
  "local_admit args entry e = (case admit_visitor args (\<lambda>_. entry) e of (r, per_ip) \<Rightarrow> (r, per_ip (fst e)))"

lemma admit_visitor_local:
  "fst (admit_visitor args per_ip e) = fst (local_admit args (per_ip (fst e)) e)"
  "snd (admit_visitor args per_ip e) = per_ip(fst e := snd (local_admit args (per_ip (fst e)) e))"
  by (auto simp: admit_visitor_def local_admit_def Let_def split: prod.splits option.splits)

interpretation visitors: keyed_service "\<lambda>per_ip ip. per_ip ip" "admit_visitor args" fst "local_admit args" for args
  by unfold_locales (simp_all add: admit_visitor_local)

definition used_in :: "u64 \<Rightarrow> (u64 \<times> u64) option \<Rightarrow> nat" where
  "used_in hour entry = (case entry of None \<Rightarrow> 0 | Some (h, n) \<Rightarrow> if h = hour then unat n else 0)"

lemma local_admit_eq:
  "local_admit args entry (ip, now) =
     (let hour = now div 3600; n = (case entry of Some (h, n) \<Rightarrow> if h = hour then n else 0 | None \<Rightarrow> 0) in
      if da_plays_per_ip_hourly args \<le> n
      then (Inl (api_error ''rate_limited'' (visitor_limit_message (da_plays_per_ip_hourly args))), Some (hour, n))
      else (Inr (), Some (hour, n + 1)))"
  by (auto simp: local_admit_def admit_visitor_def Let_def split: option.splits)

lemma local_admit_cases:
  assumes "local_admit args entry (ip, now) = (r, entry')"
  shows "\<exists>n. entry' = Some (now div 3600, n)"
    and "is_ok r \<longleftrightarrow> used_in (now div 3600) entry < unat (da_plays_per_ip_hourly args)"
    and "used_in (now div 3600) entry' = used_in (now div 3600) entry + (if is_ok r then 1 else 0)"
proof -
  let ?hour = "now div 3600"
  define n where "n = (case entry of Some (h, n) \<Rightarrow> if h = ?hour then n else 0 | None \<Rightarrow> 0)"
  have n: "unat n = used_in ?hour entry" by (auto simp: n_def used_in_def split: option.splits)
  have e: "(if da_plays_per_ip_hourly args \<le> n
      then (Inl (api_error ''rate_limited'' (visitor_limit_message (da_plays_per_ip_hourly args))), Some (?hour, n))
      else (Inr (), Some (?hour, n + 1))) = (r, entry')"
    using assms unfolding local_admit_eq Let_def n_def .
  then show "\<exists>n. entry' = Some (?hour, n)" by (auto split: if_splits)
  show "is_ok r \<longleftrightarrow> used_in ?hour entry < unat (da_plays_per_ip_hourly args)"
    using e unfolding n[symmetric] by (auto simp: word_le_nat_alt not_le split: if_splits)
  show "used_in ?hour entry' = used_in ?hour entry + (if is_ok r then 1 else 0)"
    using e unfolding n[symmetric]
    by (auto simp: used_in_def not_le dest: unat_succ_below split: if_splits)
qed

lemma admitted_per_hour:
  assumes "sorted (map (\<lambda>e. snd e div 3600) events)"
    "\<forall>h n. entry = Some (h, n) \<longrightarrow> (\<forall>e \<in> set events. h \<le> snd e div 3600)"
    "used_in hour entry \<le> unat (da_plays_per_ip_hourly args)"
  shows "used_in hour entry + length (filter (\<lambda>(e, r). snd e div 3600 = hour \<and> is_ok r) (zip events (replies (local_admit args) entry events)))
    \<le> unat (da_plays_per_ip_hourly args)"
  using assms
proof (induction events arbitrary: entry)
  case (Cons e events)
  obtain ip now where e: "e = (ip, now)" by fastforce
  obtain r entry' where a: "local_admit args entry (ip, now) = (r, entry')" by fastforce
  note c = local_admit_cases[OF a]
  have later: "\<forall>f \<in> set events. now div 3600 \<le> snd f div 3600" using Cons.prems(1) by (auto simp: e)
  have ind: "used_in hour entry' \<le> unat (da_plays_per_ip_hourly args) \<Longrightarrow>
      used_in hour entry' + length (filter (\<lambda>(e, r). snd e div 3600 = hour \<and> is_ok r)
        (zip events (replies (local_admit args) entry' events))) \<le> unat (da_plays_per_ip_hourly args)"
  proof (rule Cons.IH)
    show "sorted (map (\<lambda>e. snd e div 3600) events)" using Cons.prems(1) by simp
    show "\<forall>h n. entry' = Some (h, n) \<longrightarrow> (\<forall>e \<in> set events. h \<le> snd e div 3600)"
      using c(1) later by (metis option.inject prod.inject)
  qed
  show ?case
  proof (cases "now div 3600 = hour")
    case True
    have "used_in hour entry' \<le> unat (da_plays_per_ip_hourly args)" using c(2,3) Cons.prems(3) True by auto
    from ind[OF this] show ?thesis using c(3) True by (auto simp: e a)
  next
    case False
    from c(1) False have u: "used_in hour entry' = 0" by (auto simp: used_in_def)
    show ?thesis
    proof (cases "now div 3600 < hour")
      case True
      then have "used_in hour entry = 0" using Cons.prems(2) by (auto simp: used_in_def e split: option.splits)
      with ind u False show ?thesis by (simp add: e a)
    next
      case False
      with \<open>now div 3600 \<noteq> hour\<close> have lt: "hour < now div 3600" unfolding not_less_iff_gr_or_eq by blast
      have "snd f div 3600 \<noteq> hour" if "f \<in> set events" for f
      proof -
        from later that have "now div 3600 \<le> snd f div 3600" by (rule bspec)
        with lt have "hour < snd f div 3600" by (rule order.strict_trans2)
        then show ?thesis by (rule less_imp_neq[symmetric])
      qed
      then have "filter (\<lambda>(e, r). snd e div 3600 = hour \<and> is_ok r) (zip events (replies (local_admit args) entry' events)) = []"
        by (auto simp: filter_empty_conv dest: set_zip_leftD)
      with Cons.prems(3) \<open>now div 3600 \<noteq> hour\<close> show ?thesis by (simp add: e a)
    qed
  qed
qed simp

section \<open>A concrete console, for the witnesses\<close>

text \<open>
  A gateway that asks every request without a payment for one, and answers a paid request with a receipt, or
  loses the reply. Durations are of type \<open>unit\<close>.
\<close>

definition demo_challenge :: ClientChallenge where
  "demo_challenge = \<lparr>cc_resource_url = ''http://shop/'', cc_accepts = [demo_client_terms]\<rparr>"

definition demo_replies :: "unit replies_io" where
  "demo_replies =
     \<lparr>parse_f64 = (\<lambda>s. None), challenge_from_slice = (\<lambda>b. Inr demo_challenge),
      receipt_from_slice = (\<lambda>b. Inr \<lparr>cr_success = True, cr_error_reason = None, cr_transaction = ''DIG'', cr_network = ''sui:testnet''\<rparr>),
      header_to_str = Some, method_from_str = Inr\<rparr>"

definition demo_floats :: "unit float_ops" where
  "demo_floats = \<lparr>fl_zero = (), fl_add = (\<lambda>a b. ()), fl_sub = (\<lambda>a b. ()), fl_max = (\<lambda>a b. ())\<rparr>"

definition console_gateway :: "bool \<Rightarrow> HttpRequestOut \<Rightarrow> (unit, string, HttpResponseIn) eff" where
  "console_gateway lossy request =
     (if HEADER_PAYMENT_SIGNATURE \<notin> fst ` set (ho_headers request)
      then eff_return \<lparr>hi_status = 402, hi_headers = [(''payment-required'', hex_enc ''c'')], hi_text = []\<rparr>
      else if lossy then eff_fail ''connection reset''
      else eff_return \<lparr>hi_status = 200, hi_headers = [(''payment-response'', hex_enc ''r'')], hi_text = ''ok''\<rparr>)"

definition console_io :: "bool \<Rightarrow> unit client_io" where
  "console_io lossy = demo_wallet_io (console_gateway lossy) (\<lambda>v. if v = ''X402_SUI_PRIVATE_KEY'' then Some ''key'' else None)"

lemma console_io_simps [simp]:
  "http_send (console_io lossy) = console_gateway lossy"
  "env_var (console_io lossy) v = (if v = ''X402_SUI_PRIVATE_KEY'' then Some ''key'' else None)"
  by (simp_all add: console_io_def demo_wallet_io_def)

definition demo_args :: DemoArgs where
  "demo_args =
     \<lparr>da_rpc = ''rpc'', da_max_plays = 2, da_plays_per_ip_hourly = 1, da_static_dir = ''demo'', da_prize_video = None,
      da_gateway = ''http://gate/'', da_metrics = ''http://metrics'', da_facilitator_api = ''http://api'', da_asset = ''0x2::usdc::USDC''\<rparr>"

definition spin_request :: SendRequest where
  "spin_request = \<lparr>sd_target = ''spin'', sd_session = None\<rparr>"

definition demo_moments1 :: "unit demo_moments" where
  "demo_moments1 = \<lparr>dm_first_elapsed = (), dm_now = 7200, dm_build_start = (), dm_build_end = (), dm_paid_start = (), dm_paid_elapsed = ()\<rparr>"

lemma spin_target: "target ''spin'' = Some
    \<lparr>tg_id = ''spin'', tg_label = ''Spin the wheel'', tg_upstream = ''this box, port 8402'',
     tg_detail = ''An ordinary HTTP handler with NO payment code of its own. The gateway sells it; the app never finds out.'',
     tg_path = ''/spin'', tg_method = ''POST'', tg_content_type = ''application/json'', tg_body = ''{}'', tg_free = False\<rparr>"
  by (simp add: target_def TARGETS_def)

definition first_reply :: "unit Attempt" where
  "first_reply = attempt_of client_wire demo_replies ()
     \<lparr>hi_status = 402, hi_headers = [(''payment-required'', hex_enc ''c'')], hi_text = []\<rparr>"

definition second_reply :: "unit Attempt" where
  "second_reply = attempt_of client_wire demo_replies ()
     \<lparr>hi_status = 200, hi_headers = [(''payment-response'', hex_enc ''r'')], hi_text = ''ok''\<rparr>"

lemma client_wire_decodes: "b64_decode client_wire (trim (hex_enc b)) = Inr b"
proof -
  have e: "b64_encode client_wire b = hex_enc b" by (simp add: client_wire_def)
  have l: "b64_decode client_wire (b64_encode client_wire b) = Inr b" "\<forall>c \<in> set (b64_encode client_wire b). graphic c"
    using client_wire_laws(1) unfolding base64_laws_def by blast+
  have "trim (hex_enc b) = hex_enc b" using l(2) unfolding e by (rule trim_graphic)
  with l(1) show ?thesis unfolding e by simp
qed

lemma replies_read:
  "at_status first_reply = 402" "at_payment_required first_reply = Some demo_challenge"
  "at_status second_reply = 200" "moved_money (at_payment_response second_reply)"
  by (simp_all add: first_reply_def second_reply_def attempt_of_def Let_def demo_replies_def client_wire_decodes
      moved_money_def starts_with_def del: hex_enc.simps)

definition spin_asked :: "unit Asked" where
  "spin_asked =
     \<lparr>ak_target = the (target ''spin''), ak_url = ''http://gate/spin'', ak_headers = [(''content-type'', ''application/json'')],
      ak_body = ''{}'', ak_session = None, ak_first = first_reply,
      ak_trace = first_span demo_floats first_reply # attempt_spans demo_floats first_reply () False\<rparr>"

lemma console_first:
  "HEADER_PAYMENT_SIGNATURE \<notin> fst ` set headers \<Longrightarrow>
   client_send client_wire demo_replies (console_io lossy) () m url headers body None () = (Inr first_reply, ())"
  by (simp add: client_send_def console_gateway_def context_of_def first_reply_def demo_replies_def)

lemma spin_ask:
  "ask client_wire demo_replies demo_floats (console_io lossy) demo_args () [] spin_request () = (Inr spin_asked, ())"
proof -
  have "request_headers demo_replies (the (target ''spin'')) [] None = [(''content-type'', ''application/json'')]"
    by (simp add: request_headers_def forwarded_def map_filter_simps is_grpc_web_def starts_with_def spin_target)
  moreover have "HEADER_PAYMENT_SIGNATURE \<notin> fst ` set [(''content-type'', ''application/json'')]"
    by (simp add: HEADER_PAYMENT_SIGNATURE_def)
  ultimately show ?thesis
    by (simp add: ask_def spin_request_def spin_target spin_asked_def console_first grpc_web_body_def is_grpc_web_def
        starts_with_def demo_args_def trim_end_slashes_def demo_floats_def Let_def)
qed

lemma console_key: "load_key client_wire demo_sdk (console_io lossy) () = (Inr (), ())"
  by (simp add: load_key_def demo_sdk_def)

lemma console_header:
  "build_payment_header client_wire demo_sdk (console_io lossy) rpc () ''http://shop/'' demo_client_terms
     DEFAULT_PAYMENT_PATHS () = Some (Inr (hex_enc ''doc''), ())"
  by (simp add: console_io_def demo_payment_header)

lemma spin_paid:
  "\<exists>result. pay_and_retry client_wire demo_replies demo_floats from_slice demo_sdk (console_io False) demo_args demo_moments1 spin_asked 0 () =
     Some (Inr result, 1, ()) \<and> se_settled result"
proof -
  have "client_send client_wire demo_replies (console_io False) () m url headers body (Some p) () = (Inr second_reply, ())" for m url headers body p
    by (simp add: client_send_def console_gateway_def second_reply_def demo_replies_def context_of_def)
  then show ?thesis
    by (simp add: pay_and_retry_def spin_asked_def replies_read demo_challenge_def console_key console_header
        demo_moments1_def sold_def Let_def demo_args_def)
qed

lemma console_traced_header:
  "build_payment_header client_wire demo_sdk (traced (console_io lossy)) rpc () ''http://shop/'' demo_client_terms
     DEFAULT_PAYMENT_PATHS ((), log) = Some (Inr (hex_enc ''doc''), ((), log))"
proof -
  have f: "funding (traced (console_io lossy)) rpc owner coin ((), log) =
      (Inr \<lparr>address_balance = 20000, coin_balance = 20000\<rparr>, ((), log))" for owner coin
    by (simp add: funding_def context_of_def beside_def console_io_def demo_wallet_io_def eff_return_def)
  have g: "\<exists>t. build_gasless_payment W demo_sdk (traced (console_io lossy)) rpc sender payee asset amount ((), log) = (Inr t, ((), log))"
    for W sender payee asset amount
    by (simp add: build_gasless_payment_def current_epoch_expiration_def context_of_def demo_sdk_def beside_def)
       (simp add: console_io_def demo_wallet_io_def traced_def eff_return_def)
  have "build_payment client_wire demo_sdk (traced (console_io lossy)) rpc sender payee asset 10000 DEFAULT_PAYMENT_PATHS g ((), log) =
      Some (build_gasless_payment client_wire demo_sdk (traced (console_io lossy)) rpc sender payee asset 10000 ((), log))" for sender payee asset g
    by (simp add: build_payment_def context_of_def eff_map_err_def f DEFAULT_PAYMENT_PATHS_def demo_path)
  moreover have "parse_u64 (ct_amount demo_client_terms) = Some 10000"
    by (simp add: demo_client_terms_def parse_u64_def parse_unsigned_def parse_digits_def digits_value_def is_digit_def)
  moreover have "parse_address demo_sdk a = Inr a" for a by (simp add: demo_sdk_def)
  moreover obtain t where "build_gasless_payment client_wire demo_sdk (traced (console_io lossy)) rpc (derive_address demo_sdk ())
      (ct_pay_to demo_client_terms) (ct_asset demo_client_terms) 10000 ((), log) = (Inr t, ((), log))"
    using g by blast
  ultimately show ?thesis by (simp add: build_payment_header_def demo_signature)
qed

section \<open>Properties\<close>

text \<open>C24: the wallet's budget holds under concurrency. In every interleaving of any number of visitors' requests, whatever
  the gateway, the fullnode and the clocks do, the counter of plays equals the number of answers that
  report a settled payment, and it never exceeds \<open>max_plays\<close>.\<close>

theorem demo_budget_is_never_exceeded:
  assumes "(demo_step W R fl from_slice K io args)\<^sup>*\<^sup>* demo_init d"
  shows "finite {i. \<exists>r. demo_handlers d i = Some (Answered r) \<and> result_settled r} \<and>
    unat (ds_spent (demo_state d)) = card {i. \<exists>r. demo_handlers d i = Some (Answered r) \<and> result_settled r} \<and>
    card {i. \<exists>r. demo_handlers d i = Some (Answered r) \<and> result_settled r} \<le> unat (da_max_plays args)"
proof -
  have "budget_kept args d" using assms
    by (induction rule: rtranclp_induct) (auto intro: budget_kept_init budget_kept_step)
  then show ?thesis by (auto simp: budget_kept_def settled_handlers_def word_le_nat_alt)
qed

theorem demo_budget_is_never_exceeded_witness:
  "\<exists>d :: unit Demo. demo_handlers d 0 \<noteq> None \<and> unat (ds_spent (demo_state d)) = 1 \<and>
     card {i. \<exists>r. demo_handlers d i = Some (Answered r) \<and> result_settled r} = 1"
proof -
  let ?step = "demo_step client_wire demo_replies demo_floats (\<lambda>_. None) demo_sdk (console_io False) demo_args"
  obtain result where p: "pay_and_retry client_wire demo_replies demo_floats (\<lambda>_. None) demo_sdk (console_io False) demo_args
      demo_moments1 spin_asked 0 () = Some (Inr result, 1, ())" "se_settled result"
    using spin_paid by blast
  define d1 :: "unit Demo" where "d1 = demo_init\<lparr>demo_handlers := (demo_handlers demo_init)(0 \<mapsto> Challenged (V4 1 2 3 4) spin_asked)\<rparr>"
  define d2 where "d2 = d1\<lparr>demo_state := (demo_state d1)\<lparr>ds_per_ip := [V4 1 2 3 4 \<mapsto> (2, 1)]\<rparr>,
    demo_handlers := (demo_handlers d1)(0 \<mapsto> Admitted spin_asked)\<rparr>"
  define d3 where "d3 = d2\<lparr>demo_state := (demo_state d2)\<lparr>ds_spent := 1\<rparr>, demo_handlers := (demo_handlers d2)(0 \<mapsto> Answered (Inr result))\<rparr>"
  have "?step demo_init d1" unfolding d1_def
    by (rule demo_step.challenged[OF _ spin_ask]) (simp_all add: demo_init_def spin_asked_def replies_read)
  moreover have "?step d1 d2" unfolding d2_def
    by (rule demo_step.admitted[where now = 7200 and u = "()"])
       (simp_all add: d1_def demo_init_def demo_start_def admit_visitor_def demo_args_def)
  moreover have "?step d2 d3" unfolding d3_def
    by (rule demo_step.paid) (use p in \<open>auto simp: d2_def d1_def demo_init_def demo_start_def\<close>)
  ultimately have r: "?step\<^sup>*\<^sup>* demo_init d3" by (meson converse_rtranclp_into_rtranclp rtranclp.rtrancl_refl)
  have a: "demo_handlers d3 0 \<noteq> None" "unat (ds_spent (demo_state d3)) = 1" by (simp_all add: d3_def)
  with demo_budget_is_never_exceeded[OF r]
  have "card {i. \<exists>r. demo_handlers d3 i = Some (Answered r) \<and> result_settled r} = 1" by linarith
  with a show ?thesis by blast
qed

text \<open>C34: a visitor gets at most the hourly allowance. Over any history of requests by any visitors, in
  which the clock hours seen for one address do not go back, at most \<open>plays_per_ip_hourly\<close> requests
  from that address are admitted to the wallet in any one hour, whatever other visitors do.\<close>

theorem visitor_is_limited_per_hour:
  assumes "sorted (map (\<lambda>e. snd e div 3600) (filter (\<lambda>e. fst e = ip) events))"
  shows "length (filter (\<lambda>(e, r). snd e div 3600 = hour \<and> is_ok r)
      (filter (\<lambda>(e, r). fst e = ip) (zip events (replies (admit_visitor args) (ds_per_ip demo_start) events))))
    \<le> unat (da_plays_per_ip_hourly args)"
  using admitted_per_hour[OF assms, of None hour args] visitors.replies_of_key[of ip events args "ds_per_ip demo_start"]
  by (simp add: Let_def used_in_def demo_start_def)

theorem visitor_is_limited_per_hour_witness:
  "length (filter (\<lambda>(e, r). snd e div 3600 = 2 \<and> is_ok r) (filter (\<lambda>(e, r). fst e = V4 1 2 3 4)
      (zip [(V4 1 2 3 4, 7200 :: u64), (V4 1 2 3 4, 7300)]
        (replies (admit_visitor demo_args) (ds_per_ip demo_start) [(V4 1 2 3 4, 7200 :: u64), (V4 1 2 3 4, 7300)])))) \<le> 1"
proof -
  have "unat (da_plays_per_ip_hourly demo_args) = 1" by (simp add: demo_args_def)
  moreover have "sorted (map (\<lambda>e. snd e div 3600) (filter (\<lambda>e. fst e = V4 1 2 3 4) [(V4 1 2 3 4, 7200 :: u64), (V4 1 2 3 4, 7300)]))"
    by simp
  ultimately show ?thesis using visitor_is_limited_per_hour by metis
qed

text \<open>A payment whose reply is lost is not counted. When the connection breaks after the signed payment has been
  sent, the gateway may still settle it, but the counter of plays stays where it was: \<open>max_plays\<close> bounds
  the receipts that came back, not the payments that left.\<close>

lemma lost_receipt_is_not_counted:
  assumes "spent < da_max_plays args" "at_payment_required (ak_first asked) = Some challenge"
    "cc_accepts challenge = terms # rest" "load_key W K (traced io) s = (Inr key, s1)"
    "build_payment_header W K (traced io) (da_rpc args) key (cc_resource_url challenge) terms DEFAULT_PAYMENT_PATHS s1 =
       Some (Inr payment, s2)"
    "method_from_str R (tg_method (ak_target asked)) = Inr m"
    "http_send io (sent_request m (ak_url asked) (ak_headers asked) (ak_body asked) (Some payment)) (fst s2) = (Inl e, w3)"
  shows "pay_and_retry W R fl from_slice K (traced io) args mo asked spent s =
    Some (Inl (api_error ''gateway_unreachable'' ''sending the request''), spent,
      (w3, snd s @ [sent_request m (ak_url asked) (ak_headers asked) (ak_body asked) (Some payment)]))"
proof -
  have q: "snd s2 = snd s"
    using build_payment_header_quiet[OF assms(5)] quietD[OF quiet_load_key assms(4)] by simp
  have "client_send W R (traced io) (dm_paid_elapsed mo) (tg_method (ak_target asked)) (ak_url asked) (ak_headers asked)
      (ak_body asked) (Some payment) s2 = (Inl [''sending the request'', e],
        (w3, snd s @ [sent_request m (ak_url asked) (ak_headers asked) (ak_body asked) (Some payment)]))"
    using assms(6,7) by (simp add: client_send_def traced_def context_of_def eff_bind_def eff_map_err_def eff_lift_def
        sent_request_def Let_def q)
  moreover have "\<not> da_max_plays args \<le> spent" using assms(1) by (simp add: not_le)
  ultimately show ?thesis using assms(2-5) by (simp add: pay_and_retry_def anyhow_display_def)
qed

lemma lost_receipt_is_not_counted_example:
  "pay_and_retry client_wire demo_replies demo_floats (\<lambda>_. None) demo_sdk (traced (console_io True)) demo_args demo_moments1 spin_asked 1 ((), []) =
    Some (Inl (api_error ''gateway_unreachable'' ''sending the request''), 1,
      ((), [sent_request ''POST'' ''http://gate/spin'' [(''content-type'', ''application/json'')] ''{}'' (Some (hex_enc ''doc''))]))"
proof -
  have k: "load_key client_wire demo_sdk (traced (console_io True)) ((), []) = (Inr (), ((), []))"
    by (simp add: load_key_def demo_sdk_def)
  have h: "build_payment_header client_wire demo_sdk (traced (console_io True)) (da_rpc demo_args) () (cc_resource_url demo_challenge)
      demo_client_terms DEFAULT_PAYMENT_PATHS ((), []) = Some (Inr (hex_enc ''doc''), ((), []))"
    using console_traced_header by (simp add: demo_challenge_def)
  have "http_send (console_io True) (sent_request ''POST'' (ak_url spin_asked) (ak_headers spin_asked) (ak_body spin_asked)
      (Some (hex_enc ''doc''))) () = (Inl ''connection reset'', ())"
    by (simp add: console_gateway_def sent_request_def)
  with lost_receipt_is_not_counted[OF _ _ _ k h, of 1 spin_asked "[]" demo_replies "''POST''" "''connection reset''" "()"
      demo_floats "\<lambda>_. None" demo_moments1]
  show ?thesis
    by (simp add: demo_args_def spin_asked_def replies_read demo_challenge_def demo_replies_def spin_target)
qed

end
