(* ===== verification/EndToEnd.thy ===== *)
theory EndToEnd
  imports PayClient Auth
begin

text \<open>
  Client and gate together: a payment that src/payclient.rs builds for the terms in force, presented to
  the decision of src/auth.rs.
\<close>

section \<open>An honest payment at the gate\<close>

lemma resolve_terms_requirements:
  "tm_requirements (resolve_terms cfg path policy url) = from_config (rp_payment (policy_for cfg path policy))"
  by (simp add: resolve_terms_def Let_def)

lemma fresh_payment_stage:
  assumes "check_terms (pf_wire P) (ap_facilitator app) payload (tm_requirements tm) = Inr sui"
    and "fac_mode (ap_facilitator app) = SuiGrpc" "fac_sui (ap_facilitator app) = Some verifier"
    and "payment_id (pf_wire P) payload = Some pid" "ap_sessions app = MemoryStore store" "seen_payments store pid = None"
    and "sui_verify (pf_node P) (pf_wire P) sui (tm_requirements tm) (ap_node app) = (Inr vp, n)"
  shows "payment_stage P mo tm policy Deferred (Inr payload) app =
    (Allow Paid (Some (vp_payer vp)) None None
       (Some \<lparr>pn_payload = payload, pn_requirements = tm_requirements tm, pn_payment_id = Some pid\<rparr>) MeterUnknown,
     app\<lparr>ap_sessions := MemoryStore (store\<lparr>seen_payments := (seen_payments store)(pid \<mapsto> at_claim mo)\<rparr>), ap_node := n\<rparr>)"
  using assms
  by (simp add: payment_stage_def claim_stage_def on_sessions_def Let_def claim_payment_at_def claim_error_def
      verify_deferred_def on_node_def facilitator_verify_def eff_bind_def eff_lift_def eff_return_def)

section \<open>What the chain answers\<close>

text \<open>
  Every pinned object is what the node reads, one after the other from the state \<open>n\<close> to the state
  \<open>n'\<close>.
\<close>

fun reads_live :: "'n fullnode \<Rightarrow> (string \<times> u64) list \<Rightarrow> 'n \<Rightarrow> 'n \<Rightarrow> bool" where
  "reads_live N [] n n' = (n' = n)"
| "reads_live N ((object_id, version) # pins) n n' =
     (\<exists>n1. fn_get_object N object_id n = (Inr (Some (Some version)), n1) \<and> reads_live N pins n1 n')"

text \<open>
  The chain would execute the signed bytes: they are the transaction \<open>T\<close>, the node confirms the signature
  of its sender, its simulation succeeds with the result \<open>ex\<close>, and the objects it uses are live.
\<close>

definition would_execute ::
  "'n fullnode \<Rightarrow> bytes \<Rightarrow> bytes \<Rightarrow> Transaction \<Rightarrow> ExecutedTransaction \<Rightarrow> 'n \<Rightarrow> 'n \<Rightarrow> bool" where
  "would_execute N tx sg T ex n n' \<longleftrightarrow> fn_bcs_transaction N tx = Inr T \<and>
     (\<exists>sig vs n1 n2. fn_user_signature N sg = Inr sig \<and>
        fn_verify_signature N tx sig (tx_sender T) n = (Inr vs, n1) \<and> vs_is_valid vs = Some True \<and>
        fn_simulate N tx n1 = (Inr (Some ex), n2) \<and> status_ok ex \<and> reads_live N (pinned_objects T) n2 n')"

text \<open>The change of a balance that a simulation reports, entry by entry.\<close>

definition reported_change :: "string \<Rightarrow> string \<Rightarrow> ExecutedTransaction \<Rightarrow> int" where
  "reported_change owner coin_type ex = sum_list (map (\<lambda>c.
     if bc_address c = Some owner \<and> bc_coin_type c = Some coin_type
     then (case bc_amount c of None \<Rightarrow> 0 | Some a \<Rightarrow> (case parse_signed 128 a of None \<Rightarrow> 0 | Some v \<Rightarrow> v)) else 0)
     (et_balance_changes ex))"

lemma reported_change_credits: "credited_total (et_balance_changes ex) req = reported_change (pr_pay_to req) (pr_asset req) ex"
proof -
  have "credited_total changes req = sum_list (map (\<lambda>c.
     if bc_address c = Some (pr_pay_to req) \<and> bc_coin_type c = Some (pr_asset req)
     then (case bc_amount c of None \<Rightarrow> 0 | Some a \<Rightarrow> (case parse_signed 128 a of None \<Rightarrow> 0 | Some v \<Rightarrow> v)) else 0) changes)" for changes
    unfolding credited_total_def credited_amounts_def
    by (induction changes) (auto simp: List.map_filter_simps split: option.splits)
  then show ?thesis by (simp add: reported_change_def)
qed

lemma reads_live_checked:
  "reads_live N pins n n' \<Longrightarrow> eff_for_each (assert_input_is_live N) pins n = (Inr (), n')"
proof (induction pins arbitrary: n)
  case (Cons p pins)
  then show ?case by (cases p) (auto simp: assert_input_is_live_def eff_bind_def)
qed (simp add: eff_return_def)

lemma executable_payment_verifies:
  assumes "would_execute N tx sg T ex n n'" "sui_decode W p = Inr (tx, sg)"
    "parse_u64 (pr_amount req) = Some amount" "reported_change (pr_pay_to req) (pr_asset req) ex = int (unat amount)"
  shows "sui_verify N W p req n =
    (Inr \<lparr>vp_payer = tx_sender T, vp_digest = (case et_digest ex of None \<Rightarrow> [] | Some d \<Rightarrow> d)\<rparr>, n')"
proof -
  obtain sig vs n1 n2 where e: "fn_bcs_transaction N tx = Inr T" "fn_user_signature N sg = Inr sig"
    "fn_verify_signature N tx sig (tx_sender T) n = (Inr vs, n1)" "vs_is_valid vs = Some True"
    "fn_simulate N tx n1 = (Inr (Some ex), n2)" "status_ok ex" "reads_live N (pinned_objects T) n2 n'"
    using assms(1) unfolding would_execute_def by blast
  have "uint amount < 2 ^ 64" by (rule order_less_le_trans[OF unsigned_less]) simp
  then have "int (unat amount) < 2 ^ 127" by simp
  moreover have "- (2 ^ 127) \<le> int (unat amount)" by (rule order_trans[of _ 0]) simp_all
  ultimately have "wrap_i128 (int (unat amount)) = int (unat amount)" by (intro wrap_i128_small)
  then have "assert_credits W (et_balance_changes ex) req = Inr ()"
    using assms(4) by (simp add: assert_credits_ok_iff reported_change_credits parse_u64_signed[OF assms(3)])
  with e assms(2) reads_live_checked[OF e(7)] show ?thesis
    by (simp add: sui_verify_def parse_signature_def Let_def status_failure_None[THEN iffD2] assert_inputs_are_live_def)
qed

section \<open>Property\<close>

text \<open>C6: an honest payment buys access. A client builds, for the terms in force, a transaction \<open>t\<close> and
  presents it signed. Suppose that this transaction is new to the gateway, that the chain would
  execute it, and that the simulation reports as the recipient's gain in the asset what the calls
  that \<open>t\<close> was built from hand over to the recipient. Then the request is let in on the paid tier as
  the sender of the transaction; the transaction is claimed at once, and what will be settled after
  the upstream has answered is exactly that payment under exactly those terms. That what the
  client built pays the price is proved, not supposed.\<close>

theorem honest_payment_buys_access:
  fixes app :: "('n, 'r) App"
  assumes "build_payment_header (pf_wire P) K io rpc key url terms paths w = Some (Inr header, w')"
    and "parse_u64 (ct_amount terms) = Some amount" "parse_address K (ct_pay_to terms) = Inr payee"
    and "build_payment (pf_wire P) K io rpc (derive_address K key) payee (ct_asset terms) amount paths
      (advertised_gas_station terms) w = Some (Inr t, w')"
    and "sign_transaction K key t = Inr sg" "bcs_to_bytes K t = Inr tx"
    and "base64_laws (pf_wire P)" "serde_laws (pf_wire P)" "sdk_laws K"
    and "reads_offer terms (from_config (rp_payment (policy_for (ap_config app) path policy)))"
    and "ct_network terms = fac_network (ap_facilitator app)"
    and "fac_mode (ap_facilitator app) = SuiGrpc" "fac_sui (ap_facilitator app) = Some verifier"
    and "header_get headers HEADER_PAYMENT_SIGNATURE = Some header" "header_get headers HEADER_PAYMENT_SESSION = None"
    and "ap_sessions app = MemoryStore store"
    and "seen_payments store (hex_encode (pf_crypto P) (sha256 (pf_wire P) tx)) = None"
    and "would_execute (pf_node P) tx sg T ex (ap_node app) n"
    and "\<forall>calls. built_from K calls t \<longrightarrow>
      reported_change (ct_pay_to terms) (ct_asset terms) ex = int (amount_to payee (payment_of calls))"
  shows "decide P mo headers client_ip path policy resource_url Deferred app =
    Some (Allow Paid (Some (tx_sender T)) None None
      (Some \<lparr>pn_payload = client_payload (pf_wire P) url terms sg tx,
         pn_requirements = from_config (rp_payment (policy_for (ap_config app) path policy)),
         pn_payment_id = Some (hex_encode (pf_crypto P) (sha256 (pf_wire P) tx))\<rparr>) MeterUnknown,
      app\<lparr>ap_sessions := MemoryStore (store\<lparr>seen_payments := (seen_payments store)
          (hex_encode (pf_crypto P) (sha256 (pf_wire P) tx) \<mapsto> at_claim mo)\<rparr>), ap_node := n\<rparr>)"
proof -
  let ?W = "pf_wire P" and ?req = "from_config (rp_payment (policy_for (ap_config app) path policy))"
  let ?pid = "hex_encode (pf_crypto P) (sha256 ?W tx)" and ?payload = "client_payload ?W url terms sg tx"
  have decoded: "decode_header ?W (payload_from_slice ?W) header = Inr ?payload"
    using assms(1,7,8) by (rule client_header_decodes) (use assms(2-6) in simp)
  have offer: "pr_amount ?req = ct_amount terms" "pr_pay_to ?req = ct_pay_to terms" "pr_asset ?req = ct_asset terms"
    "pr_network ?req = fac_network (ap_facilitator app)"
    using assms(10,11) by (simp_all add: reads_offer_def)
  obtain calls where calls: "built_from K calls t" "amount_to payee (payment_of calls) = unat amount"
    using build_payment_amount[OF assms(4)] by blast
  from assms(19) calls have change: "reported_change (ct_pay_to terms) (ct_asset terms) ex = int (unat amount)" by auto
  have verified: "sui_verify (pf_node P) ?W (client_sui ?W sg tx) ?req (ap_node app) =
      (Inr \<lparr>vp_payer = tx_sender T, vp_digest = (case et_digest ex of None \<Rightarrow> [] | Some d \<Rightarrow> d)\<rparr>, n)"
    using executable_payment_verifies[OF assms(18) client_payload_reads(2)[OF assms(7,8)]] assms(2) change
    by (simp only: offer)
  have "sg \<noteq> []" "tx \<noteq> []" using assms(5,6,9) by (auto simp: sdk_laws_def)
  from client_payload_terms[OF assms(7,8,10) offer(4) this]
  have "check_terms ?W (ap_facilitator app) ?payload ?req = Inr (client_sui ?W sg tx)" .
  then have "payment_stage P mo (resolve_terms (ap_config app) path policy resource_url) policy Deferred (Inr ?payload) app =
      (Allow Paid (Some (tx_sender T)) None None
         (Some \<lparr>pn_payload = ?payload, pn_requirements = ?req, pn_payment_id = Some ?pid\<rparr>) MeterUnknown,
       app\<lparr>ap_sessions := MemoryStore (store\<lparr>seen_payments := (seen_payments store)(?pid \<mapsto> at_claim mo)\<rparr>), ap_node := n\<rparr>)"
    using assms(12,13,16,17) verified client_payload_reads(3)[OF assms(7,8), of url terms sg tx]
    by (subst fresh_payment_stage) (auto simp: resolve_terms_requirements)
  moreover have "presented ?W headers = Some (Inr ?payload)" using assms(14) decoded by (simp add: presented_def)
  moreover have "presented_token ?W headers = None"
    using assms(14,15) decoded by (simp add: presented_token_def presented_def client_payload_def session_token_from_extensions_def)
  ultimately show ?thesis by (simp add: decide_eq session_stage_def)
qed

text \<open>A gate with a fullnode that knows one transaction, for the witness.\<close>

definition shop_platform :: "(unit \<times> node_call list, unit) platform" where
  "shop_platform = \<lparr>pf_node = logged demo_node, pf_wire = client_wire, pf_redis = demo_redis\<rparr>"

definition shop_app :: "(unit \<times> node_call list, unit) App" where
  "shop_app =
     \<lparr>ap_config = demo_config, ap_breaker = breaker_new, ap_sessions = MemoryStore (store_new ''key'' 3600),
      ap_limiter = MemoryLimiter limiter_new, ap_facilitator = demo_facilitator, ap_node = ((), []), ap_redis = ()\<rparr>"

lemma shop_simps [simp]:
  "pf_node shop_platform = logged demo_node" "pf_wire shop_platform = client_wire"
  "ap_config shop_app = demo_config" "ap_sessions shop_app = MemoryStore (store_new ''key'' 3600)"
  "ap_facilitator shop_app = demo_facilitator" "ap_node shop_app = ((), [])"
  by (simp_all add: shop_platform_def shop_app_def)

lemma shop_executes:
  "would_execute (pf_node shop_platform) ''tx'' ''sig'' demo_transaction demo_executed (ap_node shop_app) ((), demo_checks)"
proof -
  have "status_ok demo_executed" by (simp add: status_ok_def demo_executed_def)
  moreover have "pinned_objects demo_transaction = [(''coin'', 7)]" "tx_sender demo_transaction = ''0xb2''"
    by (simp_all add: pinned_objects_def demo_transaction_def List.map_filter_simps)
  ultimately show ?thesis
    by (simp add: would_execute_def log_call_def demo_node_def demo_checks_def)
qed

text \<open>The simulation reports a gain of 10000, and that is what the calls hand over.\<close>

lemma shop_reports:
  "built_from shop_sdk calls shop_payment \<Longrightarrow>
   reported_change (ct_pay_to demo_client_terms) (ct_asset demo_client_terms) demo_executed =
     int (amount_to (ct_pay_to demo_client_terms) (payment_of calls))"
proof -
  assume "built_from shop_sdk calls shop_payment"
  then obtain valid where "calls = gasless_calls ''0xb2'' (ct_pay_to demo_client_terms) (ct_asset demo_client_terms) 10000 valid"
    by (auto simp: built_from_def shop_sdk_def demo_sdk_def shop_payment_def)
  then show ?thesis
    by (simp add: gasless_effect amount_to_def reported_change_def demo_executed_def demo_client_terms_def)
qed

theorem honest_payment_buys_access_witness:
  "\<exists>pending app'. decide shop_platform demo_moments (Some [(''payment-signature'', hex_enc ''doc'')]) None ''x'' None ''http://shop/''
     Deferred shop_app = Some (Allow Paid (Some ''0xb2'') None None (Some pending) MeterUnknown, app') \<and>
     pn_payment_id pending = Some (hex_enc ''tx'')"
proof -
  let ?headers = "Some [(''payment-signature'', hex_enc ''doc'')] :: HeaderView"
  have wire: "pf_wire shop_platform = client_wire" by simp
  have r: "reads_offer demo_client_terms (from_config (rp_payment (policy_for (ap_config shop_app) ''x'' None)))"
    by (simp add: demo_default_terms reads_offer_def demo_client_terms_def)
  have "trim (hex_enc ''doc'') = hex_enc ''doc''" "hex_enc ''doc'' \<noteq> []"
    using base64_lawsD(2)[OF client_wire_laws(1), of "''doc''"] by (simp_all add: client_wire_def)
  then have h: "header_get ?headers HEADER_PAYMENT_SIGNATURE = Some (hex_enc ''doc'')"
    "header_get ?headers HEADER_PAYMENT_SESSION = None"
    by (simp_all add: header_get_def HEADER_PAYMENT_SIGNATURE_def HEADER_PAYMENT_SESSION_def
        eq_ignore_ascii_case_def to_ascii_lowercase_def to_ascii_lower_def del: hex_enc.simps)
  have hash: "hex_encode (pf_crypto shop_platform) (sha256 (pf_wire shop_platform) ''tx'') = hex_enc ''tx''"
    by (simp add: client_wire_def demo_wire_def demo_crypto_def)
  have net: "ct_network demo_client_terms = fac_network (ap_facilitator shop_app)" by (simp add: demo_client_terms_def)
  have mode: "fac_mode (ap_facilitator shop_app) = SuiGrpc"
    "fac_sui (ap_facilitator shop_app) = Some \<lparr>sv_network = ''sui:testnet''\<rparr>" by simp_all
  have store: "ap_sessions shop_app = MemoryStore (store_new ''key'' 3600)"
    "seen_payments (store_new ''key'' 3600) (hex_encode (pf_crypto shop_platform) (sha256 (pf_wire shop_platform) ''tx'')) = None"
    by (simp_all add: store_new_def)
  have build: "build_payment (pf_wire shop_platform) shop_sdk demo_client_io rpc (derive_address shop_sdk ())
      (ct_pay_to demo_client_terms) (ct_asset demo_client_terms) 10000 DEFAULT_PAYMENT_PATHS
      (advertised_gas_station demo_client_terms) () = Some (Inr shop_payment, ())" for rpc
    by (simp add: shop_build shop_keys)
  have reports: "\<forall>calls. built_from shop_sdk calls shop_payment \<longrightarrow>
      reported_change (ct_pay_to demo_client_terms) (ct_asset demo_client_terms) demo_executed =
        int (amount_to (ct_pay_to demo_client_terms) (payment_of calls))"
    using shop_reports by blast
  have "tx_sender demo_transaction = ''0xb2''" by (simp add: demo_transaction_def)
  with honest_payment_buys_access[OF shop_header[folded wire] shop_amount shop_keys(1) build shop_keys(3,4)
      client_wire_laws[folded wire] shop_sdk_laws r net mode h store shop_executes reports, of demo_moments None "''http://shop/''"] hash
  show ?thesis by simp
qed

end
