(* ===== verification/RedisMirror.thy ===== *)
theory RedisMirror
  imports RedisServer
begin

text \<open>
  The Redis session store as a refinement of the in-process one (src/session.rs). \<open>mirrors\<close> relates an
  in-process store to the data of a server that holds its sessions; with a server that answers,
  \<open>redis_create_session\<close> and \<open>redis_consume\<close> reply as \<open>create_session_at\<close> and \<open>consume_at\<close> do and keep
  the relation.
\<close>

text \<open>The hash of a session, and a server that holds the sessions of an in-process store.\<close>

definition session_hash :: "Session \<Rightarrow> (string \<rightharpoonup> string)" where
  "session_hash ses = [''payer'' \<mapsto> ses_payer ses, ''quota'' \<mapsto> show_u64 (quota_remaining ses),
     ''granted'' \<mapsto> show_u64 (ses_quota ses),
     ''policy'' \<mapsto> (case ses_policy ses of None \<Rightarrow> [] | Some p \<Rightarrow> p)]"

definition exact_session :: "Session \<Rightarrow> bool" where
  "exact_session ses \<longleftrightarrow> ses_policy ses \<noteq> Some [] \<and>
     quota_remaining ses \<le> ses_quota ses \<and> unat (ses_quota ses) \<le> 2 ^ 53"

definition mirrors :: "MemorySessionStore \<Rightarrow> redis_data \<Rightarrow> bool" where
  "mirrors m d \<longleftrightarrow> (\<forall>sid. case sessions m sid of
     None \<Rightarrow> rk_keys d (redis_key sid) = None
   | Some ses \<Rightarrow> exact_session ses \<and> (\<exists>dl. rk_keys d (redis_key sid) = Some (Hash (session_hash ses), dl)))"

lemma mirrors_iff:
  "mirrors m d \<longleftrightarrow> (\<forall>sid. (sessions m sid = None \<longrightarrow> rk_keys d (redis_key sid) = None) \<and>
     (\<forall>ses. sessions m sid = Some ses \<longrightarrow> exact_session ses \<and>
        (\<exists>dl. rk_keys d (redis_key sid) = Some (Hash (session_hash ses), dl))))"
  by (auto simp: mirrors_def split: option.splits)

lemma lua_tonumber_u64: "unat q \<le> 2 ^ 53 \<Longrightarrow> lua_tonumber (show_u64 q) = Some (of_nat (unat q))"
  using rnd_of_nat[of "unat q"] by (simp add: lua_tonumber_def parse_signed_show_u64 del: of_nat_unat)

text \<open>What the script answers for a stored session, and the session it leaves.\<close>

lemma one_less:
  assumes "q \<noteq> 0" "unat q \<le> 2 ^ 53"
  shows "lua_reply (rnd (of_nat (unat q) - 1)) = int (unat q) - 1" "show_int (int (unat q) - 1) = show_u64 (q - 1)"
proof -
  have n: "unat q = Suc (unat (q - 1))" using assms(1) by (simp add: unat_pred unat_gt_0)
  have "rnd (of_nat (unat (q - 1))) = of_nat (unat (q - 1))" by (rule rnd_of_nat) (use n assms(2) in simp)
  then show "lua_reply (rnd (of_nat (unat q) - 1)) = int (unat q) - 1"
    unfolding n by (simp add: lua_reply_def del: of_nat_unat)
  show "show_int (int (unat q) - 1) = show_u64 (q - 1)" unfolding n by (simp add: show_int_def del: of_nat_unat)
qed

lemma session_hash_spent:
  "(session_hash ses)(''quota'' \<mapsto> show_u64 (q - 1)) = session_hash (ses\<lparr>quota_remaining := q - 1\<rparr>)"
  by (simp add: session_hash_def fun_eq_iff)

lemma spend_script_serves:
  assumes S: "redis_serves R V" and e: "exact_session ses"
    and k: "rk_keys (V r) k = Some (Hash (session_hash ses), dl)"
  shows "\<exists>r1. SPEND_SCRIPT R k policy r =
      ((if (case ses_policy ses of None \<Rightarrow> [] | Some p \<Rightarrow> p) \<noteq> policy then Inr (- 3, ses_payer ses, 0)
        else if quota_remaining ses = 0 then Inr (- 1, ses_payer ses, 0)
        else Inr (int (unat (quota_remaining ses)) - 1, ses_payer ses, int (unat (ses_quota ses)))), r1) \<and>
    V r1 = (if (case ses_policy ses of None \<Rightarrow> [] | Some p \<Rightarrow> p) \<noteq> policy \<or> quota_remaining ses = 0 then V r
      else put_key k (Hash (session_hash (ses\<lparr>quota_remaining := quota_remaining ses - 1\<rparr>))) dl (V r))"
proof -
  let ?h = "session_hash ses"
  have H: "hash_at (V r) k = Some ?h" using k by (simp add: hash_at_def)
  obtain s1 where 1: "rd_hget R k ''payer'' r = (Inr (?h ''payer''), s1)" "V s1 = V r"
    using serves_hget[OF S H] by blast
  then obtain s2 where 2: "rd_hget R k ''policy'' s1 = (Inr (?h ''policy''), s2)" "V s2 = V r"
    using serves_hget[OF S, of s1 k ?h] H by metis
  then obtain s3 where 3: "rd_hget R k ''quota'' s2 = (Inr (?h ''quota''), s3)" "V s3 = V r"
    using serves_hget[OF S, of s2 k ?h] H by metis
  let ?q = "quota_remaining ses"
  have q: "unat ?q \<le> 2 ^ 53" "unat (ses_quota ses) \<le> 2 ^ 53"
    using e by (auto simp: exact_session_def word_le_nat_alt)
  then have c: "counter (?h ''quota'') = Some (int (unat ?q))"
    by (simp add: counter_def session_hash_def parse_signed_show_nat del: of_nat_unat)
  from serves_hincrby[OF S, of s3 k ?h "''quota''" "int (unat ?q)" "- 1", OF _ c] H 3 obtain s4 where
    4: "rd_hincrby R k ''quota'' (- 1) s3 = (Inr (), s4)"
      "V s4 = put_key k (Hash (?h(''quota'' \<mapsto> show_int (int (unat ?q) - 1)))) dl (V r)"
    using k by (auto simp: deadline_at_def)
  have "hash_at (V s4) k = Some (?h(''quota'' \<mapsto> show_int (int (unat ?q) - 1)))"
    unfolding 4(2) by (simp add: hash_at_def)
  from serves_hget[OF S this, of "''granted''"] obtain s5 where
    5: "rd_hget R k ''granted'' s4 = (Inr (?h ''granted''), s5)" "V s5 = V s4" by auto
  have g: "?h ''payer'' = Some (ses_payer ses)" "?h ''quota'' = Some (show_u64 ?q)"
    "?h ''granted'' = Some (show_u64 (ses_quota ses))"
    "?h ''policy'' = Some (case ses_policy ses of None \<Rightarrow> [] | Some p \<Rightarrow> p)" by (simp_all add: session_hash_def)
  show ?thesis
  proof (cases "(case ses_policy ses of None \<Rightarrow> [] | Some p \<Rightarrow> p) \<noteq> policy \<or> ?q = 0")
    case True
    with 1 2 3 q g lua_tonumber_u64[of 0] show ?thesis
      by (auto simp: SPEND_SCRIPT_def eff_bind_def eff_return_def lua_tonumber_u64 del: of_nat_unat)
  next
    case False
    then have q0: "?q \<noteq> 0" by simp
    then have pos: "\<not> rat_of_nat (unat ?q) \<le> 0" by (simp add: unat_gt_0 del: of_nat_unat)
    have fl: "lua_reply (rat_of_nat (unat (ses_quota ses))) = int (unat (ses_quota ses))"
      by (simp add: lua_reply_def del: of_nat_unat)
    have V5: "V s5 = put_key k (Hash (session_hash (ses\<lparr>quota_remaining := ?q - 1\<rparr>))) dl (V r)"
      using 4 5 one_less[OF q0 q(1)] by (simp add: session_hash_spent del: of_nat_unat)
    have "SPEND_SCRIPT R k policy r = (Inr (int (unat ?q) - 1, ses_payer ses, int (unat (ses_quota ses))), s5)"
      using 1(1) 2(1) 3(1) 4(1) 5(1) False pos
      by (simp add: SPEND_SCRIPT_def eff_bind_def eff_return_def g lua_tonumber_u64[OF q(1)] lua_tonumber_u64[OF q(2)]
          one_less[OF q0 q(1)] fl del: of_nat_unat)
    with V5 False show ?thesis by simp
  qed
qed

lemma spend_script_absent:
  assumes S: "redis_serves R V" and k: "rk_keys (V r) k = None"
  shows "\<exists>r1. SPEND_SCRIPT R k policy r = (Inr (- 2, [], 0), r1) \<and> V r1 = V r"
proof -
  from k have "hash_at (V r) k = Some Map.empty" by (simp add: hash_at_def)
  from serves_hget[OF S this, of "''payer''"] show ?thesis
    by (auto simp: SPEND_SCRIPT_def eff_bind_def eff_return_def)
qed

lemma u64_reply_small: "unat q \<le> 2 ^ 53 \<Longrightarrow> u64_reply (int (unat q)) = Inr q"
  using uint_bounded[of q] by (simp add: u64_reply_def)

lemma policy_text_eq:
  "p \<noteq> Some [] \<Longrightarrow> q \<noteq> Some [] \<Longrightarrow>
   (case p of None \<Rightarrow> [] | Some s \<Rightarrow> s) = (case q of None \<Rightarrow> [] | Some s \<Rightarrow> s) \<longleftrightarrow> p = q"
  by (auto split: option.splits)

lemma mirrors_spent:
  assumes m: "mirrors m d" and ses: "sessions m sid = Some ses" and q: "quota_remaining ses \<noteq> 0"
  shows "mirrors (m\<lparr>sessions := (sessions m)(sid \<mapsto> ses\<lparr>quota_remaining := quota_remaining ses - 1\<rparr>)\<rparr>)
    (put_key (redis_key sid) (Hash (session_hash (ses\<lparr>quota_remaining := quota_remaining ses - 1\<rparr>))) dl d)"
proof -
  have "exact_session ses" using m ses by (simp add: mirrors_iff)
  moreover have "quota_remaining ses - 1 \<le> quota_remaining ses" using q by (simp add: word_le_nat_alt unat_pred)
  ultimately have "exact_session (ses\<lparr>quota_remaining := quota_remaining ses - 1\<rparr>)"
    by (auto simp: exact_session_def)
  then show ?thesis using m by (simp add: mirrors_iff)
qed

text \<open>A sale puts the session on the server as it puts it in the in-process store.\<close>

lemma redis_create_mirrors:
  assumes S: "redis_serves R V" and m: "mirrors m (V r)" and codec: "rs_codec s = codec m"
    and new: "sessions m (new_session_id C raw) = None"
    and exact: "policy \<noteq> Some []" "unat quota \<le> 2 ^ 53" and ttl: "0 < sint ttl"
  shows "\<exists>r1. redis_create_session C R raw s payer policy quota ttl now r =
      (Inr (fst (create_session_at C raw m payer policy quota ttl now)), r1) \<and>
    mirrors (snd (create_session_at C raw m payer policy quota ttl now)) (V r1)"
proof -
  let ?k = "redis_key (new_session_id C raw)"
  let ?ses = "\<lparr>ses_payer = payer, ses_policy = policy, ses_expires_at = sat_add now ttl,
    ses_quota = quota, quota_remaining = quota\<rparr>"
  obtain r0 where r0: "\<And>c :: ('a, string, unit) eff. round_trip R c r = c r0" "V r0 = V r"
    using S by (cases "rd_link R r") (auto simp: redis_serves_def round_trip_def dest!: spec[of _ r])
  have "rk_keys (V r0) ?k = None" using m new r0(2) by (simp add: mirrors_iff)
  then have "hash_at (V r0) ?k = Some Map.empty" "deadline_at (V r0) ?k = None" by (simp_all add: hash_at_def deadline_at_def)
  then obtain s1 where 1: "rd_hset R ?k ''payer'' payer r0 = (Inr (), s1)"
    "V s1 = put_key ?k (Hash [''payer'' \<mapsto> payer]) None (V r0)"
    using serves_hset[OF S, of r0 ?k Map.empty "''payer''" payer] by auto
  note put = hash_at_def deadline_at_def
  from serves_hset[OF S, of s1 ?k _ "''quota''" "show_u64 quota"] 1 obtain s2 where
    2: "rd_hset R ?k ''quota'' (show_u64 quota) s1 = (Inr (), s2)"
    "V s2 = put_key ?k (Hash [''payer'' \<mapsto> payer, ''quota'' \<mapsto> show_u64 quota]) None (V s1)"
    by (auto simp: put)
  from serves_hset[OF S, of s2 ?k _ "''granted''" "show_u64 quota"] 2 obtain s3 where
    3: "rd_hset R ?k ''granted'' (show_u64 quota) s2 = (Inr (), s3)"
    "V s3 = put_key ?k (Hash [''payer'' \<mapsto> payer, ''quota'' \<mapsto> show_u64 quota, ''granted'' \<mapsto> show_u64 quota]) None (V s2)"
    by (auto simp: put)
  from serves_hset[OF S, of s3 ?k _ "''policy''" "case policy of None \<Rightarrow> [] | Some p \<Rightarrow> p"] 3 obtain s4 where
    4: "rd_hset R ?k ''policy'' (case policy of None \<Rightarrow> [] | Some p \<Rightarrow> p) s3 = (Inr (), s4)"
    "V s4 = put_key ?k (Hash (session_hash ?ses)) None (V s3)"
    by (auto simp: put session_hash_def)
  obtain s5 where 5: "rd_expire R ?k (sint ttl) s4 = (Inr (), s5)" "V s5 = expire_key ?k (sint ttl) (V s4)"
    using serves_expire[OF S] by blast
  have "redis_create_session C R raw s payer policy quota ttl now r =
      (Inr (fst (create_session_at C raw m payer policy quota ttl now)), s5)"
    using 1(1) 2(1) 3(1) 4(1) 5(1) r0(1) codec
    by (simp add: redis_create_session_def create_session_at_def Let_def eff_bind_def eff_return_def)
  moreover have "V s5 = put_key ?k (Hash (session_hash ?ses)) (Some (rk_clock (V r) + nat (sint ttl))) (V r)"
    using 1(2) 2(2) 3(2) 4(2) 5(2) r0(2) ttl by (simp add: expire_key_def put_key_def)
  moreover have "exact_session ?ses" using exact by (simp add: exact_session_def)
  ultimately show ?thesis using m by (simp add: mirrors_iff create_session_at_def Let_def)
qed

text \<open>C12: a replica on Redis answers a token exactly as the in-process store would. If the server
  answers and holds the same sessions, each with at most \<open>2 ^ 53\<close> requests, then presenting any
  token under any policy has the same outcome, payer, remaining requests, quota and deadline
  included, and leaves the server holding the sessions of the in-process store after it.\<close>

theorem redis_consume_refines_memory:
  assumes S: "redis_serves R V" and m: "mirrors m (V r)" and codec: "rs_codec s = codec m"
    and policy: "policy \<noteq> Some []"
    and deadline: "\<forall>claims ses. verify C (codec m) token now = Inr claims \<and>
      sessions m (claim_session_id claims) = Some ses \<longrightarrow> ses_expires_at ses = claim_expires_at claims"
  shows "\<exists>r1. redis_consume C R s token policy now r = (fst (consume_at C m token policy now), r1) \<and>
    mirrors (snd (consume_at C m token policy now)) (V r1)"
proof (cases "verify C (codec m) token now")
  case (Inl e)
  then show ?thesis using m codec by (simp add: redis_consume_def consume_at_def)
next
  case (Inr claims)
  let ?sid = "claim_session_id claims"
  let ?p = "case policy of None \<Rightarrow> [] | Some p \<Rightarrow> p"
  obtain r0 where r0: "round_trip R (SPEND_SCRIPT R (redis_key ?sid) ?p) r = SPEND_SCRIPT R (redis_key ?sid) ?p r0"
    "V r0 = V r" using serves_link[OF S] by metis
  show ?thesis
  proof (cases "sessions m ?sid")
    case None
    then have "rk_keys (V r0) (redis_key ?sid) = None" using m r0(2) by (simp add: mirrors_iff)
    from spend_script_absent[OF S this] obtain r1 where
      "SPEND_SCRIPT R (redis_key ?sid) ?p r0 = (Inr (- 2, [], 0), r1)" "V r1 = V r" using r0(2) by metis
    then show ?thesis using Inr None codec r0 m by (simp add: redis_consume_def consume_at_def u64_reply_def)
  next
    case (Some ses)
    then obtain dl where k: "rk_keys (V r0) (redis_key ?sid) = Some (Hash (session_hash ses), dl)" "exact_session ses"
      using m r0(2) by (auto simp: mirrors_iff)
    have now: "now < ses_expires_at ses" using deadline Inr Some by (auto simp: verify_Inr_iff)
    have same: "(case ses_policy ses of None \<Rightarrow> [] | Some s \<Rightarrow> s) \<noteq> ?p \<longleftrightarrow> ses_policy ses \<noteq> policy"
      using policy k(2) by (simp add: policy_text_eq exact_session_def)
    obtain r1 where r1: "SPEND_SCRIPT R (redis_key ?sid) ?p r0 =
      ((if ses_policy ses \<noteq> policy then Inr (- 3, ses_payer ses, 0)
        else if quota_remaining ses = 0 then Inr (- 1, ses_payer ses, 0)
        else Inr (int (unat (quota_remaining ses)) - 1, ses_payer ses, int (unat (ses_quota ses)))), r1)"
      "V r1 = (if ses_policy ses \<noteq> policy \<or> quota_remaining ses = 0 then V r
        else put_key (redis_key ?sid) (Hash (session_hash (ses\<lparr>quota_remaining := quota_remaining ses - 1\<rparr>))) dl (V r))"
      using spend_script_serves[OF S k(2,1), of ?p] unfolding same r0(2) by blast
    show ?thesis
    proof (cases "ses_policy ses \<noteq> policy \<or> quota_remaining ses = 0")
      case True
      with r1 r0 Inr Some codec m now show ?thesis
        by (auto simp: redis_consume_def consume_at_def u64_reply_def spend_one_def)
    next
      case False
      let ?q = "quota_remaining ses"
      have u: "u64_reply (int (unat (ses_quota ses))) = Inr (ses_quota ses)"
        using k(2) by (simp add: exact_session_def u64_reply_small del: of_nat_unat)
      have n: "unat ?q = Suc (unat (?q - 1))" using False by (simp add: unat_pred unat_gt_0)
      have w: "word_of_int (max (int (unat ?q) - 1) 0) = ?q - 1" unfolding n by simp
      have i: "int (unat ?q) - 1 \<notin> {- 1, - 2, - 3}" unfolding n by (auto simp del: of_nat_unat)
      have e: "claim_expires_at claims = ses_expires_at ses" using deadline Inr Some by simp
      have "redis_consume C R s token policy now r =
          (Accepted (ses_payer ses) (?q - 1) (ses_quota ses) (ses_expires_at ses), r1)"
        using r1(1) r0(1) Inr codec False i w u e by (simp add: redis_consume_def del: of_nat_unat)
      moreover have "consume_at C m token policy now =
          (Accepted (ses_payer ses) (?q - 1) (ses_quota ses) (ses_expires_at ses),
           m\<lparr>sessions := (sessions m)(?sid \<mapsto> ses\<lparr>quota_remaining := ?q - 1\<rparr>)\<rparr>)"
        using Inr Some now False by (simp add: consume_at_def spend_one_def not_le)
      ultimately show ?thesis using r1(2) False mirrors_spent[OF m Some, of dl] by simp
    qed
  qed
qed

theorem redis_consume_refines_memory_witness:
  "\<exists>r1. fst (redis_consume demo_crypto live_redis demo_redis_store demo_token None 1000 (snd demo_sale)) =
     Accepted ''0xa1'' 1 2 4600 \<and>
   redis_consume demo_crypto live_redis demo_redis_store demo_token None 1000 (snd demo_sale) =
     (fst (consume_at demo_crypto demo_store demo_token None 1000), r1)"
proof -
  have e: "mirrors (store_new ''key'' 3600) (id empty_redis)" by (simp add: mirrors_def store_new_def empty_redis_def)
  have m: "mirrors demo_store (id (snd demo_sale))"
    using redis_create_mirrors[OF live_redis_serves e, of demo_redis_store demo_crypto "''id''" None 2 3600 "''0xa1''" 1000]
    by (auto simp: store_new_def demo_sale_def demo_store_def)
  have c: "rs_codec demo_redis_store = codec demo_store"
    by (simp add: demo_store_def create_session_at_def Let_def store_new_def)
  have f: "token_field ''0xa1''" by (simp add: token_field_def graphic_def)
  have "token_field (new_session_id demo_crypto ''id'')"
    unfolding new_session_id_def by (rule token_field_hex[OF demo_crypto_laws])
  then have d: "\<forall>claims ses. verify demo_crypto (codec demo_store) demo_token 1000 = Inr claims \<and>
      sessions demo_store (claim_session_id claims) = Some ses \<longrightarrow> ses_expires_at ses = claim_expires_at claims"
    using f by (simp add: demo_store_def demo_token_def create_session_at_def Let_def verify_mint demo_crypto_laws sat_add_def)
  show ?thesis using redis_consume_refines_memory[where policy = None, OF live_redis_serves m c _ d] demo_accepted by auto
qed

end
