(* ===== verification/Sweep.thy ===== *)
theory Sweep
  imports Session
begin

text \<open>
  The background sweep of the in-process store (\<open>cleanup_expired\<close> in src/session.rs) seen from
  outside: a whole history with sweeps in it is compared with the same history without them, by
  a simulation between the swept store and the one that keeps everything.
\<close>

section \<open>What clients see of a history\<close>

datatype store_answer = Sold string | Spent SessionOutcome | Claimed PaymentClaim

fun answer :: "crypto \<Rightarrow> MemorySessionStore \<Rightarrow> store_event \<Rightarrow> store_answer list" where
  "answer C s (Create raw payer policy q ttl now) = [Sold (fst (create_session_at C raw s payer policy q ttl now))]"
| "answer C s (Consume token policy now) = [Spent (fst (consume_at C s token policy now))]"
| "answer C s (Claim i ttl now) = [Claimed (fst (claim_payment_at s i ttl now))]"
| "answer C s (Release i) = []"
| "answer C s (Cleanup now) = []"

fun answers :: "crypto \<Rightarrow> MemorySessionStore \<Rightarrow> store_event list \<Rightarrow> store_answer list" where
  "answers C s [] = []"
| "answers C s (e # es) = answer C s e @ answers C (store_step C s e) es"

fun is_cleanup :: "store_event \<Rightarrow> bool" where
  "is_cleanup (Cleanup now) = True"
| "is_cleanup _ = False"

fun event_times :: "store_event \<Rightarrow> u64 list" where
  "event_times (Create raw payer policy q ttl now) = [now]"
| "event_times (Consume token policy now) = [now]"
| "event_times (Claim i ttl now) = [now]"
| "event_times (Release i) = []"
| "event_times (Cleanup now) = [now]"

fun claim_lasts :: "store_event \<Rightarrow> u64" where
  "claim_lasts (Claim i ttl now) = ttl"
| "claim_lasts _ = 0"

text \<open>The answers a sweep may exchange: a session that has expired may be unknown instead.\<close>

definition like_unswept :: "store_answer \<Rightarrow> store_answer \<Rightarrow> bool" where
  "like_unswept a b \<longleftrightarrow> a = b \<or> a = Spent (Rejected Unknown) \<and> b = Spent (Rejected Expired)"

lemma like_unswept_refl [simp]: "like_unswept a a"
  by (simp add: like_unswept_def)

section \<open>The simulation\<close>

text \<open>An entry that is the same, or was dropped although \<open>D\<close> allows that.\<close>

definition swept :: "('v \<Rightarrow> bool) \<Rightarrow> 'v option \<Rightarrow> 'v option \<Rightarrow> bool" where
  "swept D a b \<longleftrightarrow> a = b \<or> a = None \<and> (\<exists>v. b = Some v \<and> D v)"

lemma swept_refl [simp]: "swept D a a"
  by (simp add: swept_def)

lemma swept_later: "swept D a b \<Longrightarrow> (\<And>v. D v \<Longrightarrow> D' v) \<Longrightarrow> swept D' a b"
  by (auto simp: swept_def)

lemma swept_retain: "swept D (m k) b \<Longrightarrow> (\<And>v. \<not> P k v \<Longrightarrow> D v) \<Longrightarrow> swept D (retain P m k) b"
  by (cases "m k") (auto simp: swept_def retain_def split: if_splits)

definition sweep_sim :: "u64 \<Rightarrow> MemorySessionStore \<Rightarrow> MemorySessionStore \<Rightarrow> bool" where
  "sweep_sim now s s' \<longleftrightarrow> codec s = codec s' \<and> replay_retention_secs s = replay_retention_secs s' \<and>
     (\<forall>i. swept (\<lambda>ses. ses_expires_at ses \<le> now) (sessions s i) (sessions s' i)) \<and>
     (\<forall>i. swept (\<lambda>t. replay_retention_secs s' \<le> sat_sub now t) (seen_payments s i) (seen_payments s' i))"

lemma sweep_sim_refl: "sweep_sim now s s"
  by (simp add: sweep_sim_def)

lemma sat_sub_mono: "a \<le> b \<Longrightarrow> sat_sub a t \<le> sat_sub b t"
  by (simp add: word_nat)

lemma sweep_sim_later: "now \<le> later \<Longrightarrow> sweep_sim now s s' \<Longrightarrow> sweep_sim later s s'"
  unfolding sweep_sim_def by (blast intro: swept_later order_trans sat_sub_mono)

lemma cleanup_retention: "replay_retention_secs (snd (cleanup_expired_at s now)) = replay_retention_secs s"
  by (simp add: cleanup_expired_at_def Let_def)

text \<open>The same change on both sides.\<close>

lemma sweep_sim_update:
  assumes "sweep_sim now s s'"
  shows "sweep_sim now (s\<lparr>sessions := (sessions s)(i := x)\<rparr>) (s'\<lparr>sessions := (sessions s')(i := x)\<rparr>)"
    "sweep_sim now (s\<lparr>seen_payments := (seen_payments s)(p := y)\<rparr>) (s'\<lparr>seen_payments := (seen_payments s')(p := y)\<rparr>)"
  using assms by (simp_all add: sweep_sim_def)

lemma sim_cleanup:
  assumes "sweep_sim now s s'"
  shows "sweep_sim now (snd (cleanup_expired_at s now)) s'"
  using assms unfolding sweep_sim_def by (auto simp: cleanup_retention not_less intro!: swept_retain)

lemma sim_consume:
  assumes "sweep_sim now s s'"
  shows "like_unswept (Spent (fst (consume_at C s token policy now))) (Spent (fst (consume_at C s' token policy now)))"
    "sweep_sim now (snd (consume_at C s token policy now)) (snd (consume_at C s' token policy now))"
proof -
  have c: "codec s = codec s'" using assms by (simp add: sweep_sim_def)
  have "like_unswept (Spent (fst (consume_at C s token policy now))) (Spent (fst (consume_at C s' token policy now))) \<and>
    sweep_sim now (snd (consume_at C s token policy now)) (snd (consume_at C s' token policy now))"
  proof (cases "verify C (codec s') token now")
    case (Inl e)
    with c assms show ?thesis by (simp add: consume_at_def)
  next
    case (Inr claims)
    let ?i = "claim_session_id claims"
    from assms consider "sessions s ?i = sessions s' ?i"
      | ses where "sessions s ?i = None" "sessions s' ?i = Some ses" "ses_expires_at ses \<le> now"
      unfolding sweep_sim_def swept_def by blast
    then show ?thesis
    proof cases
      case 1
      with Inr c assms show ?thesis
        by (simp add: consume_at_def spend_one_def sweep_sim_update split: option.split)
    next
      case 2
      with Inr c assms show ?thesis by (simp add: consume_at_def like_unswept_def)
    qed
  qed
  then show "like_unswept (Spent (fst (consume_at C s token policy now))) (Spent (fst (consume_at C s' token policy now)))"
    "sweep_sim now (snd (consume_at C s token policy now)) (snd (consume_at C s' token policy now))" by simp_all
qed

lemma sim_claim:
  assumes "sweep_sim now s s'" "ttl \<le> replay_retention_secs s"
  shows "fst (claim_payment_at s i ttl now) = fst (claim_payment_at s' i ttl now)"
    "sweep_sim now (snd (claim_payment_at s i ttl now)) (snd (claim_payment_at s' i ttl now))"
proof -
  note same = sweep_sim_update(2)[OF assms(1), of i "Some now"]
  have "fst (claim_payment_at s i ttl now) = fst (claim_payment_at s' i ttl now) \<and>
    sweep_sim now (snd (claim_payment_at s i ttl now)) (snd (claim_payment_at s' i ttl now))"
  proof (cases "seen_payments s i = seen_payments s' i")
    case True
    then obtain x where x: "seen_payments s i = x" "seen_payments s' i = x" by simp
    with same assms(1) show ?thesis by (cases x) (simp_all add: claim_payment_at_def)
  next
    case False
    with assms(1) obtain t where t: "seen_payments s i = None" "seen_payments s' i = Some t" "replay_retention_secs s' \<le> sat_sub now t"
      by (auto simp: sweep_sim_def swept_def)
    have "replay_retention_secs s = replay_retention_secs s'" using assms(1) by (simp add: sweep_sim_def)
    with assms(2) have "ttl \<le> replay_retention_secs s'" by simp
    then have "ttl \<le> sat_sub now t" using t(3) by (rule order_trans)
    with t same show ?thesis by (simp add: claim_payment_at_def)
  qed
  then show "fst (claim_payment_at s i ttl now) = fst (claim_payment_at s' i ttl now)"
    "sweep_sim now (snd (claim_payment_at s i ttl now)) (snd (claim_payment_at s' i ttl now))" by simp_all
qed

lemma sim_step:
  assumes "sweep_sim now s s'" "\<forall>t \<in> set (event_times e). t = now" "claim_lasts e \<le> replay_retention_secs s" "\<not> is_cleanup e"
  shows "list_all2 like_unswept (answer C s e) (answer C s' e)" "sweep_sim now (store_step C s e) (store_step C s' e)"
proof -
  have "list_all2 like_unswept (answer C s e) (answer C s' e) \<and> sweep_sim now (store_step C s e) (store_step C s' e)"
  proof (cases e)
    case (Consume token policy t)
    with assms sim_consume[OF assms(1)] show ?thesis by simp
  next
    case (Claim i ttl t)
    with assms sim_claim[OF assms(1), of ttl i] show ?thesis by simp
  qed (use assms sweep_sim_update[OF assms(1)] in \<open>simp_all add: create_session_at_def release_payment_def Let_def sweep_sim_def\<close>)
  then show "list_all2 like_unswept (answer C s e) (answer C s' e)" "sweep_sim now (store_step C s e) (store_step C s' e)"
    by simp_all
qed

lemma step_retention [simp]: "replay_retention_secs (store_step C s e) = replay_retention_secs s"
  by (cases e) (auto simp: create_session_at_def consume_at_def claim_payment_at_def release_payment_def
      cleanup_expired_at_def Let_def split: sum.splits option.splits prod.splits)

lemma sim_run:
  assumes "sweep_sim now s s'" "sorted (now # concat (map event_times es))"
    "\<forall>e \<in> set es. claim_lasts e \<le> replay_retention_secs s"
  shows "list_all2 like_unswept (answers C s es) (answers C s' (filter (\<lambda>e. \<not> is_cleanup e) es))"
  using assms
proof (induction es arbitrary: now s s')
  case (Cons e es)
  obtain t where t: "now \<le> t" "\<forall>x \<in> set (event_times e). x = t" "sorted (t # concat (map event_times es))"
    using Cons.prems(2) by (cases e) auto
  note sim = sweep_sim_later[OF t(1) Cons.prems(1)]
  show ?case
  proof (cases "is_cleanup e")
    case True
    then have e: "e = Cleanup t" using t(2) by (cases e) auto
    from Cons.IH[OF sim_cleanup[OF sim] t(3)] Cons.prems(3) step_retention[of C s e] e show ?thesis by simp
  next
    case False
    have l: "claim_lasts e \<le> replay_retention_secs s" using Cons.prems(3) by simp
    from Cons.IH[OF sim_step(2)[OF sim t(2) l False] t(3)] sim_step(1)[OF sim t(2) l False] Cons.prems(3) False
    show ?thesis by (simp add: list_all2_appendI)
  qed
qed simp

section \<open>Property\<close>

text \<open>C35: the background sweep is invisible to clients, if records are kept long enough. Take any
  history of sales, requests, claims, releases and sweeps under a clock that does not go
  back, and the same history without its sweeps. If every claim lasts at most as long as replay
  records are retained, all answers are the same, one by one, but for this: a request on a session
  that has expired may be refused as unknown. (Retention is the default session duration, so a
  configuration can violate the condition; what happens then is the property on short sessions.)\<close>

theorem sweep_is_transparent:
  assumes "sorted (concat (map event_times es))"
    and "\<forall>e \<in> set es. claim_lasts e \<le> replay_retention_secs s"
  shows "list_all2 (\<lambda>a b. a = b \<or> a = Spent (Rejected Unknown) \<and> b = Spent (Rejected Expired))
    (answers C s es) (answers C s (filter (\<lambda>e. \<not> is_cleanup e) es))"
proof -
  have "sorted (0 # concat (map event_times es))" using assms(1) by simp
  from sim_run[OF sweep_sim_refl this assms(2)] show ?thesis unfolding like_unswept_def .
qed

theorem sweep_is_transparent_witness:
  "answers demo_crypto (store_new ''key'' 600) [Claim ''tx'' 300 1000, Cleanup 1100, Claim ''tx'' 300 1200] =
     [Claimed Fresh, Claimed (Replay 1000)] \<and>
   list_all2 (\<lambda>a b. a = b \<or> a = Spent (Rejected Unknown) \<and> b = Spent (Rejected Expired))
     (answers demo_crypto (store_new ''key'' 600) [Claim ''tx'' 300 1000, Cleanup 1100, Claim ''tx'' 300 1200])
     (answers demo_crypto (store_new ''key'' 600) [Claim ''tx'' 300 1000, Claim ''tx'' 300 1200])"
proof -
  let ?es = "[Claim ''tx'' 300 1000, Cleanup 1100, Claim ''tx'' 300 1200]"
  have t: "sorted (concat (map event_times ?es))" by simp
  have l: "\<forall>e \<in> set ?es. claim_lasts e \<le> replay_retention_secs (store_new ''key'' 600)" by (simp add: store_new_def)
  have "answers demo_crypto (store_new ''key'' 600) ?es = [Claimed Fresh, Claimed (Replay 1000)]"
    by (simp add: claim_payment_at_def store_new_def sat_sub_def cleanup_expired_at_def retain_def Let_def)
  with sweep_is_transparent[OF t l, of demo_crypto] show ?thesis by simp
qed

end
