(* ===== verification/Metrics.thy ===== *)
theory Metrics
  imports ExtProc
begin

text \<open>
  Prometheus instrumentation (src/metrics.rs): the names, the registration and, for every decision of
  src/auth.rs and every message of src/ext_proc.rs, the samples the code records while it is handled.
  The exporter is a crate. A recorded duration is a sample without its value.

  The functions here follow the stages of the handlers and read the state each stage starts from, so
  that what is counted can be compared with what the handlers do.
\<close>

section \<open>Names\<close>

definition REQUESTS :: string where "REQUESTS = ''x402_requests_total''"
definition PAYMENTS :: string where "PAYMENTS = ''x402_payments_total''"
definition VERIFICATION_SECONDS :: string where "VERIFICATION_SECONDS = ''x402_verification_seconds''"
definition SETTLEMENT_SECONDS :: string where "SETTLEMENT_SECONDS = ''x402_settlement_seconds''"
definition SESSIONS :: string where "SESSIONS = ''x402_sessions_total''"
definition SESSION_REJECTIONS :: string where "SESSION_REJECTIONS = ''x402_session_rejections_total''"
definition REPLAY_CLAIMS :: string where "REPLAY_CLAIMS = ''x402_replay_claims_total''"
definition RATE_LIMIT :: string where "RATE_LIMIT = ''x402_rate_limit_total''"
definition SETTLEMENT_AFTER_SERVE_FAILURES :: string where
  "SETTLEMENT_AFTER_SERVE_FAILURES = ''x402_settlement_after_serve_failures_total''"
definition STORE_ERRORS :: string where "STORE_ERRORS = ''x402_store_errors_total''"

lemmas metric_names = REQUESTS_def PAYMENTS_def VERIFICATION_SECONDS_def SETTLEMENT_SECONDS_def SESSIONS_def
  SESSION_REJECTIONS_def REPLAY_CLAIMS_def RATE_LIMIT_def SETTLEMENT_AFTER_SERVE_FAILURES_def STORE_ERRORS_def

datatype metric_kind = Counter | HistogramSeconds

definition describe :: "(metric_kind \<times> string \<times> string) list" where
  "describe =
     [(Counter, REQUESTS, ''Authorization decisions, by tier, decision and policy.''),
      (Counter, PAYMENTS, ''Payment attempts, by outcome, standard x402 error code and verification mode.''),
      (HistogramSeconds, VERIFICATION_SECONDS, ''Time to verify a payment, including any fullnode RPC.''),
      (HistogramSeconds, SETTLEMENT_SECONDS, ''Time to settle a payment on chain.''),
      (Counter, SESSIONS, ''Session lifecycle events (created, accepted).''),
      (Counter, SESSION_REJECTIONS, ''Presented session tokens that were refused, by reason.''),
      (Counter, REPLAY_CLAIMS, ''Replay-cache claims, by outcome (fresh, replay, backend error).''),
      (Counter, RATE_LIMIT, ''Free-tier decisions, by outcome.''),
      (Counter, SETTLEMENT_AFTER_SERVE_FAILURES,
        ''ALERT: the upstream served the request but settlement then failed. The resource was delivered unpaid.''),
      (Counter, STORE_ERRORS,
        ''ALERT: the session/replay store was unreachable. Requests are failing closed, so paying clients are being turned away.'')]"

text \<open>
  Installing: the exporter, with the address to listen on, the suffix its buckets apply to and their
  bounds in thousandths of a second, may fail; the descriptions follow.
\<close>

definition LATENCY_BUCKETS_MS :: "nat list" where
  "LATENCY_BUCKETS_MS = [5, 10, 25, 50, 100, 250, 500, 1000, 2500, 5000, 10000]"

definition install ::
  "(SocketAddr \<Rightarrow> string \<Rightarrow> nat list \<Rightarrow> string + unit) \<Rightarrow> SocketAddr
    \<Rightarrow> string + (metric_kind \<times> string \<times> string) list" where
  "install exporter addr =
     (case exporter addr ''_seconds'' LATENCY_BUCKETS_MS of Inl e \<Rightarrow> Inl e | Inr _ \<Rightarrow> Inr describe)"

section \<open>Samples\<close>

datatype sample = Count string "(string \<times> string) list" | Observe string "(string \<times> string) list"

fun of_metric :: "string \<Rightarrow> sample \<Rightarrow> bool" where
  "of_metric name (Count n ls) = (n = name)"
| "of_metric name (Observe n ls) = (n = name)"

definition payment_sample :: "string \<Rightarrow> string \<Rightarrow> string \<Rightarrow> sample" where
  "payment_sample outcome code mode = Count PAYMENTS [(''outcome'', outcome), (''code'', code), (''mode'', mode)]"

definition request_sample :: "string \<Rightarrow> string \<Rightarrow> string option \<Rightarrow> sample" where
  "request_sample tier decision policy =
     Count REQUESTS [(''tier'', tier), (''decision'', decision), (''policy'', policy_label policy)]"

definition session_metrics ::
  "('n, 'r) platform \<Rightarrow> moments \<Rightarrow> string option \<Rightarrow> string option \<Rightarrow> ('n, 'r) App \<Rightarrow> sample list" where
  "session_metrics P mo session_token policy app =
     (case session_token of
        None \<Rightarrow> []
      | Some token \<Rightarrow>
          (case fst (on_sessions (store_consume (pf_crypto P) (pf_redis P) token policy (at_consume mo)) app) of
             Accepted payer remaining quota expires_at \<Rightarrow>
               [Count SESSIONS [(''event'', ''accepted'')], request_sample ''paid'' ''allow'' policy]
           | Rejected reason \<Rightarrow>
               Count SESSION_REJECTIONS [(''reason'', session_rejection_label reason)] #
               (if reason = SessionRejection.Backend then [Count STORE_ERRORS [(''store'', ''session'')]] else [])))"

definition claim_metrics ::
  "('n, 'r) platform \<Rightarrow> moments \<Rightarrow> terms \<Rightarrow> PaymentPayload \<Rightarrow> ('n, 'r) App \<Rightarrow> sample list" where
  "claim_metrics P mo tm payload app =
     (case payment_id (pf_wire P) payload of
        None \<Rightarrow> []
      | Some pid \<Rightarrow>
          (let claim = fst (on_sessions (store_claim_payment (pf_redis P) pid
                 (replay_ttl (pr_max_timeout_seconds (tm_requirements tm))) (at_claim mo)) app) in
           Count REPLAY_CLAIMS [(''outcome'', replay_claim_label claim)] #
           (if claim = PaymentClaim.Backend then [Count STORE_ERRORS [(''store'', ''replay'')]] else [])))"

definition verify_metrics :: "('n, 'r) platform \<Rightarrow> terms \<Rightarrow> PaymentPayload \<Rightarrow> ('n, 'r) App \<Rightarrow> sample list" where
  "verify_metrics P tm payload app =
     (let mode = mode_label (verification_mode (ap_config app)) in
      Observe VERIFICATION_SECONDS [(''mode'', mode)] #
      (case fst (on_node (facilitator_verify (pf_node P) (pf_wire P) (ap_facilitator app) payload (tm_requirements tm)) app) of
         Inr payer \<Rightarrow> [payment_sample ''verified'' ''ok'' mode]
       | Inl e \<Rightarrow> [payment_sample ''rejected'' (error_code e) mode]))"

definition settle_metrics ::
  "('n, 'r) platform \<Rightarrow> moments \<Rightarrow> terms \<Rightarrow> string option \<Rightarrow> PaymentPayload \<Rightarrow> ('n, 'r) App \<Rightarrow> sample list" where
  "settle_metrics P mo tm policy payload app =
     (let mode = mode_label (verification_mode (ap_config app)) in
      case on_node (verify_and_settle (pf_node P) (pf_wire P) (ap_facilitator app) payload (tm_requirements tm)) app of
        (Inr settlement, app1) \<Rightarrow>
          payment_sample ''settled'' ''ok'' mode #
          (if fst (mint_session P mo policy (rp_paid_tier (tm_resolved tm)) (sr_payer settlement) app1) \<noteq> None
           then [Count SESSIONS [(''event'', ''created'')]] else [])
      | (Inl e, app1) \<Rightarrow> [payment_sample ''rejected'' (error_code e) mode])"

definition payment_metrics ::
  "('n, 'r) platform \<Rightarrow> moments \<Rightarrow> terms \<Rightarrow> string option \<Rightarrow> SettlePolicy
    \<Rightarrow> HeaderDecodeError + PaymentPayload \<Rightarrow> ('n, 'r) App \<Rightarrow> sample list" where
  "payment_metrics P mo tm policy settle decoded app =
     (case decoded of
        Inl e \<Rightarrow> []
      | Inr payload \<Rightarrow>
          claim_metrics P mo tm payload app @
          (case claim_stage P mo tm payload app of
             (Some e, app1) \<Rightarrow> []
           | (None, app1) \<Rightarrow>
               if settle = Deferred then verify_metrics P tm payload app1
               else settle_metrics P mo tm policy payload app1))"

definition free_metrics ::
  "('n, 'r) platform \<Rightarrow> moments \<Rightarrow> terms \<Rightarrow> IpAddr option \<Rightarrow> string option \<Rightarrow> ('n, 'r) App \<Rightarrow> sample list" where
  "free_metrics P mo tm client_ip policy app =
     (case client_ip of
        None \<Rightarrow> []
      | Some ip \<Rightarrow>
          (let ft = rp_free_tier (tm_resolved tm) in
           case limiter_check (pf_redis P) (rp_label (tm_resolved tm)) ip (max_requests ft) (window_secs ft)
                  (at_limit mo) (ap_limiter app, ap_redis app) of
             None \<Rightarrow> []
           | Some (a, l, r) \<Rightarrow>
               (if allowed a
                then [Count RATE_LIMIT [(''outcome'', ''allowed'')], request_sample ''free'' ''allow'' policy]
                else [Count RATE_LIMIT [(''outcome'', ''denied'')], request_sample ''free'' ''challenge'' policy])))"

definition decide_metrics ::
  "('n, 'r) platform \<Rightarrow> moments \<Rightarrow> HeaderView \<Rightarrow> IpAddr option \<Rightarrow> string \<Rightarrow> string option \<Rightarrow> string
    \<Rightarrow> SettlePolicy \<Rightarrow> ('n, 'r) App \<Rightarrow> sample list" where
  "decide_metrics P mo headers client_ip path policy url settle app =
     (let tm = resolve_terms (ap_config app) path policy url;
          session_token = presented_token (pf_wire P) headers;
          (served, app1) = session_stage P mo session_token policy app in
      session_metrics P mo session_token policy app @
      (case (served, presented (pf_wire P) headers) of
         (Some decision, _) \<Rightarrow> []
       | (None, Some decoded) \<Rightarrow> payment_metrics P mo tm policy settle decoded app1
       | (None, None) \<Rightarrow> free_metrics P mo tm client_ip policy app1))"

section \<open>The stream\<close>

definition request_headers_metrics ::
  "('n, 'r) platform \<Rightarrow> moments \<Rightarrow> RawHeader list option \<Rightarrow> IpAddr option \<Rightarrow> string option
    \<Rightarrow> ('n, 'r) App \<Rightarrow> sample list" where
  "request_headers_metrics P mo headers client_ip policy app =
     (let m = header_map (pf_wire P) headers;
          view = Some m;
          path = (case map_of m '':path'' of Some p \<Rightarrow> p | None \<Rightarrow> []);
          url = resource_url m path;
          (breaker, b1) = state_at (ap_breaker app) (breaker_label policy) (at_breaker mo);
          app1 = app\<lparr>ap_breaker := b1\<rparr> in
      if \<not> accepts_payment breaker \<and> header_get view HEADER_PAYMENT_SIGNATURE \<noteq> None
      then [payment_sample ''breaker_open'' (breaker_as_str breaker) ''deferred'']
      else decide_metrics P mo view client_ip path policy url Deferred app1)"

definition settle_pending_metrics ::
  "('n, 'r) platform \<Rightarrow> moments \<Rightarrow> StreamState \<Rightarrow> PendingPayment \<Rightarrow> ('n, 'r) App \<Rightarrow> sample list" where
  "settle_pending_metrics P mo ss pending app =
     (let tier = rp_paid_tier (policy_for (ap_config app) (ss_path ss) (ss_policy ss));
          (settled, app1) = on_node (facilitator_settle (pf_node P) (pf_wire P) (ap_facilitator app)
             (pn_payload pending) (pn_requirements pending)) app;
          label = breaker_label (ss_policy ss) in
      Observe SETTLEMENT_SECONDS [] #
      (case settled of
         Inr settlement \<Rightarrow>
           (let app2 = app1\<lparr>ap_breaker := record_success (ap_breaker app1) label (at_breaker mo)\<rparr> in
            payment_sample ''settled'' ''ok'' ''deferred'' #
            (if fst (mint_session P mo (ss_policy ss) tier (sr_payer settlement) app2) \<noteq> None
             then [Count SESSIONS [(''event'', ''created'')]] else []))
       | Inl e \<Rightarrow>
           [Count SETTLEMENT_AFTER_SERVE_FAILURES [(''code'', error_code e)],
            payment_sample ''settle_failed_after_serve'' (error_code e) ''deferred'']))"

definition response_headers_metrics ::
  "('n, 'r) platform \<Rightarrow> moments \<Rightarrow> StreamState \<Rightarrow> RawHeader list option \<Rightarrow> ('n, 'r) App \<Rightarrow> sample list" where
  "response_headers_metrics P mo ss headers app =
     (case ss_pending ss of
        None \<Rightarrow> []
      | Some pending \<Rightarrow>
          (let status = (case map_of (header_map (pf_wire P) headers) '':status'' of Some s \<Rightarrow> s | None \<Rightarrow> []) in
           if \<not> is_success status then [] else settle_pending_metrics P mo ss pending app))"

definition message_metrics ::
  "('n, 'r) platform \<Rightarrow> moments \<Rightarrow> ProcessingRequest \<Rightarrow> StreamState \<Rightarrow> ('n, 'r) App \<Rightarrow> sample list" where
  "message_metrics P mo message ss app =
     (case pq_phase message of
        RequestHeaders headers \<Rightarrow>
          request_headers_metrics P mo headers (client_ip_from_attributes (pq_attributes message))
            (policy_from_attributes (pq_attributes message)) app
      | ResponseHeaders headers \<Rightarrow> response_headers_metrics P mo ss headers app
      | OtherPhase \<Rightarrow> [])"

text \<open>What a stream has recorded when its messages have been handled.\<close>

fun stream_metrics ::
  "('n, 'r) platform \<Rightarrow> (moments \<times> ProcessingRequest \<times> bool) list \<Rightarrow> StreamState \<Rightarrow> ('n, 'r) App \<Rightarrow> sample list" where
  "stream_metrics P [] ss app = []"
| "stream_metrics P ((mo, message, delivered) # ms) ss app =
     message_metrics P mo message ss app @
     (case process_message P mo message ss app of
        None \<Rightarrow> []
      | Some (reply, ss1, app1) \<Rightarrow> if \<not> delivered then [] else stream_metrics P ms ss1 app1)"

section \<open>Names follow the conventions\<close>

definition ends_with :: "string \<Rightarrow> string \<Rightarrow> bool" where
  "ends_with s suffix \<longleftrightarrow> starts_with (rev s) (rev suffix)"

lemma metric_names_conventional:
  "(kind, name, text) \<in> set describe \<Longrightarrow>
   starts_with name ''x402_'' \<and> ends_with name (case kind of Counter \<Rightarrow> ''_total'' | HistogramSeconds \<Rightarrow> ''_seconds'')"
  by (auto simp: describe_def metric_names ends_with_def starts_with_def)

section \<open>What is counted\<close>

text \<open>The payments counted with an outcome.\<close>

fun has_outcome :: "string \<Rightarrow> sample \<Rightarrow> bool" where
  "has_outcome out (Count n ls) = (n = PAYMENTS \<and> map_of ls ''outcome'' = Some out)"
| "has_outcome out (Observe n ls) = False"

definition counted :: "string \<Rightarrow> sample list \<Rightarrow> nat" where
  "counted out samples = length (filter (has_outcome out) samples)"

lemma counted_simps [simp]:
  "counted out [] = 0" "counted out (xs @ ys) = counted out xs + counted out ys"
  "counted out (s # xs) = (if has_outcome out s then 1 else 0) + counted out xs"
  by (simp_all add: counted_def)

lemma has_outcome_payment [simp]: "has_outcome out (payment_sample outcome code mode) \<longleftrightarrow> outcome = out"
  by (auto simp: payment_sample_def)

lemma not_payment [simp]:
  "\<not> has_outcome out (request_sample t d p)" "n \<noteq> PAYMENTS \<Longrightarrow> \<not> has_outcome out (Count n ls)"
  by (simp_all add: request_sample_def metric_names)

lemma counted_session [simp]: "counted out (session_metrics P mo token policy app) = 0"
  by (auto simp: session_metrics_def metric_names request_sample_def split: option.splits SessionOutcome.splits)

lemma counted_claim [simp]: "counted out (claim_metrics P mo tm payload app) = 0"
  by (auto simp: claim_metrics_def metric_names Let_def split: option.splits)

lemma counted_free [simp]: "counted out (free_metrics P mo tm ip policy app) = 0"
  by (auto simp: free_metrics_def metric_names request_sample_def Let_def split: option.splits)

lemma verify_counted:
  assumes "verify_deferred P tm payload app = (d, app')"
  shows "counted ''verified'' (verify_metrics P tm payload app) =
    (case d of Allow tier payer token settlement pending meter \<Rightarrow> (if pending = None then 0 else 1) | Deny c r m \<Rightarrow> 0)"
    "counted ''settled'' (verify_metrics P tm payload app) = 0"
    "counted ''settle_failed_after_serve'' (verify_metrics P tm payload app) = 0"
  using assms by (auto simp: verify_deferred_def verify_metrics_def payment_rejected_def Let_def split: prod.splits sum.splits)

text \<open>A decision that defers settlement counts \<open>verified\<close> exactly when it leaves a payment to settle.\<close>

lemma decide_counted:
  assumes "decide P mo headers ip path policy url Deferred app = Some (d, app')"
  shows "counted ''verified'' (decide_metrics P mo headers ip path policy url Deferred app) =
      (case d of Allow tier payer token settlement pending meter \<Rightarrow> (if pending = None then 0 else 1) | Deny c r m \<Rightarrow> 0) \<and>
    counted ''settled'' (decide_metrics P mo headers ip path policy url Deferred app) = 0 \<and>
    counted ''settle_failed_after_serve'' (decide_metrics P mo headers ip path policy url Deferred app) = 0"
proof -
  obtain served app1 where s: "session_stage P mo (presented_token (pf_wire P) headers) policy app = (served, app1)" by fastforce
  show ?thesis
  proof (cases served)
    case (Some x)
    with s assms have "d = x" by (simp add: decide_eq)
    moreover have "\<exists>payer meter. x = Allow Paid payer None None None meter"
      using s Some by (auto simp: session_stage_def split: option.splits prod.splits SessionOutcome.splits)
    ultimately show ?thesis using s Some by (auto simp: decide_metrics_def)
  next
    case None
    let ?tm = "resolve_terms (ap_config app) path policy url"
    show ?thesis
    proof (cases "presented (pf_wire P) headers")
      case None
      with s \<open>served = None\<close> assms have "free_stage P mo ?tm ip app1 = Some (d, app')" by (simp add: decide_eq)
      then have "case d of Allow tier payer token settlement pending meter \<Rightarrow> pending = None | Deny c r m \<Rightarrow> True"
        by (auto simp: free_stage_def Let_def split: option.splits if_splits)
      with s None \<open>served = None\<close> show ?thesis by (simp add: decide_metrics_def split: Decision.splits)
    next
      case (Some decoded)
      with s \<open>served = None\<close> assms have p: "payment_stage P mo ?tm policy Deferred decoded app1 = (d, app')"
        by (simp add: decide_eq)
      show ?thesis
      proof (cases "\<exists>payload app2. decoded = Inr payload \<and> claim_stage P mo ?tm payload app1 = (None, app2)")
        case True
        then obtain payload app2 where t: "decoded = Inr payload" "claim_stage P mo ?tm payload app1 = (None, app2)" by blast
        with p have "verify_deferred P ?tm payload app2 = (d, app')" by (simp add: payment_stage_def)
        from verify_counted[OF this] t s Some \<open>served = None\<close> show ?thesis
          by (simp add: decide_metrics_def payment_metrics_def Let_def)
      next
        case False
        with p have "\<exists>c r m. d = Deny c r m"
          by (auto simp: payment_stage_def payment_rejected_def split: sum.splits prod.splits option.splits)
        with False s Some \<open>served = None\<close> show ?thesis
          by (auto simp: decide_metrics_def payment_metrics_def Let_def split: sum.splits prod.splits option.splits)
      qed
    qed
  qed
qed

text \<open>One message: what it takes from the waiting payment and what it leaves.\<close>

lemma message_counted:
  assumes "process_message P mo message ss app = Some (reply, ss', app')"
  shows "counted ''settled'' (message_metrics P mo message ss app) +
      counted ''settle_failed_after_serve'' (message_metrics P mo message ss app) + waiting ss'
    \<le> counted ''verified'' (message_metrics P mo message ss app) + waiting ss"
proof (cases "pq_phase message")
  case (RequestHeaders headers)
  then show ?thesis using assms
    by (auto simp: process_message_def message_metrics_def handle_request_headers_def request_headers_metrics_def
        decider_decide_def Let_def waiting_def split: prod.splits option.splits Decision.splits if_split_asm
        dest!: decide_counted)
next
  case (ResponseHeaders headers)
  then show ?thesis using assms
    by (auto simp: process_message_def message_metrics_def handle_response_headers_def response_headers_metrics_def
        settle_pending_metrics_def Let_def waiting_def metric_names split: prod.splits option.splits sum.splits if_split_asm)
next
  case OtherPhase
  then show ?thesis using assms by (simp add: process_message_def message_metrics_def)
qed

text \<open>The stages that count a request.\<close>

lemma of_request_metric [simp]:
  "of_metric REQUESTS (request_sample t d p)" "\<not> of_metric REQUESTS (payment_sample a b c)"
  "of_metric REQUESTS (Count n ls) \<longleftrightarrow> n = REQUESTS" "of_metric REQUESTS (Observe n ls) \<longleftrightarrow> n = REQUESTS"
  "SESSIONS \<noteq> REQUESTS" "SESSION_REJECTIONS \<noteq> REQUESTS" "STORE_ERRORS \<noteq> REQUESTS" "REPLAY_CLAIMS \<noteq> REQUESTS"
  "RATE_LIMIT \<noteq> REQUESTS" "VERIFICATION_SECONDS \<noteq> REQUESTS"
  by (simp_all add: request_sample_def payment_sample_def metric_names)

lemma session_requests:
  assumes "session_stage P mo token policy app = (served, app1)"
  shows "filter (of_metric REQUESTS) (session_metrics P mo token policy app) =
    (if served = None then [] else [request_sample ''paid'' ''allow'' policy])"
  using assms by (auto simp: session_stage_def session_metrics_def split: option.splits prod.splits SessionOutcome.splits)

lemma payment_requests: "filter (of_metric REQUESTS) (payment_metrics P mo tm policy settle decoded app) = []"
  by (auto simp: payment_metrics_def claim_metrics_def verify_metrics_def settle_metrics_def Let_def
      split: sum.split option.split prod.split)

lemma payment_decision:
  assumes "payment_stage P mo tm policy settle decoded app = (d, app')"
  shows "(\<exists>c r. d = Deny c r MeterUnknown) \<or>
    (\<exists>payer token settlement pending meter. d = Allow Paid payer token settlement pending meter \<and>
      \<not> (settlement = None \<and> pending = None))"
  using assms by (auto simp: payment_stage_def verify_deferred_def settle_immediate_def payment_rejected_def Let_def
      split: sum.splits option.splits prod.splits if_split_asm)

section \<open>Properties\<close>

text \<open>C30: the payment counters balance. Over any messages of a stream, the payments counted as
  settled, those counted as lost after the upstream had served, and the one that still waits are
  together at most the payments counted as verified: the alert never reports a loss, nor the
  settled counter an income, that was not first counted as a verified payment.\<close>

theorem payment_counters_balance:
  assumes "process P messages ss app = Some (sent, ss', app')"
  shows "counted ''settled'' (stream_metrics P messages ss app) +
      counted ''settle_failed_after_serve'' (stream_metrics P messages ss app) + waiting ss'
    \<le> counted ''verified'' (stream_metrics P messages ss app) + waiting ss"
  using assms
proof (induction messages arbitrary: ss app sent)
  case (Cons m ms)
  obtain mo message delivered where m: "m = (mo, message, delivered)" by (cases m)
  from Cons.prems m obtain reply ss1 app1 where s: "process_message P mo message ss app = Some (reply, ss1, app1)"
    by (auto split: option.splits)
  note step = message_counted[OF s]
  show ?case
  proof (cases delivered)
    case True
    with Cons.prems m s obtain sent1 where "process P ms ss1 app1 = Some (sent1, ss', app')" by auto
    from Cons.IH[OF this] step True s m show ?thesis by simp
  next
    case False
    with Cons.prems m s step show ?thesis by simp
  qed
qed simp

theorem payment_counters_balance_witness:
  "\<exists>ss'. counted ''settled'' (stream_metrics logged_platform paid_stream stream_default logged_app) +
      counted ''settle_failed_after_serve'' (stream_metrics logged_platform paid_stream stream_default logged_app) + waiting ss'
    \<le> counted ''verified'' (stream_metrics logged_platform paid_stream stream_default logged_app)"
proof -
  obtain sent ss' app' where "process logged_platform paid_stream stream_default logged_app = Some (sent, ss', app')"
    using demo_stream by blast
  from payment_counters_balance[OF this] have "counted ''settled'' (stream_metrics logged_platform paid_stream stream_default logged_app) +
      counted ''settle_failed_after_serve'' (stream_metrics logged_platform paid_stream stream_default logged_app) + waiting ss'
    \<le> counted ''verified'' (stream_metrics logged_platform paid_stream stream_default logged_app)"
    by (simp add: waiting_def stream_default_def)
  then show ?thesis by (rule exI[where x = ss'])
qed

text \<open>What \<open>x402_requests_total\<close> counts. The counter goes up by one for a request let in by a
  session and for a request the free tier lets in or turns away; a request let in by a new
  payment, settled or verified, and a request refused because of its payment or for want of a
  client address, is not counted at all.\<close>

lemma request_counter_omits_payments:
  assumes "decide P mo headers ip path policy url settle app = Some (d, app')"
  shows "filter (of_metric REQUESTS) (decide_metrics P mo headers ip path policy url settle app) =
    (case d of
       Allow tier payer token settlement pending meter \<Rightarrow>
         if tier = Free then [request_sample ''free'' ''allow'' policy]
         else if settlement = None \<and> pending = None then [request_sample ''paid'' ''allow'' policy] else []
     | Deny challenge receipt meter \<Rightarrow>
         (case meter of MeterFree _ _ _ \<Rightarrow> [request_sample ''free'' ''challenge'' policy] | _ \<Rightarrow> []))"
proof -
  obtain served app1 where s: "session_stage P mo (presented_token (pf_wire P) headers) policy app = (served, app1)" by fastforce
  note r = session_requests[OF s]
  let ?tm = "resolve_terms (ap_config app) path policy url"
  show ?thesis
  proof (cases served)
    case (Some x)
    have "\<exists>payer meter. x = Allow Paid payer None None None meter"
      using s Some by (auto simp: session_stage_def split: option.splits prod.splits SessionOutcome.splits)
    then show ?thesis using s Some assms r by (auto simp: decide_eq decide_metrics_def Let_def)
  next
    case None
    show ?thesis
    proof (cases "presented (pf_wire P) headers")
      case (Some decoded)
      with s None assms have "payment_stage P mo ?tm policy settle decoded app1 = (d, app')" by (simp add: decide_eq)
      with s None Some r show ?thesis
        by (auto simp: decide_metrics_def Let_def payment_requests dest!: payment_decision split: if_splits)
    next
      case 2: None
      with s None assms have "free_stage P mo ?tm ip app1 = Some (d, app')" by (simp add: decide_eq)
      with s None 2 r show ?thesis
        by (auto simp: decide_metrics_def free_stage_def free_metrics_def Let_def split: option.splits if_split_asm)
    qed
  qed
qed

end
