(* ===== verification/Wiring.thy ===== *)
theory Wiring
  imports Service Metrics
begin

text \<open>
  What src/main.rs adds to the service of theory \<open>Service\<close>: the metrics exporter, the listener of the
  facilitator API, the periodic cleanup task and the server of both filters. Binding a socket is
  the runtime's, so it is an argument; what is modelled is which failures stop the process.
\<close>

section \<open>The cleanup task\<close>

definition CLEANUP_INTERVAL_SECS :: nat where "CLEANUP_INTERVAL_SECS = 60"

text \<open>The seconds after the start at which the interval ticks: at once, then every interval.\<close>

definition tick_time :: "nat \<Rightarrow> nat" where
  "tick_time i = i * CLEANUP_INTERVAL_SECS"

text \<open>The task over the readings of the clock at each tick: the first tick is skipped.\<close>

fun cleanup_task :: "(u64 \<times> u64) list \<Rightarrow> ('n, 'r) App \<Rightarrow> ('n, 'r) App" where
  "cleanup_task [] app = app"
| "cleanup_task (first # ticks) app =
     foldl (\<lambda>app (now_sessions, now_limiter). snd (cleanup_tick now_sessions now_limiter app)) app ticks"

lemma first_sweep: "cleanup_task [t] app = app" "tick_time 1 = 60"
  by (simp_all add: tick_time_def CLEANUP_INTERVAL_SECS_def)

text \<open>The task is the cleanup events of the service.\<close>

lemma serve_all_ticks:
  "serve_all hv P (map (\<lambda>(a, b). CleanupTick a b) ticks) s =
     Some (s\<lparr>sv_app := foldl (\<lambda>app (a, b). snd (cleanup_tick a b app)) (sv_app s) ticks\<rparr>)"
  by (induction ticks arbitrary: s) (auto simp: service_step_def)

lemma cleanup_task_served:
  "serve_all hv P (map (\<lambda>(a, b). CleanupTick a b) (tl ticks)) s = Some (s\<lparr>sv_app := cleanup_task ticks (sv_app s)\<rparr>)"
  by (cases ticks) (simp_all add: serve_all_ticks)

section \<open>The process\<close>

definition start_metrics ::
  "(SocketAddr \<Rightarrow> string \<Rightarrow> nat list \<Rightarrow> string + unit) \<Rightarrow> Config \<Rightarrow> bool" where
  "start_metrics exporter config =
     (case metrics_listen_addr config of
        None \<Rightarrow> False
      | Some addr \<Rightarrow> (case install exporter addr of Inr _ \<Rightarrow> True | Inl e \<Rightarrow> False))"

definition start_api :: "(SocketAddr \<Rightarrow> string + unit) \<Rightarrow> Config \<Rightarrow> bool" where
  "start_api bind config =
     (case facilitator_api_listen_addr config of
        None \<Rightarrow> False
      | Some addr \<Rightarrow> (case bind addr of Inr _ \<Rightarrow> True | Inl e \<Rightarrow> False))"

datatype MainError = NotStarted BootError | FiltersFailed string

record ('n, 'r) process_state =
  ps_app :: "('n, 'r) App"
  ps_metrics :: bool
  ps_api :: bool

text \<open>Both filters are served on one port, on the same state; without them the process ends.\<close>

definition run_main ::
  "('n, 'r) platform \<Rightarrow> (string \<Rightarrow> string option) \<Rightarrow> (string \<Rightarrow> ('r, string, unit) eff)
    \<Rightarrow> (SocketAddr \<Rightarrow> string \<Rightarrow> nat list \<Rightarrow> string + unit) \<Rightarrow> (SocketAddr \<Rightarrow> string + unit) \<Rightarrow> (SocketAddr \<Rightarrow> string + unit)
    \<Rightarrow> Config \<Rightarrow> SocketAddr option \<Rightarrow> 'n \<Rightarrow> 'r \<Rightarrow> MainError + ('n, 'r) process_state" where
  "run_main P env redis_connect exporter bind_api bind_filters parsed listen n r =
     (case boot P env redis_connect parsed listen n r of
        Inl e \<Rightarrow> Inl (NotStarted e)
      | Inr app \<Rightarrow>
          (let metrics = start_metrics exporter (ap_config app); api = start_api bind_api (ap_config app) in
           case bind_filters (listen_addr (ap_config app)) of
             Inl e \<Rightarrow> Inl (FiltersFailed e)
           | Inr _ \<Rightarrow> Inr \<lparr>ps_app = app, ps_metrics = metrics, ps_api = api\<rparr>))"

text \<open>Neither telemetry nor the API can keep the filters from being served.\<close>

lemma side_surfaces_are_optional:
  "(\<exists>p. run_main P env redis_connect exporter bind_api bind_filters parsed listen n r = Inr p \<and> ps_app p = app) \<longleftrightarrow>
   boot P env redis_connect parsed listen n r = Inr app \<and> bind_filters (listen_addr (ap_config app)) = Inr ()"
  by (auto simp: run_main_def Let_def split: sum.split)

end
