(* ===== verification/Clock.thy ===== *)
theory Clock
  imports Session
begin

text \<open>
  The clock helper (src/util.rs). The operating system's clock is a number of nanoseconds after the
  epoch, negative before 1970; the helper turns it into the seconds every other component works with.
\<close>

definition now_epoch_secs :: "int \<Rightarrow> u64" where
  "now_epoch_secs system_time = (if system_time < 0 then 0 else word_of_int (system_time div 1000000000))"

lemma now_epoch_secs_exact:
  assumes "0 \<le> t" "t < 2 ^ 64 * 1000000000"
  shows "int (unat (now_epoch_secs t)) = t div 1000000000"
proof -
  have "t = t div 1000000000 * 1000000000 + t mod 1000000000" "0 \<le> t mod 1000000000" by simp_all
  with assms have "0 \<le> t div 1000000000" "t div 1000000000 < 2 ^ 64" by linarith+
  then show ?thesis using assms by (simp add: now_epoch_secs_def uint_word_of_int_eq take_bit_int_eq_self)
qed

text \<open>Within the range of the counter a clock that is not set back never goes back.\<close>

lemma now_epoch_secs_mono:
  assumes "s \<le> t" "t < 2 ^ 64 * 1000000000"
  shows "now_epoch_secs s \<le> now_epoch_secs t"
proof (cases "s < 0")
  case True
  then show ?thesis by (simp add: now_epoch_secs_def[of s])
next
  case False
  have "int (unat (now_epoch_secs s)) \<le> int (unat (now_epoch_secs t))"
    using now_epoch_secs_exact[of s] now_epoch_secs_exact[of t] assms False
      zdiv_mono1[OF assms(1), of 1000000000] by (simp del: of_nat_unat)
  then show ?thesis by (simp only: of_nat_le_iff word_le_nat_alt)
qed

text \<open>C40: a host whose clock is before 1970 does not fail closed. Every token ever minted, whatever its
  deadline after the epoch, verifies there: the clock reads 0, which is before every deadline.\<close>

theorem clock_before_epoch_revives_tokens:
  assumes "hex_laws C" "token_field payer" "token_field sid" "system_time < 0" "0 < expires_at"
  shows "verify C cd (mint C cd payer expires_at sid) (now_epoch_secs system_time) =
    Inr \<lparr>claim_payer = payer, claim_expires_at = expires_at, claim_session_id = sid\<rparr>"
  using verify_mint[OF assms(1-3)] assms(4,5) by (simp add: now_epoch_secs_def)

theorem clock_before_epoch_revives_tokens_witness:
  "verify demo_crypto (codec_new ''key'') (mint demo_crypto (codec_new ''key'') ''0xa1'' 4600 ''ab'') (now_epoch_secs (- 1)) =
    Inr \<lparr>claim_payer = ''0xa1'', claim_expires_at = 4600, claim_session_id = ''ab''\<rparr>"
  by (rule clock_before_epoch_revives_tokens[OF demo_crypto_laws]) (simp_all add: token_field_def graphic_def)

end
