(* ===== verification/Spec2Isabelle.thy ===== *)
theory Spec2Isabelle
  imports Fleet DemoServer EndToEnd RedisLedger RedisMirror Sweep Wiring Clock
begin

text \<open>
  Verification of x402-verifier, an x402 payment gate for Envoy that settles on Sui.

  \<^bold>\<open>The program.\<close> Envoy asks the service about every HTTP request, either once before the upstream
  (ext_authz, src/auth.rs) or on a stream that also sees the response (ext_proc,
  src/ext_proc.rs). The decision (\<open>decide\<close> in src/auth.rs) lets a request through for an existing
  paid session (src/session.rs), for a new payment (claimed in a replay cache, verified or
  settled by the facilitator of src/x402.rs over the fullnode client of src/sui.rs), or under a
  free tier (src/ratelimit.rs); otherwise it answers 402 with the terms of the policy in force
  (src/config.rs). A circuit breaker (src/breaker.rs) stops taking payments while settlement
  fails. The facilitator is also offered over HTTP (src/facilitator_api.rs). src/main.rs reads the
  configuration, checks the fullnode's chain, opens the stores, serves both filters and the API on
  one shared state and sweeps that state once a minute. The other side of the protocol is a client
  library (src/payclient.rs) that chooses how to fund a payment, builds and signs it; a command-line
  client (src/bin/x402-pay.rs) and a demo server with a wallet of its own (src/bin/x402-demo.rs) use it.

  \<^bold>\<open>Theories.\<close>
  \<^item> \<open>Prelude\<close>: errors as sums, effects as state passing (\<open>eff_bind\<close>), saturating words, decimal
    printing and parsing, string functions; the locales \<open>keyed_component\<close> and \<open>keyed_service\<close> for
    state that is split by a key.
  \<^item> \<open>F64\<close>: binary64 with round to nearest even on the rationals the code computes, the locale
    \<open>rounding\<close> and its interpretation.
  \<^item> \<open>Breaker\<close> (src/breaker.rs), \<open>Quota\<close> and \<open>Session\<close> (src/session.rs: the compare-exchange loop;
    tokens, in-process store, replay cache with the locale \<open>replay_cache\<close>), \<open>Sweep\<close> (a history of the
    in-process store with its sweeps, simulated by the same history without them), \<open>IpAddr\<close> (addresses of the
    standard library), \<open>RateLimit\<close> (src/ratelimit.rs), \<open>RedisStores\<close> (the Redis stores of both files, their
    Lua scripts and the enums that select a backend).
  \<^item> \<open>RedisServer\<close>, \<open>RedisLedger\<close> and \<open>RedisMirror\<close>: the documented behaviour of the Redis server as a
    hypothesis, the accounts of a fleet of replicas that share it, and the Redis session store as a
    refinement of the in-process one. \<open>Clock\<close> (src/util.rs).
  \<^item> \<open>Config\<close> (src/config.rs), \<open>X402\<close> and \<open>Facilitator\<close> (src/x402.rs), \<open>Sui\<close> (src/sui.rs).
  \<^item> \<open>Auth\<close> (src/auth.rs), \<open>ExtProc\<close> (src/ext_proc.rs), \<open>FacilitatorApi\<close> (src/facilitator_api.rs),
    \<open>Service\<close> and \<open>Wiring\<close> (src/main.rs), \<open>Metrics\<close> (src/metrics.rs and the counters of both filters),
    \<open>Spending\<close> (one payment across all surfaces, over any store with the laws of the locale
    \<open>claim_cache\<close>; the in-process store has them) and \<open>Fleet\<close> (replicas on one Redis server, which has
    them too).
  \<^item> \<open>PayClient\<close> (src/payclient.rs), \<open>PayCli\<close> (src/bin/x402-pay.rs), \<open>DemoServer\<close> (src/bin/x402-demo.rs),
    \<open>EndToEnd\<close> (client and gate together).

  \<^bold>\<open>How the model corresponds to the code.\<close> A definition has the name of the function it models,
  with a prefix where the name is taken; a struct is a record with the code's fields under a
  prefix, an enum a datatype. \<open>u64\<close> is \<open>64 word\<close> and keeps the code's wrapping, saturating and checked
  operations; strings and byte strings are lists of characters, one character per byte. \<open>Result\<close> is
  a sum, \<open>Option\<close> an option, a panic is \<open>None\<close> of a definition that returns an option. State is passed
  explicitly: \<open>App\<close> is \<open>AppState\<close> together with the states of the fullnode and the Redis server.
  \<open>decide\<close> is split at the code's numbered stages (\<open>session_stage\<close>, \<open>payment_stage\<close>,
  \<open>free_stage\<close>). Readings of the clock, random bytes and measured durations are arguments (\<open>moments\<close>), one
  per reading, and nothing relates them unless a property says so.

  \<^bold>\<open>Parameters.\<close> What is not under src/ is an argument: the fullnode with BCS and the Sui types
  (\<open>fullnode\<close>), base64, serde, SHA-256 and \<open>Debug\<close> formatting (\<open>wire\<close>), HMAC and hex (\<open>crypto\<close>), Redis commands
  (\<open>redis\<close>), header validity (\<open>header_value_ok\<close>); for the client the Sui SDK (\<open>sdk\<close>), its transport, files and
  environment (\<open>client_io\<close>), the parsing of replies (\<open>replies_io\<close>), binary64 (\<open>float_ops\<close>) and the demo's fetches (\<open>pages_io\<close>). Where a property needs documented behaviour of one
  (\<open>hex_laws\<close>, an injective MAC, \<open>base64_laws\<close>, \<open>serde_laws\<close>, \<open>sdk_laws\<close>, \<open>redis_documented\<close>) it is a hypothesis, and its
  witness instantiates it.

  \<^bold>\<open>What the theorems show.\<close>
  \<^item> Charging: a transaction is settled at most once over all surfaces in any 300 seconds
    (\<open>Spending\<close>), and over all replicas that share a Redis server (\<open>Fleet\<close>); nothing is broadcast that did not pass every check for the very bytes broadcast
    (\<open>Facilitator\<close>); on a stream a charge needs a reported success, and a failed upstream releases the
    payment (\<open>ExtProc\<close>); prices are exact and receipts report what was executed.
  \<^item> Access: paid, metered or denied (\<open>Auth\<close>); sessions never grant more than was sold, sequentially
    and in every interleaving, in which the loop on the quota counter also ends for every caller
    (\<open>Session\<close>, \<open>Quota\<close>); tokens are authentic; the free tier's limit
    holds per window, whatever the rounding (\<open>RateLimit\<close>); when Redis does not answer, every request
    is refused, except that the stub mode lets in a payment it cannot decode (\<open>Auth\<close>).
  \<^item> Scaling out: with Redis, over any interleaving of any number of replicas, with lost replies,
    failing commands and expiring keys, a session is not oversold, a payment is claimed once while
    its claim lasts on the server's clock, and a bucket admits at most its limit (\<open>RedisLedger\<close>); a
    server that answers makes the Redis store reply as the in-process one (\<open>RedisMirror\<close>).
  \<^item> Running: what starts is fit to serve and never panics, in any history (\<open>Service\<close>); the breaker
    refines a failure counter; sweeps do not change answers if no claim outlives the retention of
    records (\<open>Sweep\<close>); what the counters report as settled or
    lost was counted as verified before (\<open>Metrics\<close>); metrics and API are optional (\<open>Wiring\<close>).
  \<^item> Paying: what the client sends is what the gateway reads, down to the bytes of the transaction that
    was built (\<open>PayClient\<close>); a payment so built that is new and that the chain would execute buys
    access (\<open>EndToEnd\<close>); the client takes the first way of paying it can afford, and the calls to the
    builder, read as the programmable transaction they describe (\<open>payment_of\<close>), hand exactly the
    price to the recipient (\<open>PayClient\<close>); it pays only when asked and once (\<open>PayCli\<close>); the demo's wallet keeps its budget in
    every interleaving of visitors and its hourly limit per address (\<open>DemoServer\<close>).
  \<^item> Deviations: the last properties state, on the model, behaviours that contradict the code's
    comments or intent (sweeping claims too early, the lost probe of the breaker, sessions shared by
    path prefixes, a clock before 1970), and so do lemmas of the components (replays in stub mode, the payer
    header on the free tier, a demo payment that is not counted, the published key in upper case, requests
    that no counter counts).

  \<^bold>\<open>Bounds.\<close> Every loop of the modelled code is a structural or measured recursion, so no fuel is
  used. The rate limiter's estimate is computed in exact rationals rounded after every operation. 300
  seconds in \<open>Spending\<close> and \<open>Fleet\<close> is the least lifetime \<open>replay_ttl\<close> gives a claim.

  \<^bold>\<open>Not modelled.\<close> Logging, sockets, signals, argument parsing and YAML are I/O without logic of their
  own. Handlers run as single steps, except for the quota counter, whose atomic accesses interleave,
  the Redis round trips of \<open>RedisLedger\<close>, which interleave between replicas, and the demo's handlers, whose locked
  regions do. Recorded durations have no value. Of the transactions the client builds the model has the
  calls to the SDK's builder and what these mean (\<open>read_call\<close>), not the bytes. That a client's
  disconnect may drop a demo handler between two locked regions is left out. Argument parsing and HTTP routing of the tools are crates.
\<close>

end
